(* ===== verification/Net_Prelude.thy ===== *)
theory Net_Prelude
  imports Main "HOL-Library.Word" "HOL-Library.AList" "HOL-Library.Multiset"
begin

text \<open>
  Shared vocabulary of the development.

  \<^item> Outcomes: a Go call returns a value, returns an error, ends the process
    (\<^verbatim>\<open>klog.Fatalf\<close>) or panics.  Effects on the outside world (the kernel's tables, the
    file system, the Kubernetes API) are threaded through an abstract world of type \<open>'w\<close>;
    \<open>io\<close> is the type of such a computation and \<open>ext\<close> the type of a call into code
    outside the repository, which can return a value or an error only.
  \<^item> Go maps are association lists with distinct keys.  The order in which \<^verbatim>\<open>range\<close>
    visits a map is chosen by the runtime, so a loop over a map takes an order as a
    parameter, and \<open>range_order\<close> states the only thing known of it.
  \<^item> Generic lemmas and the collections \<open>io_simps\<close>, \<open>keeps_intros\<close> and
    \<open>quiet_intros\<close> that carry the component proofs.
\<close>

section \<open>Errors and outcomes\<close>

text \<open>
  \<open>Errorf f c\<close> is an error built by \<^verbatim>\<open>fmt.Errorf\<close> with the format \<open>f\<close> and the
  underlying error \<open>c\<close>, if it has one.  The other constructors are errors that outside
  code returns; the three named ones are those the source tells apart
  (\<^verbatim>\<open>netlink.LinkNotFoundError\<close>, \<^verbatim>\<open>os.IsNotExist\<close>, \<^verbatim>\<open>errors.IsConflict\<close>).
\<close>

datatype gerr =
    ExtErr string
  | LinkNotFoundErr string
  | NotExistErr string
  | ConflictErr string
  | Errorf string "gerr option"

datatype 'a outcome =
    Ret 'a
  | Err gerr
  | Fatal string
  | Panic string

type_synonym ('w, 'a) io = "'w \<Rightarrow> 'a outcome \<times> 'w"
type_synonym ('w, 'a) ext = "'w \<Rightarrow> (gerr + 'a) \<times> 'w"

named_theorems io_simps \<open>evaluation of effectful computations\<close>
named_theorems keeps_intros \<open>computations that leave a part of the world alone\<close>
named_theorems preserves_intros \<open>computations that keep a property of the world\<close>
named_theorems quiet_intros \<open>computations that neither end the process nor panic\<close>

definition retM :: "'a \<Rightarrow> ('w, 'a) io" where
  "retM x w = (Ret x, w)"

definition throwM :: "gerr \<Rightarrow> ('w, 'a) io" where
  "throwM e w = (Err e, w)"

definition fatalM :: "string \<Rightarrow> ('w, 'a) io" where
  "fatalM msg w = (Fatal msg, w)"

definition panicM :: "string \<Rightarrow> ('w, 'a) io" where
  "panicM msg w = (Panic msg, w)"

definition bindM :: "('w, 'a) io \<Rightarrow> ('a \<Rightarrow> ('w, 'b) io) \<Rightarrow> ('w, 'b) io" where
  "bindM m f w =
     (case m w of
        (Ret x, w') \<Rightarrow> f x w'
      | (Err e, w') \<Rightarrow> (Err e, w')
      | (Fatal s, w') \<Rightarrow> (Fatal s, w')
      | (Panic s, w') \<Rightarrow> (Panic s, w'))"

text \<open>A call into outside code.\<close>

definition callM :: "('w, 'a) ext \<Rightarrow> ('w, 'a) io" where
  "callM m w = (case m w of (Inl e, w') \<Rightarrow> (Err e, w') | (Inr x, w') \<Rightarrow> (Ret x, w'))"

text \<open>\<^verbatim>\<open>if err != nil { return fmt.Errorf(msg, err) }\<close>\<close>

definition wrapM :: "string \<Rightarrow> ('w, 'a) io \<Rightarrow> ('w, 'a) io" where
  "wrapM msg m w =
     (case m w of
        (Err e, w') \<Rightarrow> (Err (Errorf msg (Some e)), w')
      | r \<Rightarrow> r)"

text \<open>\<^verbatim>\<open>if err != nil { h } else { f }\<close>\<close>

definition tryM :: "('w, 'a) io \<Rightarrow> (gerr \<Rightarrow> ('w, 'b) io) \<Rightarrow> ('a \<Rightarrow> ('w, 'b) io) \<Rightarrow> ('w, 'b) io" where
  "tryM m h f w =
     (case m w of
        (Ret x, w') \<Rightarrow> f x w'
      | (Err e, w') \<Rightarrow> h e w'
      | (Fatal s, w') \<Rightarrow> (Fatal s, w')
      | (Panic s, w') \<Rightarrow> (Panic s, w'))"

text \<open>A loop over a slice that stops at the first error.\<close>

fun forM :: "('a \<Rightarrow> ('w, unit) io) \<Rightarrow> 'a list \<Rightarrow> ('w, unit) io" where
  "forM f [] = retM ()"
| "forM f (x # xs) = bindM (f x) (\<lambda>_. forM f xs)"

text \<open>
  A computation on the world, run on a state that also holds a component's own fields
  \<open>p\<close> (the receiver of a Go method).
\<close>

definition liftW :: "('w, 'a) io \<Rightarrow> ('p \<times> 'w, 'a) io" where
  "liftW m s = (case m (snd s) of (r, w') \<Rightarrow> (r, (fst s, w')))"

definition getP :: "('p \<times> 'w, 'p) io" where
  "getP s = (Ret (fst s), s)"

definition putP :: "'p \<Rightarrow> ('p \<times> 'w, unit) io" where
  "putP p s = (Ret (), (p, snd s))"

section \<open>Evaluating computations\<close>

lemma retM_apply [simp, io_simps]: "retM x w = (Ret x, w)"
  by (simp add: retM_def)

lemma throwM_apply [simp, io_simps]: "throwM e w = (Err e, w)"
  by (simp add: throwM_def)

lemma fatalM_apply [simp, io_simps]: "fatalM msg w = (Fatal msg, w)"
  by (simp add: fatalM_def)

lemma panicM_apply [simp, io_simps]: "panicM msg w = (Panic msg, w)"
  by (simp add: panicM_def)

lemma getP_apply [simp, io_simps]: "getP (p, w) = (Ret p, (p, w))"
  by (simp add: getP_def)

lemma putP_apply [simp, io_simps]: "putP p (q, w) = (Ret (), (p, w))"
  by (simp add: putP_def)

lemma liftW_apply [simp, io_simps]:
  "liftW m (p, w) = (case m w of (r, w') \<Rightarrow> (r, (p, w')))"
  by (simp add: liftW_def)

lemma bindM_Ret [io_simps]: "m w = (Ret x, w') \<Longrightarrow> bindM m f w = f x w'"
  by (simp add: bindM_def)

lemma bindM_Err [io_simps]: "m w = (Err e, w') \<Longrightarrow> bindM m f w = (Err e, w')"
  by (simp add: bindM_def)

lemma bindM_Fatal [io_simps]: "m w = (Fatal e, w') \<Longrightarrow> bindM m f w = (Fatal e, w')"
  by (simp add: bindM_def)

lemma bindM_Panic [io_simps]: "m w = (Panic e, w') \<Longrightarrow> bindM m f w = (Panic e, w')"
  by (simp add: bindM_def)

lemma bindM_retM [simp]: "bindM (retM x) f w = f x w"
  by (simp add: bindM_def)

lemma bindM_throwM [simp]: "bindM (throwM e) f w = (Err e, w)"
  by (simp add: bindM_def)

lemma bindM_panicM: "bindM (panicM e) f = panicM e"
  by (simp add: fun_eq_iff bindM_def)

lemma bindM_case_option:
  "bindM (case x of None \<Rightarrow> m | Some y \<Rightarrow> f y) g = (case x of None \<Rightarrow> bindM m g | Some y \<Rightarrow> bindM (f y) g)"
  by (simp split: option.split)

lemma bindM_getP [simp]: "bindM getP f (p, w) = f p (p, w)"
  by (simp add: bindM_def)

lemma bindM_putP [simp]: "bindM (putP p) f (q, w) = f () (p, w)"
  by (simp add: bindM_def)

lemma fst_bindM:
  "fst (bindM m f w) =
     (case fst (m w) of Ret x \<Rightarrow> fst (f x (snd (m w))) | Err e \<Rightarrow> Err e | Fatal s \<Rightarrow> Fatal s | Panic s \<Rightarrow> Panic s)"
  by (auto simp: bindM_def split: prod.splits outcome.splits)

lemma snd_bindM:
  "snd (bindM m f w) = (case fst (m w) of Ret x \<Rightarrow> snd (f x (snd (m w))) | _ \<Rightarrow> snd (m w))"
  by (auto simp: bindM_def split: prod.splits outcome.splits)

lemma fst_callM: "fst (callM m w) = (case fst (m w) of Inl e \<Rightarrow> Err e | Inr x \<Rightarrow> Ret x)"
  by (auto simp: callM_def split: prod.splits sum.splits)

lemma snd_callM [simp]: "snd (callM m w) = snd (m w)"
  by (auto simp: callM_def split: prod.splits sum.splits)

lemma snd_wrapM [simp]: "snd (wrapM msg m w) = snd (m w)"
  by (auto simp: wrapM_def split: prod.splits outcome.splits)

lemma fst_wrapM:
  "fst (wrapM msg m w) = (case fst (m w) of Err e \<Rightarrow> Err (Errorf msg (Some e)) | r \<Rightarrow> r)"
  by (auto simp: wrapM_def split: prod.splits outcome.splits)

lemma bindM_assoc: "bindM (bindM m f) g = bindM m (\<lambda>x. bindM (f x) g)"
  by (auto simp: bindM_def fun_eq_iff split: prod.splits outcome.splits)

lemma bindM_eq_Ret:
  "bindM m f w = (Ret y, w'') \<longleftrightarrow> (\<exists>x w'. m w = (Ret x, w') \<and> f x w' = (Ret y, w''))"
  by (auto simp: bindM_def split: prod.splits outcome.splits)

lemma bindM_RetE:
  assumes "bindM m f w = (Ret y, w'')"
  obtains x w' where "m w = (Ret x, w')" and "f x w' = (Ret y, w'')"
  using assms by (auto simp: bindM_eq_Ret)

lemma callM_Inr [io_simps]: "m w = (Inr x, w') \<Longrightarrow> callM m w = (Ret x, w')"
  by (simp add: callM_def)

lemma callM_Inl [io_simps]: "m w = (Inl e, w') \<Longrightarrow> callM m w = (Err e, w')"
  by (simp add: callM_def)

lemma callM_eq_Ret: "callM m w = (Ret x, w') \<longleftrightarrow> m w = (Inr x, w')"
  by (auto simp: callM_def split: prod.splits sum.splits)

lemma wrapM_Ret [io_simps]: "m w = (Ret x, w') \<Longrightarrow> wrapM msg m w = (Ret x, w')"
  by (simp add: wrapM_def)

lemma wrapM_Err [io_simps]: "m w = (Err e, w') \<Longrightarrow> wrapM msg m w = (Err (Errorf msg (Some e)), w')"
  by (simp add: wrapM_def)

lemma bind_call_Inr: "m w = (Inr x, w') \<Longrightarrow> bindM (wrapM msg (callM m)) f w = f x w'"
  by (simp add: bindM_def wrapM_def callM_def)

lemma bind_call_Inl: "m w = (Inl e, w') \<Longrightarrow> bindM (wrapM msg (callM m)) f w = (Err (Errorf msg (Some e)), w')"
  by (simp add: bindM_def wrapM_def callM_def)

lemma wrapM_eq_Ret: "wrapM msg m w = (Ret x, w') \<longleftrightarrow> m w = (Ret x, w')"
  by (auto simp: wrapM_def split: prod.splits outcome.splits)


lemma try_call_Inr: "m w = (Inr x, w') \<Longrightarrow> tryM (callM m) h f w = f x w'"
  by (simp add: tryM_def callM_def)

lemma try_call_Inl: "m w = (Inl e, w') \<Longrightarrow> tryM (callM m) h f w = h e w'"
  by (simp add: tryM_def callM_def)

lemma tryM_eq_Ret:
  "tryM m h f w = (Ret y, w'') \<longleftrightarrow>
     (\<exists>x w'. m w = (Ret x, w') \<and> f x w' = (Ret y, w'')) \<or> (\<exists>e w'. m w = (Err e, w') \<and> h e w' = (Ret y, w''))"
  by (auto simp: tryM_def split: prod.splits outcome.splits)

lemma liftW_eq_Ret: "liftW m (p, w) = (Ret x, (p', w')) \<longleftrightarrow> m w = (Ret x, w') \<and> p' = p"
  by (auto simp: liftW_def split: prod.splits)

lemma forM_append: "forM f (xs @ ys) = bindM (forM f xs) (\<lambda>_. forM f ys)"
  by (induction xs) (auto simp: fun_eq_iff bindM_def split: prod.splits outcome.splits)

text \<open>
  Total correctness of a loop: an invariant that speaks of the elements done so far and is
  re-established by each iteration, which returns.
\<close>

lemma forM_invariant:
  assumes step: "\<And>ys x zs w. xs = ys @ x # zs \<Longrightarrow> I ys w \<Longrightarrow>
      \<exists>w'. f x w = (Ret (), w') \<and> I (ys @ [x]) w'"
    and start: "I [] w"
  shows "\<exists>w'. forM f xs w = (Ret (), w') \<and> I xs w'"
proof -
  have "\<exists>w'. forM f zs v = (Ret (), w') \<and> I xs w'" if "xs = ys @ zs" "I ys v" for ys zs v
    using that
  proof (induction zs arbitrary: ys v)
    case Nil
    then show ?case by simp
  next
    case (Cons z zs)
    then obtain v' where "f z v = (Ret (), v')" and "I (ys @ [z]) v'"
      using step by blast
    moreover have "xs = (ys @ [z]) @ zs" using Cons.prems by simp
    ultimately show ?case using Cons.IH by (auto simp: bindM_Ret)
  qed
  from this [of "[]" xs w] start show ?thesis by simp
qed

lemma bind_forM_Ret: "forM f xs w = (Ret u, w') \<Longrightarrow> bindM (forM f xs) g w = g u w'"
  by (simp add: bindM_def)

text \<open>What holds of the state whatever the loop's outcome.\<close>

lemma forM_preserves:
  assumes "\<And>x w. x \<in> set xs \<Longrightarrow> P w \<Longrightarrow> P (snd (f x w))" and "P w"
  shows "P (snd (forM f xs w))"
  using assms
proof (induction xs arbitrary: w)
  case Nil
  then show ?case by simp
next
  case (Cons x xs)
  have "P (snd (f x w))" using Cons.prems by simp
  then show ?case using Cons
    by (simp add: snd_bindM split: outcome.splits)
qed

lemma forM_cong [fundef_cong]:
  "xs = ys \<Longrightarrow> (\<And>x. x \<in> set ys \<Longrightarrow> f x = g x) \<Longrightarrow> forM f xs = forM g ys"
proof (induction ys arbitrary: xs)
  case (Cons y ys)
  then have "forM f ys = forM g ys" and "f y = g y" by auto
  with Cons.prems(1) show ?case by simp
qed simp

section \<open>Frame properties and quiet computations\<close>

definition keeps :: "('w \<Rightarrow> 'b) \<Rightarrow> ('w, 'a) io \<Rightarrow> bool" where
  "keeps v m \<longleftrightarrow> (\<forall>w. v (snd (m w)) = v w)"

definition keeps_ext :: "('w \<Rightarrow> 'b) \<Rightarrow> ('w, 'a) ext \<Rightarrow> bool" where
  "keeps_ext v m \<longleftrightarrow> (\<forall>w. v (snd (m w)) = v w)"

lemma keeps_retM [keeps_intros]: "keeps v (retM x)"
  by (simp add: keeps_def)

lemma keeps_throwM [keeps_intros]: "keeps v (throwM e)"
  by (simp add: keeps_def)

lemma keeps_fatalM [keeps_intros]: "keeps v (fatalM e)"
  by (simp add: keeps_def)

lemma keeps_bindM [keeps_intros]: "keeps v m \<Longrightarrow> (\<And>x. keeps v (f x)) \<Longrightarrow> keeps v (bindM m f)"
  by (simp add: keeps_def snd_bindM split: outcome.splits)

lemma keeps_panicM [keeps_intros]: "keeps v (panicM e)"
  by (simp add: keeps_def)

lemma keeps_tryM [keeps_intros]:
  "keeps v m \<Longrightarrow> (\<And>e. keeps v (h e)) \<Longrightarrow> (\<And>x. keeps v (f x)) \<Longrightarrow> keeps v (tryM m h f)"
  by (auto simp: keeps_def tryM_def split: prod.split outcome.split) (metis snd_conv)+

lemma keeps_callM [keeps_intros]: "keeps_ext v m \<Longrightarrow> keeps v (callM m)"
  by (simp add: keeps_def keeps_ext_def)

lemma keeps_wrapM [keeps_intros]: "keeps v m \<Longrightarrow> keeps v (wrapM msg m)"
  by (simp add: keeps_def)

lemma keeps_forM [keeps_intros]: "(\<And>x. keeps v (f x)) \<Longrightarrow> keeps v (forM f xs)"
  by (induction xs) (auto intro: keeps_intros)

lemma keeps_snd: "keeps v m \<Longrightarrow> v (snd (m w)) = v w"
  by (simp add: keeps_def)

text \<open>What a computation keeps true, whatever its outcome.\<close>

definition preserves :: "('w \<Rightarrow> bool) \<Rightarrow> ('w, 'a) io \<Rightarrow> bool" where
  "preserves P m \<longleftrightarrow> (\<forall>w. P w \<longrightarrow> P (snd (m w)))"

definition preserves_ext :: "('w \<Rightarrow> bool) \<Rightarrow> ('w, 'a) ext \<Rightarrow> bool" where
  "preserves_ext P m \<longleftrightarrow> (\<forall>w. P w \<longrightarrow> P (snd (m w)))"

lemma preserves_retM [preserves_intros]: "preserves P (retM x)"
  by (simp add: preserves_def)

lemma preserves_throwM [preserves_intros]: "preserves P (throwM x)"
  by (simp add: preserves_def)

lemma preserves_bindM [preserves_intros]:
  "preserves P m \<Longrightarrow> (\<And>x. preserves P (f x)) \<Longrightarrow> preserves P (bindM m f)"
  by (simp add: preserves_def snd_bindM split: outcome.splits)

lemma preserves_callM [preserves_intros]: "preserves_ext P m \<Longrightarrow> preserves P (callM m)"
  by (simp add: preserves_def preserves_ext_def)

lemma preserves_wrapM [preserves_intros]: "preserves P m \<Longrightarrow> preserves P (wrapM msg m)"
  by (simp add: preserves_def)

lemma preserves_forM [preserves_intros]: "(\<And>x. preserves P (f x)) \<Longrightarrow> preserves P (forM f xs)"
  by (induction xs) (auto intro: preserves_intros)

definition quiet :: "('w, 'a) io \<Rightarrow> bool" where
  "quiet m \<longleftrightarrow> (\<forall>w s. fst (m w) \<noteq> Fatal s \<and> fst (m w) \<noteq> Panic s)"

lemma quiet_retM [quiet_intros]: "quiet (retM x)"
  by (simp add: quiet_def)

lemma quiet_throwM [quiet_intros]: "quiet (throwM e)"
  by (simp add: quiet_def)

lemma quiet_callM [quiet_intros]: "quiet (callM m)"
  by (auto simp: quiet_def fst_callM split: sum.splits)

lemma quiet_wrapM [quiet_intros]: "quiet m \<Longrightarrow> quiet (wrapM msg m)"
  by (auto simp: quiet_def fst_wrapM split: outcome.splits)

lemma quiet_bindM [quiet_intros]: "quiet m \<Longrightarrow> (\<And>x. quiet (f x)) \<Longrightarrow> quiet (bindM m f)"
  by (auto simp: quiet_def fst_bindM split: outcome.splits)

lemma quiet_forM [quiet_intros]: "(\<And>x. quiet (f x)) \<Longrightarrow> quiet (forM f xs)"
  by (induction xs) (auto intro: quiet_intros)

section \<open>Strings\<close>

text \<open>\<^verbatim>\<open>strings.HasPrefix\<close>\<close>

definition HasPrefix :: "string \<Rightarrow> string \<Rightarrow> bool" where
  "HasPrefix s p \<longleftrightarrow> take (length p) s = p"

section \<open>Go maps and their iteration order\<close>

type_synonym ('k, 'v) gomap = "('k \<times> 'v) list"
type_synonym 'a order = "'a list \<Rightarrow> 'a list"

definition range_order :: "'a order \<Rightarrow> bool" where
  "range_order ord \<longleftrightarrow> (\<forall>xs. mset (ord xs) = mset xs)"

lemma range_order_id [simp]: "range_order (\<lambda>xs. xs)"
  by (simp add: range_order_def)

lemma range_order_rev [simp]: "range_order rev"
  by (simp add: range_order_def)

lemma range_order_set: "range_order ord \<Longrightarrow> set (ord xs) = set xs"
  by (metis range_order_def set_mset_mset)

lemma range_order_length: "range_order ord \<Longrightarrow> length (ord xs) = length xs"
  by (metis range_order_def size_mset)

lemma range_order_mset_map: "range_order ord \<Longrightarrow> mset (map f (ord xs)) = mset (map f xs)"
  by (metis range_order_def mset_map)

lemma range_order_distinct_map:
  "range_order ord \<Longrightarrow> distinct (map f (ord xs)) = distinct (map f xs)"
  by (metis mset_eq_imp_distinct_iff range_order_mset_map)

lemma range_order_distinct: "range_order ord \<Longrightarrow> distinct (ord xs) = distinct xs"
  using range_order_distinct_map [of ord "\<lambda>x. x" xs] by simp

text \<open>\<^verbatim>\<open>m[key(x)] = x\<close> for each element of a slice in turn, skipping those without a key.\<close>

definition indexBy :: "('a \<Rightarrow> 'k option) \<Rightarrow> 'a list \<Rightarrow> ('k, 'a) gomap" where
  "indexBy key xs =
     fold (\<lambda>x m. case key x of None \<Rightarrow> m | Some k \<Rightarrow> AList.update k x m) xs []"

definition distinct_keys :: "('k, 'v) gomap \<Rightarrow> bool" where
  "distinct_keys m \<longleftrightarrow> distinct (map fst m)"

lemma distinct_keys_Nil [simp]: "distinct_keys []"
  by (simp add: distinct_keys_def)

lemma distinct_keys_update [simp]: "distinct_keys m \<Longrightarrow> distinct_keys (AList.update k v m)"
  by (simp add: distinct_keys_def distinct_update)

lemma distinct_keys_delete [simp]: "distinct_keys m \<Longrightarrow> distinct_keys (AList.delete k m)"
  by (simp add: distinct_keys_def distinct_delete)

lemma indexBy_aux_distinct:
  "distinct_keys m \<Longrightarrow>
   distinct_keys (fold (\<lambda>x m. case key x of None \<Rightarrow> m | Some k \<Rightarrow> AList.update k x m) xs m)"
  by (induction xs arbitrary: m) (auto split: option.splits)

lemma distinct_keys_indexBy [simp]: "distinct_keys (indexBy key xs)"
  by (simp add: indexBy_def indexBy_aux_distinct)

lemma map_of_indexBy_aux:
  "map_of (fold (\<lambda>x m. case key x of None \<Rightarrow> m | Some k \<Rightarrow> AList.update k x m) xs m) k =
   (case find (\<lambda>x. key x = Some k) (rev xs) of None \<Rightarrow> map_of m k | Some x \<Rightarrow> Some x)"
proof (induction xs arbitrary: m)
  case Nil
  then show ?case by simp
next
  case (Cons x xs)
  have "find P (ys @ [y]) = (case find P ys of None \<Rightarrow> if P y then Some y else None | Some z \<Rightarrow> Some z)"
    for P and ys :: "'a list" and y
    by (induction ys) auto
  then show ?case using Cons
    by (auto simp: update_conv' split: option.splits if_splits)
qed

text \<open>The last element with the key wins.\<close>

lemma map_of_indexBy: "map_of (indexBy key xs) k = find (\<lambda>x. key x = Some k) (rev xs)"
  by (auto simp: indexBy_def map_of_indexBy_aux split: option.splits)

lemma indexBy_filter: "indexBy (\<lambda>x. if P x then key x else None) xs = indexBy key (filter P xs)"
proof -
  have "fold (\<lambda>x m. case if P x then key x else None of None \<Rightarrow> m | Some k \<Rightarrow> AList.update k x m) xs m =
    fold (\<lambda>x m. case key x of None \<Rightarrow> m | Some k \<Rightarrow> AList.update k x m) (filter P xs) m" for m
    by (induction xs arbitrary: m) auto
  then show ?thesis by (simp add: indexBy_def)
qed

lemma indexBy_SomeD: "map_of (indexBy key xs) k = Some x \<Longrightarrow> x \<in> set xs \<and> key x = Some k"
  by (auto simp: map_of_indexBy find_Some_iff) (metis length_rev nth_mem set_rev)

lemma indexBy_None_iff: "map_of (indexBy key xs) k = None \<longleftrightarrow> (\<forall>x \<in> set xs. key x \<noteq> Some k)"
  by (auto simp: map_of_indexBy find_None_iff)

lemma in_set_distinct_keys: "distinct_keys m \<Longrightarrow> (k, v) \<in> set m \<longleftrightarrow> map_of m k = Some v"
  by (auto simp: distinct_keys_def map_of_eq_Some_iff)

lemma in_set_indexBy: "(k, x) \<in> set (indexBy key xs) \<longleftrightarrow> map_of (indexBy key xs) k = Some x"
  by (simp add: in_set_distinct_keys)

definition distinct_on :: "('a \<Rightarrow> 'k option) \<Rightarrow> 'a list \<Rightarrow> bool" where
  "distinct_on key xs \<longleftrightarrow> distinct (filter (\<lambda>k. k \<noteq> None) (map key xs))"

lemma distinct_on_Nil [simp]: "distinct_on key []"
  by (simp add: distinct_on_def)

lemma distinct_on_Cons:
  "distinct_on key (x # xs) \<longleftrightarrow> (key x \<noteq> None \<longrightarrow> key x \<notin> key ` set xs) \<and> distinct_on key xs"
  by (auto simp: distinct_on_def)

lemma distinct_on_append:
  "distinct_on key (xs @ ys) \<longleftrightarrow> distinct_on key xs \<and> distinct_on key ys \<and>
     (\<forall>x \<in> set xs. \<forall>y \<in> set ys. key x \<noteq> None \<longrightarrow> key x \<noteq> key y)"
  by (induction xs) (auto simp: distinct_on_Cons image_iff)

lemma distinct_onD:
  "distinct_on key xs \<Longrightarrow> x \<in> set xs \<Longrightarrow> y \<in> set xs \<Longrightarrow> key x = Some k \<Longrightarrow> key y = Some k \<Longrightarrow> x = y"
  by (induction xs) (auto simp: distinct_on_Cons image_iff)

lemma indexBy_distinct_on:
  assumes "distinct_on key xs" and "x \<in> set xs" and "key x = Some k"
  shows "map_of (indexBy key xs) k = Some x"
proof (cases "map_of (indexBy key xs) k")
  case None
  then show ?thesis using assms by (auto simp: indexBy_None_iff)
next
  case (Some y)
  then show ?thesis using assms indexBy_SomeD [OF Some] distinct_onD by metis
qed

lemma map_of_filter_keys:
  "map_of (filter (\<lambda>(k, v). P k) m) k = (if P k then map_of m k else None)"
  by (induction m) auto

text \<open>A map built from entries with distinct keys is the list of them.\<close>

lemma indexBy_aux_append:
  assumes "distinct_on key xs" and "\<forall>x \<in> set xs. key x \<noteq> None \<and> the (key x) \<notin> fst ` set m"
  shows "fold (\<lambda>x m. case key x of None \<Rightarrow> m | Some k \<Rightarrow> AList.update k x m) xs m =
    m @ map (\<lambda>x. (the (key x), x)) xs"
  using assms
proof (induction xs arbitrary: m)
  case (Cons x xs)
  obtain k where k: "key x = Some k" using Cons.prems by auto
  have "k \<notin> fst ` set m" using Cons.prems k by auto
  then have upd: "AList.update k x m = m @ [(k, x)]" by (induction m) auto
  have "the (key y) \<noteq> k" if "y \<in> set xs" for y
    using Cons.prems k that by (metis distinct_on_Cons image_eqI list.set_intros(2) option.collapse)
  then show ?case using Cons k by (simp add: upd distinct_on_Cons)
qed simp

lemma indexBy_eq_map:
  "distinct_on key xs \<Longrightarrow> \<forall>x \<in> set xs. key x \<noteq> None \<Longrightarrow> indexBy key xs = map (\<lambda>x. (the (key x), x)) xs"
  by (simp add: indexBy_def indexBy_aux_append)

lemma range_indexBy:
  assumes ord: "range_order ord" and xs: "distinct_on key xs" "\<forall>x \<in> set xs. key x \<noteq> None"
  shows "mset (map snd (filter (\<lambda>(k, x). Q k x) (ord (indexBy key xs)))) = mset (filter (\<lambda>x. Q (the (key x)) x) xs)"
proof -
  have "mset (filter (\<lambda>(k, x). Q k x) (ord (indexBy key xs))) = mset (filter (\<lambda>(k, x). Q k x) (indexBy key xs))"
    using ord by (simp add: range_order_def)
  then have "mset (map snd (filter (\<lambda>(k, x). Q k x) (ord (indexBy key xs)))) =
      mset (map snd (filter (\<lambda>(k, x). Q k x) (indexBy key xs)))" by (metis mset_map)
  also have "\<dots> = mset (filter (\<lambda>x. Q (the (key x)) x) xs)"
    by (simp add: indexBy_eq_map [OF xs] filter_map o_def)
  finally show ?thesis .
qed

lemma distinct_on_distinct:
  "distinct_on key xs \<Longrightarrow> \<forall>x \<in> set xs. key x \<noteq> None \<Longrightarrow> distinct xs"
  by (induction xs) (auto simp: distinct_on_Cons)

lemma mset_distinct_on: "mset xs = mset ys \<Longrightarrow> distinct_on key xs = distinct_on key ys"
  unfolding distinct_on_def by (metis mset_eq_imp_distinct_iff mset_filter mset_map)

end
