(* ===== verification/Go_Net.thy ===== *)
theory Go_Net
  imports Net_Prelude
begin

text \<open>
  What the program uses of the Go standard library: \<^verbatim>\<open>net.IP\<close>, \<^verbatim>\<open>net.IPMask\<close>,
  \<^verbatim>\<open>net.IPNet\<close> and their parsing and printing (packages \<^verbatim>\<open>net\<close> and \<^verbatim>\<open>net/netip\<close> of
  Go 1.22, the toolchain of \<^verbatim>\<open>src/go.mod\<close>), and the number and string functions behind them.

  An \<^verbatim>\<open>IP\<close> is a byte slice that may be nil, so it is an optional byte list; a mask is only
  ever compared and measured, where nil and empty agree, so it is a byte list.  The lemmas
  at the end are those the components rest on: \<open>IP_Equal\<close> is the kernel of the 16-byte form,
  equal networks print the same key, the shape of what \<open>ParseIP\<close> and \<open>ParseCIDR\<close> return,
  and the round trip of an IPv4 network through its text.
\<close>

unbundle bit_operations_syntax

type_synonym byte = "8 word"
type_synonym ip = "byte list option"

record ipnet =
  ipn_IP :: ip
  ipn_Mask :: "byte list"

section \<open>Characters and numbers\<close>

definition digit_val :: "char \<Rightarrow> nat option" where
  "digit_val c =
     (let n = of_char c in if 48 \<le> n \<and> n \<le> (57::nat) then Some (n - 48) else None)"

definition hex_val :: "char \<Rightarrow> nat option" where
  "hex_val c =
     (let n = of_char c in
      if 48 \<le> n \<and> n \<le> (57::nat) then Some (n - 48)
      else if 97 \<le> n \<and> n \<le> 102 then Some (n - 97 + 10)
      else if 65 \<le> n \<and> n \<le> 70 then Some (n - 65 + 10)
      else None)"

definition digit_char :: "nat \<Rightarrow> char" where
  "digit_char d = char_of (48 + d)"

definition hex_char :: "nat \<Rightarrow> char" where
  "hex_char d = char_of (if d < 10 then 48 + d else 87 + d)"

fun itoa :: "nat \<Rightarrow> string" where
  "itoa n = (if n < 10 then [digit_char n] else itoa (n div 10) @ [digit_char (n mod 10)])"

declare itoa.simps [simp del]

fun hextoa :: "nat \<Rightarrow> string" where
  "hextoa n = (if n < 16 then [hex_char n] else hextoa (n div 16) @ [hex_char (n mod 16)])"

declare hextoa.simps [simp del]

text \<open>The format \<^verbatim>\<open>%02x\<close> of a byte.\<close>

definition hex2 :: "byte \<Rightarrow> string" where
  "hex2 b = [hex_char (unat b div 16), hex_char (unat b mod 16)]"

fun join :: "string \<Rightarrow> string list \<Rightarrow> string" where
  "join sep [] = []"
| "join sep [x] = x"
| "join sep (x # y # ys) = x @ sep @ join sep (y # ys)"

section \<open>IP addresses and masks\<close>

definition ip_bytes :: "ip \<Rightarrow> byte list" where
  "ip_bytes a = (case a of None \<Rightarrow> [] | Some b \<Rightarrow> b)"

definition v4InV6Prefix :: "byte list" where
  "v4InV6Prefix = [0, 0, 0, 0, 0, 0, 0, 0, 0, 0, 255, 255]"

definition To4 :: "ip \<Rightarrow> ip" where
  "To4 a =
     (let b = ip_bytes a in
      if length b = 4 then Some b
      else if length b = 16 \<and> take 12 b = v4InV6Prefix then Some (drop 12 b)
      else None)"

definition IP_Equal :: "ip \<Rightarrow> ip \<Rightarrow> bool" where
  "IP_Equal a e =
     (let x = ip_bytes a; y = ip_bytes e in
      if length x = length y then x = y
      else if length x = 4 \<and> length y = 16 then take 12 y = v4InV6Prefix \<and> x = drop 12 y
      else if length x = 16 \<and> length y = 4 then take 12 x = v4InV6Prefix \<and> drop 12 x = y
      else False)"

definition IPv4 :: "byte \<Rightarrow> byte \<Rightarrow> byte \<Rightarrow> byte \<Rightarrow> ip" where
  "IPv4 a b c d = Some (v4InV6Prefix @ [a, b, c, d])"

definition IPv4Mask :: "byte \<Rightarrow> byte \<Rightarrow> byte \<Rightarrow> byte \<Rightarrow> byte list" where
  "IPv4Mask a b c d = [a, b, c, d]"

fun CIDRMask_bytes :: "nat \<Rightarrow> nat \<Rightarrow> byte list" where
  "CIDRMask_bytes 0 n = []"
| "CIDRMask_bytes (Suc l) n =
     (if 8 \<le> n then 255 # CIDRMask_bytes l (n - 8)
      else NOT (drop_bit n 255) # CIDRMask_bytes l 0)"

definition CIDRMask :: "nat \<Rightarrow> nat \<Rightarrow> byte list" where
  "CIDRMask ones bits =
     (if bits \<noteq> 32 \<and> bits \<noteq> 128 then []
      else if bits < ones then []
      else CIDRMask_bytes (bits div 8) ones)"

definition IP_Mask :: "byte list \<Rightarrow> byte list \<Rightarrow> ip" where
  "IP_Mask b mk =
     (let mk2 = (if length mk = 16 \<and> length b = 4 \<and> take 12 mk = replicate 12 255
                   then drop 12 mk else mk);
          b' = (if length mk2 = 4 \<and> length b = 16 \<and> take 12 b = v4InV6Prefix
                then drop 12 b else b)
      in if length b' \<noteq> length mk2 then None
         else Some (map (\<lambda>(x, m). x AND m) (zip b' mk2)))"

text \<open>The leading one bits of a byte, and what is left of the byte after them.\<close>

fun leading_ones :: "nat \<Rightarrow> byte \<Rightarrow> nat \<times> byte" where
  "leading_ones 0 v = (0, v)"
| "leading_ones (Suc k) v =
     (if v AND 0x80 \<noteq> 0 then (case leading_ones k (push_bit 1 v) of (n, r) \<Rightarrow> (Suc n, r))
      else (0, v))"

fun simpleMaskLength :: "byte list \<Rightarrow> nat option" where
  "simpleMaskLength [] = Some 0"
| "simpleMaskLength (v # vs) =
     (if v = 255 then map_option (\<lambda>n. n + 8) (simpleMaskLength vs)
      else case leading_ones 8 v of (n, r) \<Rightarrow>
        if r \<noteq> 0 then None
        else if list_all (\<lambda>b. b = 0) vs then Some n
        else None)"

definition IPMask_Size :: "byte list \<Rightarrow> nat \<times> nat" where
  "IPMask_Size m =
     (case simpleMaskLength m of None \<Rightarrow> (0, 0) | Some n \<Rightarrow> (n, length m * 8))"

definition IsLinkLocalUnicast :: "ip \<Rightarrow> bool" where
  "IsLinkLocalUnicast a =
     (case To4 a of
        Some b \<Rightarrow> b ! 0 = 169 \<and> b ! 1 = 254
      | None \<Rightarrow> (let b = ip_bytes a in length b = 16 \<and> b ! 0 = 0xfe \<and> (b ! 1) AND 0xc0 = 0x80))"

section \<open>Printing\<close>

definition dotted :: "byte list \<Rightarrow> string" where
  "dotted b = join ''.'' (map (\<lambda>x. itoa (unat x)) b)"

fun groups16 :: "byte list \<Rightarrow> nat list" where
  "groups16 (a # b # r) = (unat a * 256 + unat b) # groups16 r"
| "groups16 _ = []"

text \<open>The first longest run of at least two zero groups, as \<open>[start, end)\<close>.\<close>

definition zero_run :: "nat list \<Rightarrow> (nat \<times> nat) option" where
  "zero_run g =
     fold (\<lambda>i best.
             let l = length (takeWhile (\<lambda>x. x = 0) (drop i g)) in
             case best of
               None \<Rightarrow> if 2 \<le> l then Some (i, i + l) else None
             | Some (s, e) \<Rightarrow> if 2 \<le> l \<and> e - s < l then Some (i, i + l) else best)
       [0..<length g] None"

definition string6 :: "byte list \<Rightarrow> string" where
  "string6 b =
     (let g = groups16 b in
      case zero_run g of
        None \<Rightarrow> join '':'' (map hextoa g)
      | Some (s, e) \<Rightarrow> join '':'' (map hextoa (take s g)) @ ''::'' @ join '':'' (map hextoa (drop e g)))"

definition IP_String :: "ip \<Rightarrow> string" where
  "IP_String a =
     (let b = ip_bytes a in
      if length b = 0 then ''<nil>''
      else if length b \<noteq> 4 \<and> length b \<noteq> 16 then CHR ''?'' # concat (map hex2 b)
      else case To4 a of Some p4 \<Rightarrow> dotted p4 | None \<Rightarrow> string6 b)"

definition networkNumberAndMask :: "ipnet \<Rightarrow> (byte list \<times> byte list) option" where
  "networkNumberAndMask n =
     (case (case To4 (ipn_IP n) of
              Some b \<Rightarrow> Some b
            | None \<Rightarrow> (let b = ip_bytes (ipn_IP n) in if length b \<noteq> 16 then None else Some b)) of
        None \<Rightarrow> None
      | Some b \<Rightarrow>
          (let m = ipn_Mask n in
           if length m = 4 then (if length b \<noteq> 4 then None else Some (b, m))
           else if length m = 16 then (if length b = 4 then Some (b, drop 12 m) else Some (b, m))
           else None))"

definition IPNet_String :: "ipnet option \<Rightarrow> string" where
  "IPNet_String no =
     (case no of
        None \<Rightarrow> ''<nil>''
      | Some n \<Rightarrow>
          (case networkNumberAndMask n of
             None \<Rightarrow> ''<nil>''
           | Some (b, m) \<Rightarrow>
               (case simpleMaskLength m of
                  None \<Rightarrow> IP_String (Some b) @ ''/'' @ concat (map hex2 m)
                | Some l \<Rightarrow> IP_String (Some b) @ ''/'' @ itoa l)))"

section \<open>Parsing\<close>

fun parseIPv4Fields :: "string \<Rightarrow> nat \<Rightarrow> nat \<Rightarrow> byte list \<Rightarrow> byte list option" where
  "parseIPv4Fields [] val digLen acc = (if length acc < 3 then None else Some (acc @ [of_nat val]))"
| "parseIPv4Fields (c # s) val digLen acc =
     (case digit_val c of
        Some d \<Rightarrow>
          if digLen = 1 \<and> val = 0 then None
          else if 255 < val * 10 + d then None
          else parseIPv4Fields s (val * 10 + d) (digLen + 1) acc
      | None \<Rightarrow>
          if c = CHR ''.'' then
            (if digLen = 0 \<or> s = [] then None
             else if length acc = 3 then None
             else parseIPv4Fields s 0 0 (acc @ [of_nat val]))
          else None)"

text \<open>A run of at most four hexadecimal digits: how many, their value and the rest.\<close>

fun scanHex :: "string \<Rightarrow> nat \<Rightarrow> nat \<Rightarrow> (nat \<times> nat \<times> string) option" where
  "scanHex [] off acc = Some (off, acc, [])"
| "scanHex (c # s) off acc =
     (case hex_val c of
        None \<Rightarrow> Some (off, acc, c # s)
      | Some d \<Rightarrow>
          if 3 < off then None
          else if 65535 < acc * 16 + d then None
          else scanHex s (off + 1) (acc * 16 + d))"

text \<open>
  The loop of \<^verbatim>\<open>parseIPv6\<close>: the text left, the bytes stored so far and the position of the
  ellipsis.  It returns the same three on its exits from the loop, \<open>None\<close> on an error.
\<close>

function parseIPv6_loop ::
  "string \<Rightarrow> byte list \<Rightarrow> nat option \<Rightarrow> (string \<times> byte list \<times> nat option) option"
where
  "parseIPv6_loop s b el =
     (if 16 \<le> length b then Some (s, b, el)
      else case scanHex s 0 0 of
        None \<Rightarrow> None
      | Some (off, acc, r) \<Rightarrow>
          if off = 0 then None
          else
            (let b' = b @ [of_nat (acc div 256), of_nat (acc mod 256)] in
             case r of
               [] \<Rightarrow> Some ([], b', el)
             | c # t \<Rightarrow>
                 if c = CHR ''.'' then
                   (if el = None \<and> length b \<noteq> 12 then None
                    else if 16 < length b + 4 then None
                    else case parseIPv4Fields s 0 0 [] of
                      None \<Rightarrow> None
                    | Some f \<Rightarrow> Some ([], b @ f, el))
                 else if c \<noteq> CHR '':'' then None
                 else (case t of
                    [] \<Rightarrow> None
                  | d # u \<Rightarrow>
                      if d = CHR '':'' then
                        (if el \<noteq> None then None
                         else if u = [] then Some ([], b', Some (length b'))
                         else parseIPv6_loop u b' (Some (length b')))
                      else parseIPv6_loop t b' el)))"
  by pat_completeness auto
termination
  by (relation "measure (\<lambda>(s, b, el). 16 - length b)") auto

declare parseIPv6_loop.simps [simp del]

definition parseIPv6 :: "string \<Rightarrow> byte list option" where
  "parseIPv6 s =
     (if s = ''::'' then Some (replicate 16 0)
      else
        let leading = (take 2 s = ''::'');
            s' = (if leading then drop 2 s else s);
            el = (if leading then Some 0 else None) in
        case parseIPv6_loop s' [] el of
          None \<Rightarrow> None
        | Some (r, b, el') \<Rightarrow>
            if r \<noteq> [] then None
            else if length b < 16 then
              (case el' of
                 None \<Rightarrow> None
               | Some k \<Rightarrow> Some (take k b @ replicate (16 - length b) 0 @ drop k b))
            else if el' \<noteq> None then None
            else Some b)"

text \<open>
  \<^verbatim>\<open>netip.ParseAddr\<close>, whose callers here refuse a zone: 4 or 16 bytes.  The first of the
  characters dot and colon decides which syntax is read.
\<close>

definition parseAddr :: "string \<Rightarrow> byte list option" where
  "parseAddr s =
     (if CHR ''%'' \<in> set s then None
      else case dropWhile (\<lambda>c. c \<noteq> CHR ''.'' \<and> c \<noteq> CHR '':'') s of
        [] \<Rightarrow> None
      | c # _ \<Rightarrow> if c = CHR ''.'' then parseIPv4Fields s 0 0 [] else parseIPv6 s)"

definition As16 :: "byte list \<Rightarrow> byte list" where
  "As16 b = (if length b = 4 then v4InV6Prefix @ b else b)"

definition ParseIP :: "string \<Rightarrow> ip" where
  "ParseIP s = map_option As16 (parseAddr s)"

fun dtoi_loop :: "string \<Rightarrow> nat \<Rightarrow> (nat \<times> string) option" where
  "dtoi_loop [] n = Some (n, [])"
| "dtoi_loop (c # s) n =
     (case digit_val c of
        None \<Rightarrow> Some (n, c # s)
      | Some d \<Rightarrow> if 0xFFFFFF \<le> n * 10 + d then None else dtoi_loop s (n * 10 + d))"

definition dtoi :: "string \<Rightarrow> (nat \<times> string) option" where
  "dtoi s = (case s of [] \<Rightarrow> None | c # _ \<Rightarrow> if digit_val c = None then None else dtoi_loop s 0)"

definition ParseCIDR :: "string \<Rightarrow> (ip \<times> ipnet) option" where
  "ParseCIDR s =
     (case dropWhile (\<lambda>c. c \<noteq> CHR ''/'') s of
        [] \<Rightarrow> None
      | _ # mk \<Rightarrow>
          (case parseAddr (takeWhile (\<lambda>c. c \<noteq> CHR ''/'') s) of
             None \<Rightarrow> None
           | Some b \<Rightarrow>
               (case dtoi mk of
                  None \<Rightarrow> None
                | Some (n, r) \<Rightarrow>
                    if r \<noteq> [] \<or> 8 * length b < n then None
                    else (let m = CIDRMask n (8 * length b) in
                          Some (Some (As16 b), \<lparr>ipn_IP = IP_Mask (As16 b) m, ipn_Mask = m\<rparr>)))))"

section \<open>Equality of addresses\<close>

lemma length_v4InV6Prefix [simp]: "length v4InV6Prefix = 12"
  by (simp add: v4InV6Prefix_def)

lemma ip_bytes_simps [simp]: "ip_bytes None = []" "ip_bytes (Some b) = b"
  by (simp_all add: ip_bytes_def)

lemma append_prefix_iff:
  "length b = 16 \<Longrightarrow> v4InV6Prefix @ x = b \<longleftrightarrow> take 12 b = v4InV6Prefix \<and> x = drop 12 b"
  by (metis append_eq_conv_conj length_v4InV6Prefix)

lemma length_As16: "length (As16 b) = (if length b = 4 then 16 else length b)"
  by (simp add: As16_def)

lemma IP_Equal_iff: "IP_Equal a e \<longleftrightarrow> As16 (ip_bytes a) = As16 (ip_bytes e)"
proof -
  let ?x = "ip_bytes a" and ?y = "ip_bytes e"
  consider "length ?x = length ?y" | "length ?x = 4" "length ?y = 16" | "length ?x = 16" "length ?y = 4"
    | "length ?x \<noteq> length ?y" "length (As16 ?x) \<noteq> length (As16 ?y)"
    by (cases "length ?x = 4"; cases "length ?y = 4"; cases "length ?x = 16"; cases "length ?y = 16")
      (auto simp: length_As16)
  then show ?thesis
  proof cases
    case 1
    then show ?thesis by (auto simp: IP_Equal_def As16_def)
  next
    case 2
    then show ?thesis by (simp add: IP_Equal_def As16_def append_prefix_iff Let_def)
  next
    case 3
    have "IP_Equal a e \<longleftrightarrow> take 12 ?x = v4InV6Prefix \<and> drop 12 ?x = ?y"
      using 3 by (simp add: IP_Equal_def Let_def)
    moreover have "As16 ?x = ?x" and "As16 ?y = v4InV6Prefix @ ?y"
      using 3 by (simp_all add: As16_def)
    ultimately show ?thesis using append_prefix_iff [OF 3(1), of ?y] by metis
  next
    case 4
    then have "As16 ?x \<noteq> As16 ?y" by metis
    with 4 show ?thesis by (auto simp: IP_Equal_def As16_def Let_def split: if_splits)
  qed
qed

lemma IP_Equal_refl [simp]: "IP_Equal a a"
  by (simp add: IP_Equal_iff)

lemma IP_Equal_sym: "IP_Equal a e \<Longrightarrow> IP_Equal e a"
  by (simp add: IP_Equal_iff)

lemma IP_Equal_trans: "IP_Equal a b \<Longrightarrow> IP_Equal b c \<Longrightarrow> IP_Equal a c"
  by (simp add: IP_Equal_iff)

lemma IP_Equal_same_length:
  "length (ip_bytes a) = length (ip_bytes e) \<Longrightarrow> IP_Equal a e \<longleftrightarrow> ip_bytes a = ip_bytes e"
  by (simp add: IP_Equal_def)

text \<open>\<open>To4\<close> and the printed form depend on the 16-byte form only.\<close>

lemma To4_As16: "To4 a = To4 (Some (As16 (ip_bytes a)))"
  by (auto simp: To4_def As16_def Let_def)

lemma To4_cong: "IP_Equal a e \<Longrightarrow> To4 a = To4 e"
  by (metis IP_Equal_iff To4_As16)

lemma To4_SomeD: "To4 a = Some b \<Longrightarrow> length b = 4 \<and> As16 b = As16 (ip_bytes a)"
  by (auto simp: To4_def As16_def Let_def append_prefix_iff split: if_splits)

lemma To4_NoneD: "To4 a = None \<Longrightarrow> As16 (ip_bytes a) = ip_bytes a"
  by (auto simp: To4_def As16_def Let_def split: if_splits)

lemma IsLinkLocalUnicast_cong:
  assumes "IP_Equal a e" shows "IsLinkLocalUnicast a = IsLinkLocalUnicast e"
proof (cases "To4 a")
  case None
  then have "To4 e = None" using To4_cong [OF assms] by simp
  then have "ip_bytes a = ip_bytes e" using None assms To4_NoneD by (metis IP_Equal_iff)
  then show ?thesis using None \<open>To4 e = None\<close> by (simp add: IsLinkLocalUnicast_def)
next
  case (Some b)
  then show ?thesis using To4_cong [OF assms] by (simp add: IsLinkLocalUnicast_def)
qed

lemma length_To4: "To4 a = Some b \<Longrightarrow> length b = 4"
  by (simp add: To4_SomeD)

lemma To4_bytes: "To4 ip = Some bs \<Longrightarrow> \<exists>a b c d. bs = [a, b, c, d]"
  using length_To4 [of ip bs] by (auto simp: length_Suc_conv numeral_eq_Suc)

lemma IP_String_To4: "To4 a = Some b \<Longrightarrow> IP_String a = dotted b"
  by (auto simp: IP_String_def To4_def Let_def split: if_splits)

lemma IP_String_cong:
  assumes "IP_Equal a e"
  shows "IP_String a = IP_String e"
proof (cases "To4 a")
  case (Some b)
  then show ?thesis using assms To4_cong IP_String_To4 by metis
next
  case None
  then have "To4 e = None" using assms To4_cong by metis
  with None have "ip_bytes a = ip_bytes e"
    using assms by (simp add: IP_Equal_iff To4_NoneD)
  with None \<open>To4 e = None\<close> show ?thesis by (simp add: IP_String_def Let_def)
qed

lemma networkNumberAndMask_cong:
  assumes "ipn_Mask a = ipn_Mask e" and eq: "IP_Equal (ipn_IP a) (ipn_IP e)"
  shows "networkNumberAndMask a = networkNumberAndMask e"
proof (cases "To4 (ipn_IP a)")
  case (Some b)
  then show ?thesis using assms by (simp add: networkNumberAndMask_def To4_cong [OF eq])
next
  case None
  then have "To4 (ipn_IP e) = None" using To4_cong [OF eq] by simp
  with None have "ip_bytes (ipn_IP a) = ip_bytes (ipn_IP e)"
    using eq by (simp add: IP_Equal_iff To4_NoneD)
  with None show ?thesis
    using assms by (simp add: networkNumberAndMask_def To4_cong [OF eq] Let_def)
qed

section \<open>What the parsers return\<close>

lemma length_parseIPv4Fields:
  "parseIPv4Fields s val n acc = Some b \<Longrightarrow> length acc \<le> 3 \<Longrightarrow> length b = 4"
  by (induction s val n acc rule: parseIPv4Fields.induct) (auto split: option.splits if_splits)

lemma parseIPv6_loop_step:
  assumes "length b < 16" and "scanHex s 0 0 = Some (off, acc, r)" and "off \<noteq> 0"
  shows "parseIPv6_loop s b el =
    (let b' = b @ [of_nat (acc div 256), of_nat (acc mod 256)] in
     case r of
       [] \<Rightarrow> Some ([], b', el)
     | c # t \<Rightarrow>
         if c = CHR ''.'' then
           (if el = None \<and> length b \<noteq> 12 then None
            else if 16 < length b + 4 then None
            else map_option (\<lambda>f. ([], b @ f, el)) (parseIPv4Fields s 0 0 []))
         else if c \<noteq> CHR '':'' then None
         else (case t of
            [] \<Rightarrow> None
          | d # u \<Rightarrow>
              if d = CHR '':'' then
                (if el \<noteq> None then None
                 else if u = [] then Some ([], b', Some (length b'))
                 else parseIPv6_loop u b' (Some (length b')))
              else parseIPv6_loop t b' el))"
  using assms
  by (subst parseIPv6_loop.simps) (auto simp: Let_def map_option_case split: list.split)

lemma parseIPv6_loop_length:
  "parseIPv6_loop s b el = Some (r, b', el') \<Longrightarrow> length b \<le> 16 \<Longrightarrow> even (length b) \<Longrightarrow>
   length b' \<le> 16"
proof (induction "16 - length b" arbitrary: s b el rule: less_induct)
  case less
  show ?case
  proof (cases "16 \<le> length b")
    case True
    then show ?thesis using less.prems by (simp add: parseIPv6_loop.simps [of s b el])
  next
    case False
    with less.prems obtain off acc t where sc: "scanHex s 0 0 = Some (off, acc, t)" "off \<noteq> 0"
      by (subst (asm) parseIPv6_loop.simps) (auto split: option.splits if_splits prod.splits)
    let ?b = "b @ [of_nat (acc div 256), of_nat (acc mod 256)]"
    from False less.prems have *: "length ?b \<le> 16" "even (length ?b)" "length b < 16"
      by (simp; presburger)+
    have IH: "parseIPv6_loop s' ?b el'' = Some (r, b', el') \<Longrightarrow> length b' \<le> 16" for s' el''
      using less.hyps [of ?b] * by auto
    show ?thesis
      using less.prems(1) * IH unfolding parseIPv6_loop_step [OF *(3) sc]
      by (auto simp: Let_def split: list.splits if_splits dest: length_parseIPv4Fields)
  qed
qed

lemma length_parseIPv6: "parseIPv6 s = Some b \<Longrightarrow> length b = 16"
  by (auto simp: parseIPv6_def Let_def split: if_splits option.splits prod.splits
      dest!: parseIPv6_loop_length)

lemma length_parseAddr: "parseAddr s = Some b \<Longrightarrow> length b = 4 \<or> length b = 16"
  by (auto simp: parseAddr_def split: if_splits list.splits
      dest: length_parseIPv4Fields length_parseIPv6)

lemma ParseIP_length: "ParseIP s = Some b \<Longrightarrow> length b = 16"
  using length_parseAddr by (fastforce simp: ParseIP_def length_As16)

lemma length_CIDRMask_bytes [simp]: "length (CIDRMask_bytes l n) = l"
  by (induction l arbitrary: n) auto

lemma length_CIDRMask: "n \<le> bits \<Longrightarrow> bits = 32 \<or> bits = 128 \<Longrightarrow> length (CIDRMask n bits) = bits div 8"
  by (auto simp: CIDRMask_def)

text \<open>Networks as \<open>ParseCIDR\<close> builds them: the address has the length of the mask.\<close>

definition wf_ipnet :: "ipnet \<Rightarrow> bool" where
  "wf_ipnet n \<longleftrightarrow>
     ipn_IP n \<noteq> None \<and> length (ip_bytes (ipn_IP n)) = length (ipn_Mask n) \<and>
     length (ipn_Mask n) \<in> {4, 16}"

lemma ParseCIDR_SomeD:
  assumes "ParseCIDR s = Some (a, n)"
  obtains b l where "length b = 4 \<or> length b = 16" and "l \<le> 8 * length b"
    and "a = Some (As16 b)"
    and "n = \<lparr>ipn_IP = IP_Mask (As16 b) (CIDRMask l (8 * length b)), ipn_Mask = CIDRMask l (8 * length b)\<rparr>"
proof -
  from assms obtain b l where "parseAddr (takeWhile (\<lambda>c. c \<noteq> CHR ''/'') s) = Some b"
    and "l \<le> 8 * length b" and "a = Some (As16 b)"
    and "n = \<lparr>ipn_IP = IP_Mask (As16 b) (CIDRMask l (8 * length b)), ipn_Mask = CIDRMask l (8 * length b)\<rparr>"
    unfolding ParseCIDR_def Let_def
    by (auto split: list.splits option.splits if_splits prod.splits simp: not_less)
  then show ?thesis using that length_parseAddr by blast
qed

lemma ParseCIDR_wf:
  assumes "ParseCIDR s = Some (a, n)"
  shows "wf_ipnet n"
proof -
  from assms obtain b l where b: "length b = 4 \<or> length b = 16" and l: "l \<le> 8 * length b"
    and n: "n = \<lparr>ipn_IP = IP_Mask (As16 b) (CIDRMask l (8 * length b)), ipn_Mask = CIDRMask l (8 * length b)\<rparr>"
    by (rule ParseCIDR_SomeD)
  have "length (CIDRMask l (8 * length b)) = length b"
    using l b by (auto simp: length_CIDRMask)
  then show ?thesis using b n
    by (auto simp: wf_ipnet_def IP_Mask_def Let_def length_As16 As16_def)
qed

lemma wf_ipnet_Equal:
  assumes "wf_ipnet a" and "wf_ipnet e" and "ipn_Mask a = ipn_Mask e" and "IP_Equal (ipn_IP a) (ipn_IP e)"
  shows "a = e"
proof -
  have "ip_bytes (ipn_IP a) = ip_bytes (ipn_IP e)"
    using assms IP_Equal_same_length by (auto simp: wf_ipnet_def)
  then have "ipn_IP a = ipn_IP e"
    using assms by (auto simp: wf_ipnet_def)
  with assms show ?thesis by simp
qed

section \<open>Evaluation on literals\<close>

named_theorems net_eval \<open>kernel evaluation of parsers and printers on literals\<close>

lemma digit_val_simps [simp, net_eval]:
  "digit_val (CHR ''0'') = Some 0" "digit_val (CHR ''1'') = Some 1" "digit_val (CHR ''2'') = Some 2"
  "digit_val (CHR ''3'') = Some 3" "digit_val (CHR ''4'') = Some 4" "digit_val (CHR ''5'') = Some 5"
  "digit_val (CHR ''6'') = Some 6" "digit_val (CHR ''7'') = Some 7" "digit_val (CHR ''8'') = Some 8"
  "digit_val (CHR ''9'') = Some 9" "digit_val (CHR ''.'') = None" "digit_val (CHR ''/'') = None"
  by (simp_all add: digit_val_def)

lemma CIDRMask_bytes_numeral [simp, net_eval]:
  "CIDRMask_bytes (numeral k) n =
     (if 8 \<le> n then 255 # CIDRMask_bytes (pred_numeral k) (n - 8)
      else NOT (drop_bit n 255) # CIDRMask_bytes (pred_numeral k) 0)"
  by (simp add: numeral_eq_Suc)

lemma leading_ones_numeral [simp, net_eval]:
  "leading_ones (numeral k) v =
     (if v AND 0x80 \<noteq> 0
      then (case leading_ones (pred_numeral k) (push_bit 1 v) of (n, r) \<Rightarrow> (Suc n, r))
      else (0, v))"
  by (simp add: numeral_eq_Suc)

lemmas net_defs [net_eval] =
  ParseCIDR_def parseAddr_def dtoi_def CIDRMask_def IP_Mask_def As16_def v4InV6Prefix_def IPv4_def
  ParseIP_def To4_def IP_Equal_def Let_def

lemma digit_char_simps [simp, net_eval]:
  "digit_char 0 = CHR ''0''" "digit_char (Suc 0) = CHR ''1''" "digit_char 2 = CHR ''2''"
  "digit_char 3 = CHR ''3''" "digit_char 4 = CHR ''4''" "digit_char 5 = CHR ''5''"
  "digit_char 6 = CHR ''6''" "digit_char 7 = CHR ''7''" "digit_char 8 = CHR ''8''"
  "digit_char 9 = CHR ''9''"
  by (simp_all add: digit_char_def char_of_def bit_Suc_0_iff)

lemma hex_char_simps [simp, net_eval]:
  "hex_char 0 = CHR ''0''" "hex_char (Suc 0) = CHR ''1''" "hex_char 2 = CHR ''2''"
  "hex_char 3 = CHR ''3''" "hex_char 4 = CHR ''4''" "hex_char 5 = CHR ''5''"
  "hex_char 6 = CHR ''6''" "hex_char 7 = CHR ''7''" "hex_char 8 = CHR ''8''"
  "hex_char 9 = CHR ''9''" "hex_char 10 = CHR ''a''" "hex_char 11 = CHR ''b''"
  "hex_char 12 = CHR ''c''" "hex_char 13 = CHR ''d''" "hex_char 14 = CHR ''e''"
  "hex_char 15 = CHR ''f''"
  by (simp_all add: hex_char_def char_of_def bit_Suc_0_iff)

lemmas net_print_defs [net_eval] =
  IPNet_String_def networkNumberAndMask_def IP_String_def dotted_def itoa.simps hex2_def

section \<open>Printing and reading an IPv4 network\<close>

lemma digit_val_char [simp]: "d < 10 \<Longrightarrow> digit_val (digit_char d) = Some d"
proof -
  assume "d < 10"
  then have "d \<in> {0, 1, 2, 3, 4, 5, 6, 7, 8, 9}" by auto
  then show ?thesis by auto
qed

lemma digit_val_not_dot: "digit_val c = Some d \<Longrightarrow> c \<noteq> CHR ''.'' \<and> c \<noteq> CHR '':'' \<and> c \<noteq> CHR ''/'' \<and> c \<noteq> CHR ''%''"
  by (auto simp: digit_val_def Let_def)

lemma itoa_digits: "c \<in> set (itoa n) \<Longrightarrow> digit_val c \<noteq> None"
proof (induction n rule: itoa.induct)
  case (1 n)
  show ?case
  proof (cases "n < 10")
    case True
    then show ?thesis using "1.prems" by (simp add: itoa.simps)
  next
    case False
    then show ?thesis using 1 by (auto simp: itoa.simps [of n])
  qed
qed

lemma itoa_chars: "c \<in> set (itoa n) \<Longrightarrow> c \<noteq> CHR ''.'' \<and> c \<noteq> CHR '':'' \<and> c \<noteq> CHR ''/'' \<and> c \<noteq> CHR ''%''"
  using itoa_digits digit_val_not_dot by blast

lemma itoa_cases:
  assumes "n < 1000"
  obtains (one) d where "d < 10" "n = d" "itoa n = [digit_char d]"
  | (two) e d where "0 < e" "e < 10" "d < 10" "n = 10 * e + d" "itoa n = [digit_char e, digit_char d]"
  | (three) f e d where "0 < f" "f < 10" "e < 10" "d < 10" "n = 100 * f + 10 * e + d"
      "itoa n = [digit_char f, digit_char e, digit_char d]"
proof -
  consider "n < 10" | "10 \<le> n" "n < 100" | "100 \<le> n" by linarith
  then show ?thesis
  proof cases
    case 1
    then show ?thesis by (intro one [of n]) (simp_all add: itoa.simps)
  next
    case 2
    then show ?thesis
      by (intro two [of "n div 10" "n mod 10"]) (auto simp: itoa.simps [of n] itoa.simps [of "n div 10"])
  next
    case 3
    have "n div 10 div 10 = n div 100" by (simp add: div_mult2_eq [symmetric])
    moreover have "n = 10 * (n div 10) + n mod 10" "n div 10 = 10 * (n div 10 div 10) + n div 10 mod 10" by simp_all
    then have "n = 100 * (n div 10 div 10) + 10 * (n div 10 mod 10) + n mod 10" by linarith
    ultimately show ?thesis using assms 3
      by (intro three [of "n div 100" "n div 10 mod 10" "n mod 10"])
        (auto simp: itoa.simps [of n] itoa.simps [of "n div 10"] itoa.simps [of "n div 100"])
  qed
qed

lemma parseIPv4Fields_itoa:
  assumes "n \<le> 255"
  shows "\<exists>k > 0. parseIPv4Fields (itoa n @ s) 0 0 acc = parseIPv4Fields s n k acc"
proof -
  have "n < 1000" using assms by simp
  then show ?thesis using assms
    by (cases n rule: itoa_cases) (auto simp: algebra_simps)
qed

lemma unat_byte_le: "unat (b :: byte) \<le> 255"
  using unsigned_less [of b, where ?'a = nat] by simp

lemma parseIPv4Fields_dotted: "parseIPv4Fields (dotted [a, b, c, d]) 0 0 [] = Some [a, b, c, d]"
proof -
  have field: "parseIPv4Fields (itoa (unat x) @ CHR ''.'' # s) 0 0 acc = parseIPv4Fields s 0 0 (acc @ [x])"
    if "s \<noteq> []" "length acc < 3" for x :: byte and s acc
    using parseIPv4Fields_itoa [OF unat_byte_le, of x "CHR ''.'' # s" acc] that by auto
  have ne: "itoa n \<noteq> []" for n by (simp add: itoa.simps [of n])
  have last: "parseIPv4Fields (itoa (unat d)) 0 0 [a, b, c] = Some [a, b, c, d]"
    using parseIPv4Fields_itoa [OF unat_byte_le, of d "[]" "[a, b, c]"] by auto
  show ?thesis using last by (simp add: dotted_def field ne)
qed

lemma dtoi_itoa:
  assumes "n \<le> 255"
  shows "dtoi (itoa n) = Some (n, [])"
proof -
  have "n < 1000" using assms by simp
  then show ?thesis using assms
    by (cases n rule: itoa_cases) (auto simp: dtoi_def algebra_simps)
qed

lemma simpleMaskLength_CIDRMask:
  assumes "l \<le> 32"
  shows "simpleMaskLength (CIDRMask l 32) = Some l"
proof -
  have "\<forall>l \<in> {0..32}. simpleMaskLength (CIDRMask l 32) = Some l"
    unfolding atLeastAtMost_iff by code_simp
  with assms show ?thesis by simp
qed

lemma takeWhile_append_all: "\<forall>x \<in> set xs. P x \<Longrightarrow> \<not> P y \<Longrightarrow> takeWhile P (xs @ y # ys) = xs"
  by (induction xs) auto

lemma dropWhile_append_all: "\<forall>x \<in> set xs. P x \<Longrightarrow> \<not> P y \<Longrightarrow> dropWhile P (xs @ y # ys) = y # ys"
  by (induction xs) auto

lemma parseAddr_dotted: "parseAddr (dotted [a, b, c, d]) = Some [a, b, c, d]"
proof -
  have pct: "CHR ''%'' \<notin> set (dotted [a, b, c, d])" by (auto simp: dotted_def dest: itoa_chars)
  have "dropWhile (\<lambda>x. x \<noteq> CHR ''.'' \<and> x \<noteq> CHR '':'') (itoa (unat a) @ CHR ''.'' # s) = CHR ''.'' # s" for s
    by (rule dropWhile_append_all) (auto dest: itoa_chars)
  then have "\<exists>s. dropWhile (\<lambda>x. x \<noteq> CHR ''.'' \<and> x \<noteq> CHR '':'') (dotted [a, b, c, d]) = CHR ''.'' # s"
    by (simp add: dotted_def)
  then show ?thesis using pct by (auto simp: parseAddr_def parseIPv4Fields_dotted)
qed

lemma map_AND_idem:
  "map (\<lambda>(x, m). x AND m) (zip (map (\<lambda>(x, m). x AND m) (zip xs ms)) ms) = map (\<lambda>(x, m). x AND m) (zip xs (ms :: byte list))"
  by (induction xs arbitrary: ms; case_tac ms) (auto simp: and.assoc)

lemma length_4: "length xs = 4 \<Longrightarrow> \<exists>a b c d. xs = [a, b, c, d]"
  by (auto simp: length_Suc_conv numeral_eq_Suc)

text \<open>An IPv4 network printed and read again is the same network.\<close>

lemma ParseCIDR_print:
  assumes "ParseCIDR s = Some (ip, net)" and "length (ipn_Mask net) = 4"
  shows "\<exists>ip'. ParseCIDR (IPNet_String (Some net)) = Some (ip', net)"
proof -
  from assms(1) obtain b l where b: "length b = 4 \<or> length b = 16" and l: "l \<le> 8 * length b"
    and net: "net = \<lparr>ipn_IP = IP_Mask (As16 b) (CIDRMask l (8 * length b)), ipn_Mask = CIDRMask l (8 * length b)\<rparr>"
    by (rule ParseCIDR_SomeD)
  have b4: "length b = 4" using b l net assms(2) by (auto simp: length_CIDRMask)
  let ?m = "CIDRMask l 32" and ?ip = "map (\<lambda>(x, m). x AND m) (zip b (CIDRMask l 32))"
  have m: "length ?m = 4" using assms(2) b4 net by simp
  have ip: "IP_Mask (As16 c) ?m = Some (map (\<lambda>(x, m). x AND m) (zip c ?m))" if "length c = 4" for c
    using that m by (simp add: IP_Mask_def As16_def)
  obtain x y z u where q: "?ip = [x, y, z, u]" using length_4 [of ?ip] b4 m by auto
  have net': "net = \<lparr>ipn_IP = Some ?ip, ipn_Mask = ?m\<rparr>" using net b4 ip by simp
  have len: "length ?ip = 4" using b4 m by simp
  have l': "l \<le> 32" using l b4 by simp
  have ne: "b \<noteq> []" "?m \<noteq> []" using b4 m by auto
  have str: "IPNet_String (Some net) = dotted ?ip @ CHR ''/'' # itoa l"
    using m b4 ne simpleMaskLength_CIDRMask [OF l']
    by (simp add: IPNet_String_def net' networkNumberAndMask_def To4_def IP_String_def Let_def)
  have noslash: "\<forall>c \<in> set (dotted ?ip). c \<noteq> CHR ''/''" by (auto simp: q dotted_def dest: itoa_chars)
  have "takeWhile (\<lambda>c. c \<noteq> CHR ''/'') (IPNet_String (Some net)) = dotted ?ip"
    "dropWhile (\<lambda>c. c \<noteq> CHR ''/'') (IPNet_String (Some net)) = CHR ''/'' # itoa l"
    using takeWhile_append_all [OF noslash] dropWhile_append_all [OF noslash] by (simp_all add: str)
  moreover have "parseAddr (dotted ?ip) = Some ?ip" by (simp add: q parseAddr_dotted)
  moreover have "dtoi (itoa l) = Some (l, [])" using dtoi_itoa l' by simp
  ultimately show ?thesis using l' len ip [OF len] map_AND_idem [of b ?m]
    by (simp add: ParseCIDR_def net' Let_def)
qed

text \<open>A network of the examples.\<close>

definition pod_net :: "byte \<Rightarrow> ipnet" where
  "pod_net n = \<lparr>ipn_IP = Some [10, 0, n, 0], ipn_Mask = [255, 255, 255, 0]\<rparr>"

end
