(* ===== verification/Cni.thy ===== *)
theory Cni
  imports Go_Net
begin

text \<open>
  The CNI configuration writer (\<^verbatim>\<open>src/pkg/cni/simpleconfigwriter.go\<close>).

  The file system is outside code: \<^verbatim>\<open>ioutil.ReadFile\<close> and \<^verbatim>\<open>ioutil.WriteFile\<close> are parameters, and
  \<open>file_system\<close> states what is relied on of them.  Files are byte strings, here character lists.
  The theorems say what the file holds after the call, that a second call does not write, and that
  the subnet in the file is the text of the pod network, which reads back as the same network.
\<close>

section \<open>Files\<close>

record 'w files =
  fs_ReadFile :: "string \<Rightarrow> ('w, string) ext"
  fs_WriteFile :: "string \<Rightarrow> string \<Rightarrow> nat \<Rightarrow> ('w, unit) ext"

definition IsNotExist :: "gerr \<Rightarrow> bool" where
  "IsNotExist e = (case e of NotExistErr _ \<Rightarrow> True | _ \<Rightarrow> False)"

section \<open>strings.ReplaceAll\<close>

text \<open>Every occurrence from left to right, without overlaps; an empty \<open>old\<close> matches around every character.\<close>

function (sequential) ReplaceAll :: "string \<Rightarrow> string \<Rightarrow> string \<Rightarrow> string" where
  "ReplaceAll [] new s = concat (map (\<lambda>c. new @ [c]) s) @ new"
| "ReplaceAll (o1 # old) new [] = []"
| "ReplaceAll (o1 # old) new (c # s) =
     (if take (Suc (length old)) (c # s) = o1 # old
      then new @ ReplaceAll (o1 # old) new (drop (length old) s)
      else c # ReplaceAll (o1 # old) new s)"
  by pat_completeness auto
termination
  by (relation "measure (\<lambda>(old, new, s). length s)") auto

section \<open>The writer\<close>

record SimpleConfigWriter =
  scw_Path :: string

definition cniConfig :: string where
  \<open>cniConfig = ''\<newline>{\<newline>  "cniVersion":      "0.3.1",\<newline>  "name":            "k8s-pod-network",\<newline>'' @
     ''  "type":            "bridge",\<newline>  "bridge":          "kopeio",\<newline>  "isDefaultGateway": true,\<newline>'' @
     ''  "ipMasq": true,\<newline>  "ipam": {\<newline>    "type":   "host-local",\<newline>    "name":   "kopeio",\<newline>'' @
     ''    "subnet": "{{PodCIDR}}"\<newline>  }\<newline>}\<newline>''\<close>

definition cni_expected :: "ipnet option \<Rightarrow> string" where
  "cni_expected podCIDR =
     (let podCIDRString = (case podCIDR of None \<Rightarrow> '''' | Some net \<Rightarrow> IPNet_String (Some net))
      in ReplaceAll ''{{PodCIDR}}'' podCIDRString cniConfig)"

definition WriteCNIConfig :: "'w files \<Rightarrow> SimpleConfigWriter \<Rightarrow> ipnet option \<Rightarrow> ('w, unit) io" where
  "WriteCNIConfig fs w podCIDR =
     bindM (tryM (callM (fs_ReadFile fs (scw_Path w)))
              (\<lambda>err. if IsNotExist err then retM [] else throwM (Errorf ''error reading cni config %s: %v'' (Some err)))
              retM)
       (\<lambda>existing.
          let expected = cni_expected podCIDR in
          if existing = expected then retM ()
          else wrapM ''error writing cni config %s: %v''
                 (callM (fs_WriteFile fs (scw_Path w) expected 420)))"

section \<open>The contract of the file system\<close>

text \<open>
  \<open>content w p\<close> is what the file \<open>p\<close> holds.  Reading does not change files, returns the content of
  a file that exists, and reports a missing one as such; a write that succeeds replaces the content
  of that file alone.
\<close>

definition file_system :: "'w files \<Rightarrow> ('w \<Rightarrow> string \<Rightarrow> string option) \<Rightarrow> bool" where
  "file_system fs content \<longleftrightarrow>
     (\<forall>p w r w'. fs_ReadFile fs p w = (r, w') \<longrightarrow> content w' = content w \<and>
        (\<forall>b. r = Inr b \<longrightarrow> content w p = Some b) \<and>
        (\<forall>e. r = Inl e \<longrightarrow> IsNotExist e \<longrightarrow> content w p = None)) \<and>
     (\<forall>p b mode w w'. fs_WriteFile fs p b mode w = (Inr (), w') \<longrightarrow> content w' = (content w)(p \<mapsto> b))"

section \<open>What the configuration holds\<close>

definition cni_head :: string where
  \<open>cni_head = ''\<newline>{\<newline>  "cniVersion":      "0.3.1",\<newline>  "name":            "k8s-pod-network",\<newline>'' @
     ''  "type":            "bridge",\<newline>  "bridge":          "kopeio",\<newline>  "isDefaultGateway": true,\<newline>'' @
     ''  "ipMasq": true,\<newline>  "ipam": {\<newline>    "type":   "host-local",\<newline>    "name":   "kopeio",\<newline>'' @
     ''    "subnet": "''\<close>

definition cni_tail :: string where
  \<open>cni_tail = ''"\<newline>  }\<newline>}\<newline>''\<close>

lemma ReplaceAll_skip:
  "c \<noteq> o1 \<Longrightarrow> ReplaceAll (o1 # old) new (c # s) = c # ReplaceAll (o1 # old) new s"
  by simp

lemma cni_expected_eq:
  "cni_expected podCIDR = cni_head @ (case podCIDR of None \<Rightarrow> '''' | Some net \<Rightarrow> IPNet_String (Some net)) @ cni_tail"
  by (simp add: cni_expected_def cniConfig_def cni_head_def cni_tail_def)

section \<open>The file after a call\<close>

lemma file_systemD:
  assumes "file_system fs content"
  shows "fs_ReadFile fs p w = (r, w') \<Longrightarrow> content w' = content w"
    and "fs_ReadFile fs p w = (Inr b, w') \<Longrightarrow> content w p = Some b"
    and "fs_ReadFile fs p w = (Inl e, w') \<Longrightarrow> IsNotExist e \<Longrightarrow> content w p = None"
    and "fs_WriteFile fs p b mode w = (Inr (), w') \<Longrightarrow> content w' = (content w)(p \<mapsto> b)"
  using assms by (auto simp: file_system_def)

text \<open>The branches of the call.\<close>

lemma WriteCNIConfig_cases:
  fixes w podCIDR
  defines "path \<equiv> scw_Path w" and "expected \<equiv> cni_expected podCIDR"
  obtains (unreadable) e s1 where "fs_ReadFile fs path s = (Inl e, s1)" "\<not> IsNotExist e"
      "WriteCNIConfig fs w podCIDR s = (Err (Errorf ''error reading cni config %s: %v'' (Some e)), s1)"
  | (same) s1 where "fs_ReadFile fs path s = (Inr expected, s1)" "WriteCNIConfig fs w podCIDR s = (Ret (), s1)"
  | (differs) r1 s1 where "fs_ReadFile fs path s = (r1, s1)" "r1 \<noteq> Inr expected" "\<forall>e. r1 = Inl e \<longrightarrow> IsNotExist e"
      "WriteCNIConfig fs w podCIDR s =
         wrapM ''error writing cni config %s: %v'' (callM (fs_WriteFile fs path expected 420)) s1"
proof (cases "fs_ReadFile fs path s")
  case (Pair r s1)
  have ne: "expected \<noteq> []" by (simp add: expected_def cni_expected_eq cni_tail_def)
  show ?thesis
  proof (cases r)
    case (Inl e)
    show ?thesis
    proof (cases "IsNotExist e")
      case True
      with ne Pair Inl show ?thesis unfolding path_def expected_def
        by (intro differs [of "Inl e" s1]) (simp_all add: path_def expected_def WriteCNIConfig_def bindM_def tryM_def callM_def)
    next
      case False
      with Pair Inl show ?thesis
        by (intro unreadable [of e s1]) (simp_all add: path_def WriteCNIConfig_def bindM_def tryM_def callM_def)
    qed
  next
    case (Inr b)
    show ?thesis
    proof (cases "b = expected")
      case True
      with Pair Inr show ?thesis
        by (intro same [of s1]) (simp_all add: path_def expected_def WriteCNIConfig_def bindM_def tryM_def callM_def)
    next
      case False
      with Pair Inr show ?thesis
        by (intro differs [of "Inr b" s1]) (simp_all add: path_def expected_def WriteCNIConfig_def bindM_def tryM_def callM_def)
    qed
  qed
qed

lemma WriteCNIConfig_content:
  assumes fs: "file_system fs content" and run: "WriteCNIConfig fs w podCIDR s = (Ret (), s')"
  shows "content s' = (content s)(scw_Path w \<mapsto> cni_expected podCIDR)"
proof (cases rule: WriteCNIConfig_cases [of fs w s podCIDR])
  case (unreadable e s1)
  then show ?thesis using run by simp
next
  case (same s1)
  then show ?thesis using run file_systemD(1,2) [OF fs same(1)] by (auto simp: fun_upd_idem)
next
  case (differs r1 s1)
  have "fs_WriteFile fs (scw_Path w) (cni_expected podCIDR) 420 s1 = (Inr (), s')"
    using run unfolding differs(4) by (simp add: wrapM_eq_Ret callM_eq_Ret)
  then show ?thesis using file_systemD(1) [OF fs differs(1)] file_systemD(4) [OF fs] by simp
qed

section \<open>Properties\<close>

text \<open>A file system that is a map from paths to contents, used to run the model.\<close>

definition map_files :: "(string \<Rightarrow> string option) files" where
  "map_files =
     \<lparr>fs_ReadFile = (\<lambda>p w. (case w p of None \<Rightarrow> Inl (NotExistErr p) | Some b \<Rightarrow> Inr b, w)),
      fs_WriteFile = (\<lambda>p b mode w. (Inr (), w(p \<mapsto> b)))\<rparr>"

lemma map_files_file_system: "file_system map_files (\<lambda>w. w)"
  by (auto simp: file_system_def map_files_def IsNotExist_def split: option.splits)

text \<open>C31: \<^verbatim>\<open>WriteCNIConfig\<close> neither ends the process nor panics.  When it succeeds the file at the
  path is the template with the pod network in place, and every other file is as before; a second
  call then succeeds after the read alone, without a write.  When the file cannot be read for another
  reason than that it is missing, the call fails and no file has changed.\<close>

theorem WriteCNIConfig_writes:
  assumes "file_system fs content" and "WriteCNIConfig fs w podCIDR s = (r, s')"
    and "\<forall>v. content v (scw_Path w) \<noteq> None \<longrightarrow> (\<exists>b v'. fs_ReadFile fs (scw_Path w) v = (Inr b, v'))"
  shows "(r = Ret () \<or> (\<exists>e. r = Err e)) \<and>
    (r = Ret () \<longrightarrow>
       content s' = (content s)(scw_Path w \<mapsto> cni_expected podCIDR) \<and>
       WriteCNIConfig fs w podCIDR s' = (Ret (), snd (fs_ReadFile fs (scw_Path w) s'))) \<and>
    (\<forall>e s1. fs_ReadFile fs (scw_Path w) s = (Inl e, s1) \<and> \<not> IsNotExist e \<longrightarrow> r \<noteq> Ret () \<and> content s' = content s)"
proof -
  have quiet: "quiet (WriteCNIConfig fs w podCIDR)"
    unfolding WriteCNIConfig_def
    by (auto simp: quiet_def fst_bindM tryM_def fst_wrapM fst_callM callM_def Let_def split: prod.splits sum.splits outcome.splits)
  have "r = Ret () \<or> (\<exists>e. r = Err e)" using quiet assms(2) unfolding quiet_def by (cases r) (auto, metis fst_conv, metis fst_conv)
  moreover have "WriteCNIConfig fs w podCIDR s' = (Ret (), snd (fs_ReadFile fs (scw_Path w) s'))" if "r = Ret ()"
  proof -
    have exp: "content s' (scw_Path w) = Some (cni_expected podCIDR)"
      using WriteCNIConfig_content [OF assms(1)] assms(2) that by simp
    then obtain v where rd: "fs_ReadFile fs (scw_Path w) s' = (Inr (cni_expected podCIDR), v)"
      using assms(3) file_systemD(2) [OF assms(1)] by (metis option.distinct(1) option.inject)
    show ?thesis by (cases rule: WriteCNIConfig_cases [of fs w s' podCIDR]) (simp_all add: rd)
  qed
  moreover have "r \<noteq> Ret () \<and> content s' = content s" if "fs_ReadFile fs (scw_Path w) s = (Inl e, s1)" "\<not> IsNotExist e" for e s1
    using that assms(2) file_systemD(1) [OF assms(1) that(1)]
    by (cases rule: WriteCNIConfig_cases [of fs w s podCIDR]) auto
  ultimately show ?thesis using WriteCNIConfig_content [OF assms(1)] assms(2) by blast
qed

theorem WriteCNIConfig_writes_witness:
  "snd (WriteCNIConfig map_files \<lparr>scw_Path = ''/cni''\<rparr> (Some (pod_net 7)) Map.empty) ''/cni'' =
     Some (cni_head @ ''10.0.7.0/24'' @ cni_tail)"
proof -
  let ?w = "\<lparr>scw_Path = ''/cni''\<rparr>"
  have rd: "\<forall>v. v (scw_Path ?w) \<noteq> None \<longrightarrow> (\<exists>b v'. fs_ReadFile map_files (scw_Path ?w) v = (Inr b, v'))"
    by (auto simp: map_files_def)
  have "WriteCNIConfig map_files ?w (Some (pod_net 7)) Map.empty =
      (Ret (), snd (WriteCNIConfig map_files ?w (Some (pod_net 7)) Map.empty))"
    by (simp add: WriteCNIConfig_def map_files_def bindM_def tryM_def callM_def wrapM_def IsNotExist_def Let_def
        cni_expected_eq cni_tail_def)
  from WriteCNIConfig_writes [OF map_files_file_system this rd] show ?thesis
    by (simp add: cni_expected_eq pod_net_def net_eval)
qed

text \<open>C32: The pod subnet that the container runtime reads is the node's: when the pod network is an
  IPv4 network that was parsed from a node object, the subnet in the written file is a text that
  parses to that same network.\<close>

theorem cni_subnet_roundtrip:
  assumes "file_system fs content" and "ParseCIDR text = Some (ip, net)" and "length (ipn_Mask net) = 4"
    and "WriteCNIConfig fs w (Some net) s = (Ret (), s')"
  shows "\<exists>subnet ip'. content s' (scw_Path w) = Some (cni_head @ subnet @ cni_tail) \<and>
    ParseCIDR subnet = Some (ip', net)"
  using WriteCNIConfig_content [OF assms(1,4)] ParseCIDR_print [OF assms(2,3)] by (auto simp: cni_expected_eq)

theorem cni_subnet_roundtrip_witness:
  "\<exists>subnet ip'. snd (WriteCNIConfig map_files \<lparr>scw_Path = ''/cni''\<rparr> (Some (pod_net 7)) Map.empty) ''/cni'' =
       Some (cni_head @ subnet @ cni_tail) \<and> ParseCIDR subnet = Some (ip', pod_net 7)"
proof -
  have p: "ParseCIDR ''10.0.7.9/24'' = Some (IPv4 10 0 7 9, pod_net 7)" by (simp add: pod_net_def net_eval)
  have "WriteCNIConfig map_files \<lparr>scw_Path = ''/cni''\<rparr> (Some (pod_net 7)) Map.empty =
      (Ret (), snd (WriteCNIConfig map_files \<lparr>scw_Path = ''/cni''\<rparr> (Some (pod_net 7)) Map.empty))"
    by (simp add: WriteCNIConfig_def map_files_def bindM_def tryM_def callM_def wrapM_def IsNotExist_def Let_def
        cni_expected_eq cni_tail_def)
  from cni_subnet_roundtrip [OF map_files_file_system p _ this] show ?thesis by (simp add: pod_net_def)
qed

end
