(* ===== verification/Go_Flags.thy ===== *)
theory Go_Flags
  imports Net_Prelude
begin

text \<open>
  Of the Go package \<^verbatim>\<open>flag\<close> what the agent and the operator use: flags that set a variable, and
  \<^verbatim>\<open>FlagSet.Parse\<close> with \<^verbatim>\<open>ExitOnError\<close>.  The variables are the fields of a record of type \<open>'o\<close>.
\<close>

section \<open>Flags\<close>

text \<open>A flag of a flag set: whether it is boolean, and what setting it does.\<close>

record 'o flag =
  fl_bool :: bool
  fl_Set :: "string \<Rightarrow> 'o \<Rightarrow> gerr + 'o"

definition StringVar :: "(string \<Rightarrow> 'o \<Rightarrow> 'o) \<Rightarrow> 'o flag" where
  "StringVar upd = \<lparr>fl_bool = False, fl_Set = (\<lambda>value options. Inr (upd value options))\<rparr>"

definition DurationVar :: "(string \<Rightarrow> gerr + int) \<Rightarrow> (int \<Rightarrow> 'o \<Rightarrow> 'o) \<Rightarrow> 'o flag" where
  "DurationVar ParseDuration upd =
     \<lparr>fl_bool = False,
      fl_Set = (\<lambda>value options. case ParseDuration value of
         Inl err \<Rightarrow> Inl (Errorf ''parse error'' None)
       | Inr d \<Rightarrow> Inr (upd d options))\<rparr>"

definition ParseBool :: "string \<Rightarrow> bool option" where
  "ParseBool str =
     (if str \<in> {''1'', ''t'', ''T'', ''true'', ''TRUE'', ''True''} then Some True
      else if str \<in> {''0'', ''f'', ''F'', ''false'', ''FALSE'', ''False''} then Some False
      else None)"

definition BoolVar :: "(bool \<Rightarrow> 'o \<Rightarrow> 'o) \<Rightarrow> 'o flag" where
  "BoolVar upd =
     \<lparr>fl_bool = True,
      fl_Set = (\<lambda>value options. case ParseBool value of
         None \<Rightarrow> Inl (Errorf ''parse error'' None)
       | Some b \<Rightarrow> Inr (upd b options))\<rparr>"

text \<open>
  The flags that libraries add to the set, klog and others: name, boolean or not, and the values
  that are accepted.  Their variables are not the program's.
\<close>

type_synonym library_flag = "string \<times> bool \<times> (string \<Rightarrow> bool)"

definition library_flags :: "library_flag list \<Rightarrow> (string \<times> 'o flag) list" where
  "library_flags =
     map (\<lambda>(name, isBool, accepts).
       (name, \<lparr>fl_bool = isBool,
          fl_Set = (\<lambda>value options. if accepts value then Inr options else Inl (Errorf ''invalid value'' None))\<rparr>))"

text \<open>\<^verbatim>\<open>FlagSet.Set\<close>\<close>

definition Flags_Set :: "(string \<times> 'o flag) list \<Rightarrow> string \<Rightarrow> string \<Rightarrow> 'o \<Rightarrow> gerr + 'o" where
  "Flags_Set flags name value options =
     (case map_of flags name of
        None \<Rightarrow> Inl (Errorf ''no such flag -%v'' None)
      | Some f \<Rightarrow> fl_Set f value options)"

text \<open>
  \<^verbatim>\<open>FlagSet.Parse\<close> with \<^verbatim>\<open>ExitOnError\<close>, argument by argument (\<^verbatim>\<open>parseOne\<close>): it stops at the first argument
  that is not a flag, and any error ends the process.
\<close>

definition flag_exit :: "string \<Rightarrow> 'o outcome" where
  "flag_exit msg = Fatal msg"

fun Flags_Parse :: "(string \<times> 'o flag) list \<Rightarrow> string list \<Rightarrow> 'o \<Rightarrow> 'o outcome" where
  "Flags_Parse flags [] options = Ret options"
| "Flags_Parse flags (s # args) options =
     (if length s < 2 \<or> s ! 0 \<noteq> CHR ''-'' then Ret options
      else if s = ''--'' then Ret options
      else
        let body = (if s ! 1 = CHR ''-'' then drop 2 s else drop 1 s) in
        if body = [] \<or> body ! 0 = CHR ''-'' \<or> body ! 0 = CHR ''='' then flag_exit ''bad flag syntax: %s''
        else
          let name = hd body # takeWhile (\<lambda>c. c \<noteq> CHR ''='') (tl body);
              rest = dropWhile (\<lambda>c. c \<noteq> CHR ''='') (tl body) in
          (case map_of flags name of
             None \<Rightarrow> flag_exit (if name = ''help'' \<or> name = ''h'' then ''flag: help requested''
                                  else ''flag provided but not defined: -%s'')
           | Some f \<Rightarrow>
               if rest \<noteq> [] then
                 (case fl_Set f (tl rest) options of
                    Inl err \<Rightarrow> flag_exit (if fl_bool f then ''invalid boolean value %q for -%s: %v''
                                             else ''invalid value %q for flag -%s: %v'')
                  | Inr options' \<Rightarrow> Flags_Parse flags args options')
               else if fl_bool f then
                 (case fl_Set f ''true'' options of
                    Inl err \<Rightarrow> flag_exit ''invalid boolean flag %s: %v''
                  | Inr options' \<Rightarrow> Flags_Parse flags args options')
               else
                 (case args of
                    [] \<Rightarrow> flag_exit ''flag needs an argument: -%s''
                  | value # args' \<Rightarrow>
                      (case fl_Set f value options of
                         Inl err \<Rightarrow> flag_exit ''invalid value %q for flag -%s: %v''
                       | Inr options' \<Rightarrow> Flags_Parse flags args' options'))))"

section \<open>Properties of the parser\<close>

lemma Flags_Parse_first:
  "prog = [] \<or> hd prog \<noteq> CHR ''-'' \<Longrightarrow> Flags_Parse flags (prog # args) options = Ret options"
  by (cases prog) auto

declare Flags_Parse.simps(2) [simp del]

lemma map_of_library_flags:
  "map_of (library_flags lib) name = Some f \<Longrightarrow> fl_Set f value options = Inr options' \<Longrightarrow> options' = options"
  by (induction lib) (auto simp: library_flags_def split: if_splits)

text \<open>Setting a flag of a library leaves the options of the program alone.\<close>

lemma Flags_Set_library:
  assumes "map_of flags name = None" and "Flags_Set (flags @ library_flags lib) name value options = Inr options'"
  shows "options' = options"
  using assms map_of_library_flags by (fastforce simp: Flags_Set_def map_add_def split: option.splits)

text \<open>
  A command line of assignments \<open>--name=value\<close> is read back: each one sets its flag, in order.
\<close>

definition flag_arg :: "string \<times> string \<Rightarrow> string" where
  "flag_arg nv = ''--'' @ fst nv @ ''='' @ snd nv"

definition flag_name :: "string \<Rightarrow> bool" where
  "flag_name name \<longleftrightarrow> name \<noteq> [] \<and> hd name \<noteq> CHR ''-'' \<and> CHR ''='' \<notin> set name"

lemma Flags_Parse_assign:
  assumes "flag_name name"
  shows "Flags_Parse flags (flag_arg (name, value) # args) options =
    (case Flags_Set flags name value options of
       Inl err \<Rightarrow> Fatal (case map_of flags name of
           None \<Rightarrow> if name = ''help'' \<or> name = ''h'' then ''flag: help requested'' else ''flag provided but not defined: -%s''
         | Some f \<Rightarrow> if fl_bool f then ''invalid boolean value %q for -%s: %v'' else ''invalid value %q for flag -%s: %v'')
     | Inr options' \<Rightarrow> Flags_Parse flags args options')"
proof -
  obtain c cs where name: "name = c # cs" "c \<noteq> CHR ''-''" "c \<noteq> CHR ''=''" "CHR ''='' \<notin> set cs"
    using assms by (cases name) (auto simp: flag_name_def)
  have tw: "takeWhile (\<lambda>x. x \<noteq> CHR ''='') (cs @ CHR ''='' # value) = cs" "dropWhile (\<lambda>x. x \<noteq> CHR ''='') (cs @ CHR ''='' # value) = CHR ''='' # value"
    using name(4) by (induction cs) auto
  show ?thesis
  proof (cases "map_of flags name")
    case None
    then show ?thesis using name tw by (simp add: flag_arg_def Flags_Parse.simps(2) Flags_Set_def flag_exit_def Let_def)
  next
    case (Some f)
    then show ?thesis using name tw
      by (cases "fl_Set f value options") (simp_all add: flag_arg_def Flags_Parse.simps(2) Flags_Set_def flag_exit_def Let_def)
  qed
qed

fun Flags_Set_all :: "(string \<times> 'o flag) list \<Rightarrow> (string \<times> string) list \<Rightarrow> 'o \<Rightarrow> gerr + 'o" where
  "Flags_Set_all flags [] options = Inr options"
| "Flags_Set_all flags ((name, value) # nvs) options =
     (case Flags_Set flags name value options of
        Inl err \<Rightarrow> Inl err
      | Inr options' \<Rightarrow> Flags_Set_all flags nvs options')"

lemma Flags_Parse_assigns:
  assumes "\<forall>(name, value) \<in> set nvs. flag_name name" and "Flags_Set_all flags nvs options = Inr options'"
  shows "Flags_Parse flags (map flag_arg nvs) options = Ret options'"
  using assms
proof (induction nvs arbitrary: options)
  case (Cons nv nvs)
  then show ?case by (cases nv) (auto simp: Flags_Parse_assign split: sum.splits)
qed simp

end
