(* ===== verification/Agent_Options.thy ===== *)
theory Agent_Options
  imports Cni Go_Flags
begin

text \<open>
  The options of the agent (\<^verbatim>\<open>src/cmd/networking-agent/options.go\<close>): defaults, the configuration file
  and the command line, read with \<open>Go_Flags\<close>.

  Outside code: the file system, the decoding of YAML into the options (\<open>Unmarshal\<close>), the flags that
  \<^verbatim>\<open>klog.InitFlags\<close> adds to the set, and the reading of a duration.  A klog flag is its name, whether
  it is boolean, and the values it accepts; it does not touch the options.
\<close>

section \<open>Options\<close>

record IPSECOptions =
  ipsec_Authentication :: string
  ipsec_Encryption :: string
  ipsec_Encapsulation :: string

record Options =
  opt_Provider :: string
  opt_TargetLinkName :: string
  opt_ResyncPeriod :: int
  opt_NodeName :: string
  opt_MachineIDPath :: string
  opt_SystemUUIDPath :: string
  opt_BootIDPath :: string
  opt_IPSEC :: IPSECOptions
  opt_LogLevel :: "int option"
  opt_PodCIDR :: string
  opt_CNIConfigPath :: string

definition zero_Options :: Options where
  "zero_Options =
     \<lparr>opt_Provider = '''', opt_TargetLinkName = '''', opt_ResyncPeriod = 0, opt_NodeName = '''', opt_MachineIDPath = '''',
      opt_SystemUUIDPath = '''', opt_BootIDPath = '''',
      opt_IPSEC = \<lparr>ipsec_Authentication = '''', ipsec_Encryption = '''', ipsec_Encapsulation = ''''\<rparr>,
      opt_LogLevel = None, opt_PodCIDR = '''', opt_CNIConfigPath = ''''\<rparr>"

text \<open>Durations are nanoseconds.\<close>

definition InitDefaults :: "Options \<Rightarrow> Options" where
  "InitDefaults o1 =
     o1\<lparr>opt_LogLevel := Some 1, opt_ResyncPeriod := 30 * 1000000000, opt_TargetLinkName := '''',
       opt_Provider := ''vxlan'', opt_PodCIDR := ''100.96.0.0/12'',
       opt_SystemUUIDPath := ''/sys/class/dmi/id/product_uuid'',
       opt_IPSEC := (opt_IPSEC o1)\<lparr>ipsec_Authentication := ''sha1'', ipsec_Encapsulation := ''udp'', ipsec_Encryption := ''aes''\<rparr>\<rparr>"

definition LoadFrom ::
  "'w files \<Rightarrow> (string \<Rightarrow> Options \<Rightarrow> gerr + Options) \<Rightarrow> string \<Rightarrow> Options \<Rightarrow> ('w, Options) io" where
  "LoadFrom fs Unmarshal p options =
     tryM (callM (fs_ReadFile fs p))
       (\<lambda>err. if IsNotExist err then throwM err else throwM (Errorf ''error reading file %q: %v'' (Some err)))
       (\<lambda>data.
          case Unmarshal data options of
            Inl err \<Rightarrow> throwM (Errorf ''error parsing file %q: %v'' (Some err))
          | Inr options' \<Rightarrow> retM options')"

section \<open>Flags\<close>

definition AddFlags :: "(string \<Rightarrow> gerr + int) \<Rightarrow> (string \<times> Options flag) list" where
  "AddFlags ParseDuration =
     [(''sync-period'', DurationVar ParseDuration (\<lambda>v options. options\<lparr>opt_ResyncPeriod := v\<rparr>)),
      (''pod-cidr'', StringVar (\<lambda>v options. options\<lparr>opt_PodCIDR := v\<rparr>)),
      (''node-name'', StringVar (\<lambda>v options. options\<lparr>opt_NodeName := v\<rparr>)),
      (''machine-id'', StringVar (\<lambda>v options. options\<lparr>opt_MachineIDPath := v\<rparr>)),
      (''system-uuid'', StringVar (\<lambda>v options. options\<lparr>opt_SystemUUIDPath := v\<rparr>)),
      (''boot-id'', StringVar (\<lambda>v options. options\<lparr>opt_BootIDPath := v\<rparr>)),
      (''provider'', StringVar (\<lambda>v options. options\<lparr>opt_Provider := v\<rparr>)),
      (''target'', StringVar (\<lambda>v options. options\<lparr>opt_TargetLinkName := v\<rparr>)),
      (''ipsec-encryption'', StringVar (\<lambda>v options. options\<lparr>opt_IPSEC := (opt_IPSEC options)\<lparr>ipsec_Encryption := v\<rparr>\<rparr>)),
      (''ipsec-authentication'', StringVar (\<lambda>v options. options\<lparr>opt_IPSEC := (opt_IPSEC options)\<lparr>ipsec_Authentication := v\<rparr>\<rparr>)),
      (''ipsec-encapsulation'', StringVar (\<lambda>v options. options\<lparr>opt_IPSEC := (opt_IPSEC options)\<lparr>ipsec_Encapsulation := v\<rparr>\<rparr>)),
      (''cni-config'', StringVar (\<lambda>v options. options\<lparr>opt_CNIConfigPath := v\<rparr>))]"

definition Itoa :: "int \<Rightarrow> string" where
  "Itoa v = (if v < 0 then CHR ''-'' # itoa (nat (- v)) else itoa (nat v))"

text \<open>
  The head of \<^verbatim>\<open>run\<close> in \<^verbatim>\<open>src/cmd/networking-agent/main.go\<close>: defaults, the configuration file, the flags,
  of which the arguments are \<^verbatim>\<open>os.Args\<close>.  The error of setting the verbosity is dropped, as in the code.
\<close>

definition agent_options ::
  "'w files \<Rightarrow> (string \<Rightarrow> Options \<Rightarrow> gerr + Options) \<Rightarrow> (string \<Rightarrow> gerr + int) \<Rightarrow> library_flag list \<Rightarrow> string list \<Rightarrow> ('w, Options) io" where
  "agent_options fs Unmarshal ParseDuration klogFlags osArgs =
     (let options = InitDefaults zero_Options in
      bindM (tryM (LoadFrom fs Unmarshal ''/config/config.yaml'' options)
               (\<lambda>err. if IsNotExist err then retM options else throwM (Errorf ''error reading config file: %v'' (Some err)))
               retM)
        (\<lambda>options w.
           let flags = AddFlags ParseDuration @ library_flags klogFlags;
               options' = (case opt_LogLevel options of
                  None \<Rightarrow> options
                | Some v \<Rightarrow> (case Flags_Set flags ''v'' (Itoa v) options of Inl err \<Rightarrow> options | Inr options' \<Rightarrow> options'))
           in (Flags_Parse flags osArgs options', w)))"

section \<open>Properties\<close>

lemma verbosity_keeps_options:
  "(case Flags_Set (AddFlags ParseDuration @ library_flags klogFlags) ''v'' value options of Inl err \<Rightarrow> options | Inr options' \<Rightarrow> options') =
   options"
proof -
  have "map_of (AddFlags ParseDuration) ''v'' = None" by (simp add: AddFlags_def)
  from Flags_Set_library [OF this] show ?thesis by (auto split: sum.splits)
qed

lemma agent_options_args:
  "prog = [] \<or> hd prog \<noteq> CHR ''-'' \<Longrightarrow>
   agent_options fs Unmarshal ParseDuration klogFlags (prog # args) =
   agent_options fs Unmarshal ParseDuration klogFlags []"
  by (simp add: agent_options_def Flags_Parse_first Let_def)

text \<open>C34: No flag on the command line has an effect: \<^verbatim>\<open>os.Args\<close> starts with the name of the program, at
  which the parser stops, so the options are the defaults changed by the configuration file alone,
  whatever arguments follow; without a configuration file they are the defaults.\<close>

theorem agent_ignores_flags:
  assumes "prog = [] \<or> hd prog \<noteq> CHR ''-''"
  shows "agent_options fs Unmarshal ParseDuration klogFlags (prog # args) w =
      agent_options fs Unmarshal ParseDuration klogFlags [] w \<and>
    (\<forall>e w'. fs_ReadFile fs ''/config/config.yaml'' w = (Inl e, w') \<and> IsNotExist e \<longrightarrow>
       agent_options fs Unmarshal ParseDuration klogFlags (prog # args) w = (Ret (InitDefaults zero_Options), w'))"
proof -
  have "agent_options fs Unmarshal ParseDuration klogFlags [] w = (Ret (InitDefaults zero_Options), w')"
    if "fs_ReadFile fs ''/config/config.yaml'' w = (Inl e, w')" "IsNotExist e" for e w'
    using that by (simp add: agent_options_def LoadFrom_def Let_def bindM_def tryM_def callM_def verbosity_keeps_options split: option.splits)
  then show ?thesis by (simp add: agent_options_args [OF assms])
qed

theorem agent_ignores_flags_witness:
  "Flags_Parse (AddFlags (\<lambda>s. Inr 0)) [''--provider=gre''] (InitDefaults zero_Options) =
     Ret ((InitDefaults zero_Options)\<lparr>opt_Provider := ''gre''\<rparr>) \<and>
   agent_options map_files (\<lambda>data options. Inr options) (\<lambda>s. Inr 0) [] [''/networking-agent'', ''--provider=gre''] Map.empty =
     (Ret (InitDefaults zero_Options), Map.empty)"
proof -
  have "fs_ReadFile map_files ''/config/config.yaml'' Map.empty = (Inl (NotExistErr ''/config/config.yaml''), Map.empty)"
    by (simp add: map_files_def)
  moreover have "Flags_Parse (AddFlags (\<lambda>s. Inr 0)) [''--provider=gre''] (InitDefaults zero_Options) =
      Ret ((InitDefaults zero_Options)\<lparr>opt_Provider := ''gre''\<rparr>)"
    by (simp add: AddFlags_def StringVar_def Flags_Parse.simps)
  ultimately show ?thesis
    using agent_ignores_flags [of "''/networking-agent''" map_files "\<lambda>data options. Inr options" "\<lambda>s. Inr 0" "[]" "[''--provider=gre'']" Map.empty]
    by (auto simp: IsNotExist_def)
qed

end
