(* ===== verification/Nodes.thy ===== *)
theory Nodes
  imports Go_Net "HOL-Library.List_Lexorder" "HOL-Library.Char_ord"
begin

text \<open>
  The node map (\<^verbatim>\<open>src/pkg/routing/nodes.go\<close>): what the agent knows of the cluster's nodes.

  \<^verbatim>\<open>NodeMap.nodes\<close> maps names to pointers, and \<^verbatim>\<open>NodeMap.me\<close> is one more pointer to the
  same kind of object, which the methods follow after the map may have dropped it.  The
  model therefore has an explicit store: a pointer is an index of \<open>nm_heap\<close>.  The mutex
  makes every exported method one atomic step; the step relation \<open>nodeMap_step\<close> runs them
  in any order.

  The contract is \<open>nodeView\<close>, what a \<^verbatim>\<open>corev1.Node\<close> says about a node, and \<open>lookupNode\<close>,
  the map from names to what is stored.  \<open>NodeInfo_update\<close> and the methods of the map are
  shown to refine it, and the version number to change exactly when something stored does.
\<close>

section \<open>Node objects of the Kubernetes API\<close>

text \<open>The fields of \<^verbatim>\<open>corev1.Node\<close> that the program reads.\<close>

record k8s_node =
  node_Name :: string
  node_PodCIDR :: string
  node_Addresses :: "(string \<times> string) list"
  node_Conditions :: "(string \<times> string) list"
  node_MachineID :: string
  node_SystemUUID :: string
  node_BootID :: string

type_synonym NodePredicate = "k8s_node \<Rightarrow> bool"

section \<open>NodeInfo\<close>

record NodeInfo =
  ni_Name :: string
  ni_Address :: ip
  ni_PodCIDR :: "ipnet option"
  ni_NetworkAvailable :: bool

definition zero_NodeInfo :: NodeInfo where
  "zero_NodeInfo = \<lparr>ni_Name = '''', ni_Address = None, ni_PodCIDR = None, ni_NetworkAvailable = False\<rparr>"

definition update_PodCIDR :: "k8s_node \<Rightarrow> NodeInfo \<Rightarrow> bool \<times> NodeInfo" where
  "update_PodCIDR src n =
     (let clear = (if ni_PodCIDR n \<noteq> None then (True, n\<lparr>ni_PodCIDR := None\<rparr>) else (False, n)) in
      if node_PodCIDR src = '''' then clear
      else case ParseCIDR (node_PodCIDR src) of
        None \<Rightarrow> clear
      | Some (_, ipnet) \<Rightarrow>
          (case ni_PodCIDR n of
             None \<Rightarrow> (True, n\<lparr>ni_PodCIDR := Some ipnet\<rparr>)
           | Some old \<Rightarrow>
               if \<not> IP_Equal (ipn_IP ipnet) (ipn_IP old) \<or> ipn_Mask old \<noteq> ipn_Mask ipnet
               then (True, n\<lparr>ni_PodCIDR := Some ipnet\<rparr>)
               else (False, n)))"

definition internalIPs :: "k8s_node \<Rightarrow> string list" where
  "internalIPs src =
     map snd (filter (\<lambda>(ty, address). ty = ''InternalIP'') (node_Addresses src))"

definition update_Address :: "k8s_node \<Rightarrow> NodeInfo \<Rightarrow> bool \<times> NodeInfo" where
  "update_Address src n =
     (let clear = (if ni_Address n \<noteq> None then (True, n\<lparr>ni_Address := None\<rparr>) else (False, n));
          ips = internalIPs src;
          ips' = (if length ips \<noteq> 1 then sort ips else ips) in
      case ips' of
        [] \<Rightarrow> clear
      | internalIP # _ \<Rightarrow>
          (case ParseIP internalIP of
             None \<Rightarrow> clear
           | Some a \<Rightarrow>
               if \<not> IP_Equal (ni_Address n) (Some a)
               then (True, n\<lparr>ni_Address := Some a\<rparr>) else (False, n)))"

definition conditions_available :: "(string \<times> string) list \<Rightarrow> bool" where
  "conditions_available conditions =
     fold (\<lambda>(ty, status) networkAvailable.
             if ty = ''NetworkUnavailable'' then
               (if status = ''False'' then True
                else if status = ''True'' then False
                else networkAvailable)
             else networkAvailable)
       conditions True"

definition update_NetworkAvailable :: "k8s_node \<Rightarrow> NodeInfo \<Rightarrow> bool \<times> NodeInfo" where
  "update_NetworkAvailable src n =
     (let networkAvailable = conditions_available (node_Conditions src) in
      if networkAvailable \<noteq> ni_NetworkAvailable n
      then (True, n\<lparr>ni_NetworkAvailable := networkAvailable\<rparr>) else (False, n))"

definition NodeInfo_update :: "NodeInfo \<Rightarrow> k8s_node \<Rightarrow> bool \<times> NodeInfo" where
  "NodeInfo_update n src =
     (let (c1, n1) = update_PodCIDR src n;
          (c2, n2) = update_Address src n1;
          (c3, n3) = update_NetworkAvailable src n2
      in (c1 \<or> c2 \<or> c3, n3))"

section \<open>NodeMap\<close>

record NodeMap =
  nm_mePredicate :: NodePredicate
  nm_ready :: bool
  nm_nodes :: "(string, nat) gomap"
  nm_version :: "64 word"
  nm_me :: "nat option"
  nm_heap :: "NodeInfo list"

definition NewNodeMap :: "NodePredicate \<Rightarrow> NodeMap" where
  "NewNodeMap mePredicate =
     \<lparr>nm_mePredicate = mePredicate, nm_ready = False, nm_nodes = [], nm_version = 0,
      nm_me = None, nm_heap = []\<rparr>"

definition IsVersion :: "NodeMap \<Rightarrow> 64 word \<Rightarrow> bool" where
  "IsVersion m version \<longleftrightarrow> nm_version m = version"

definition IsReady :: "NodeMap \<Rightarrow> bool" where
  "IsReady m \<longleftrightarrow> nm_ready m"

definition me_of :: "NodeMap \<Rightarrow> NodeInfo option" where
  "me_of m = map_option (\<lambda>l. nm_heap m ! l) (nm_me m)"

definition Snapshot :: "(string \<times> nat) order \<Rightarrow> NodeMap \<Rightarrow> NodeInfo option \<times> NodeInfo list \<times> 64 word" where
  "Snapshot ord m =
     (if \<not> nm_ready m then (None, [], 0)
      else (Some (case me_of m of None \<Rightarrow> zero_NodeInfo | Some me \<Rightarrow> me),
            map (\<lambda>(name, l). nm_heap m ! l) (ord (nm_nodes m)),
            nm_version m))"

definition MarkReady :: "NodeMap \<Rightarrow> NodeMap" where
  "MarkReady m = m\<lparr>nm_ready := True\<rparr>"

definition removeNode :: "string \<Rightarrow> NodeMap \<Rightarrow> NodeMap" where
  "removeNode nodeName m =
     m\<lparr>nm_nodes := AList.delete nodeName (nm_nodes m), nm_version := nm_version m + 1\<rparr>"

definition RemoveNode :: "k8s_node \<Rightarrow> NodeMap \<Rightarrow> NodeMap" where
  "RemoveNode node m = removeNode (node_Name node) m"

definition updateNode :: "k8s_node \<Rightarrow> NodeMap \<Rightarrow> bool \<times> NodeMap" where
  "updateNode src m =
     (let name = node_Name src;
          (c1, l, m1) =
            (case map_of (nm_nodes m) name of
               None \<Rightarrow>
                 (True, length (nm_heap m),
                  m\<lparr>nm_nodes := AList.update name (length (nm_heap m)) (nm_nodes m),
                    nm_heap := nm_heap m @ [zero_NodeInfo\<lparr>ni_Name := name\<rparr>]\<rparr>)
             | Some l \<Rightarrow> (False, l, m));
          (c2, info) = NodeInfo_update (nm_heap m1 ! l) src;
          m2 = m1\<lparr>nm_heap := (nm_heap m1)[l := info]\<rparr>;
          (c3, m3) = (if nm_me m2 = None \<and> nm_mePredicate m2 src
                      then (True, m2\<lparr>nm_me := Some l\<rparr>) else (False, m2));
          changed = (c1 \<or> c2 \<or> c3)
      in (changed, if changed then m3\<lparr>nm_version := nm_version m3 + 1\<rparr> else m3))"

definition UpdateNode :: "k8s_node \<Rightarrow> NodeMap \<Rightarrow> bool \<times> NodeMap" where
  "UpdateNode src m = updateNode src m"

fun updateNodes :: "k8s_node list \<Rightarrow> NodeMap \<Rightarrow> bool \<times> NodeMap" where
  "updateNodes [] m = (False, m)"
| "updateNodes (node # nodes) m =
     (let (c1, m1) = updateNode node m; (c2, m2) = updateNodes nodes m1 in (c1 \<or> c2, m2))"

fun removeUnlisted :: "string set \<Rightarrow> string list \<Rightarrow> NodeMap \<Rightarrow> bool \<times> NodeMap" where
  "removeUnlisted names [] m = (False, m)"
| "removeUnlisted names (k # ks) m =
     (if k \<notin> names
      then (let (c, m') = removeUnlisted names ks (removeNode k m) in (True, m'))
      else removeUnlisted names ks m)"

definition ReplaceAllNodes :: "(string \<times> nat) order \<Rightarrow> k8s_node list \<Rightarrow> NodeMap \<Rightarrow> bool \<times> NodeMap" where
  "ReplaceAllNodes ord nodes m =
     (let names = node_Name ` set nodes;
          (c1, m1) = updateNodes nodes m;
          (c2, m2) = removeUnlisted names (map fst (ord (nm_nodes m1))) m1
      in (c1 \<or> c2, m2))"

section \<open>The contract\<close>

text \<open>What a node object says: the abstract counterpart of \<^verbatim>\<open>NodeInfo.update\<close>.\<close>

definition viewPodCIDR :: "k8s_node \<Rightarrow> ipnet option" where
  "viewPodCIDR src =
     (if node_PodCIDR src = '''' then None else map_option snd (ParseCIDR (node_PodCIDR src)))"

definition viewAddress :: "k8s_node \<Rightarrow> ip" where
  "viewAddress src =
     (if internalIPs src = [] then None else ParseIP (Min (set (internalIPs src))))"

definition viewAvailable :: "k8s_node \<Rightarrow> bool" where
  "viewAvailable src =
     (let reports = filter (\<lambda>(ty, status). ty = ''NetworkUnavailable'' \<and> status \<in> {''True'', ''False''})
                      (node_Conditions src)
      in reports = [] \<or> snd (last reports) = ''False'')"

definition nodeView :: "k8s_node \<Rightarrow> NodeInfo" where
  "nodeView src =
     \<lparr>ni_Name = node_Name src, ni_Address = viewAddress src, ni_PodCIDR = viewPodCIDR src,
      ni_NetworkAvailable = viewAvailable src\<rparr>"

definition lookupNode :: "NodeMap \<Rightarrow> string \<Rightarrow> NodeInfo option" where
  "lookupNode m name = map_option (\<lambda>l. nm_heap m ! l) (map_of (nm_nodes m) name)"

definition wf_NodeInfo :: "NodeInfo \<Rightarrow> bool" where
  "wf_NodeInfo n \<longleftrightarrow>
     (\<forall>a. ni_Address n = Some a \<longrightarrow> length a = 16) \<and>
     (\<forall>c. ni_PodCIDR n = Some c \<longrightarrow> wf_ipnet c)"

definition wf_NodeMap :: "NodeMap \<Rightarrow> bool" where
  "wf_NodeMap m \<longleftrightarrow>
     distinct_keys (nm_nodes m) \<and>
     distinct (map snd (nm_nodes m)) \<and>
     (\<forall>(name, l) \<in> set (nm_nodes m). l < length (nm_heap m) \<and> ni_Name (nm_heap m ! l) = name) \<and>
     (\<forall>n \<in> set (nm_heap m). wf_NodeInfo n) \<and>
     (\<forall>l. nm_me m = Some l \<longrightarrow> l < length (nm_heap m))"

text \<open>The exported methods, run in any order by the goroutines that share the map.\<close>

inductive nodeMap_step :: "NodeMap \<Rightarrow> NodeMap \<Rightarrow> bool" where
  Update: "nodeMap_step m (snd (UpdateNode src m))"
| Remove: "nodeMap_step m (RemoveNode src m)"
| Replace: "range_order ord \<Longrightarrow> nodeMap_step m (snd (ReplaceAllNodes ord srcs m))"
| Ready: "nodeMap_step m (MarkReady m)"

inductive_cases nodeMap_stepE: "nodeMap_step m m'"

inductive nodeMap_reachable :: "NodePredicate \<Rightarrow> NodeMap \<Rightarrow> bool" for p where
  New: "nodeMap_reachable p (NewNodeMap p)"
| Step: "nodeMap_reachable p m \<Longrightarrow> nodeMap_step m m' \<Longrightarrow> nodeMap_reachable p m'"

text \<open>
  A run of the methods from one map to another, with the number of entries they may have changed:
  a bound on how often the version was raised.
\<close>

inductive nodeMap_run :: "nat \<Rightarrow> NodeMap \<Rightarrow> NodeMap \<Rightarrow> bool" where
  RunStart: "nodeMap_run 0 m m"
| RunUpdate: "nodeMap_run n m m' \<Longrightarrow> nodeMap_run (n + 1) m (snd (UpdateNode src m'))"
| RunRemove: "nodeMap_run n m m' \<Longrightarrow> nodeMap_run (n + 1) m (RemoveNode src m')"
| RunReplace: "nodeMap_run n m m' \<Longrightarrow> range_order ord \<Longrightarrow>
    nodeMap_run (n + (length srcs + length (nm_nodes (snd (updateNodes srcs m'))))) m (snd (ReplaceAllNodes ord srcs m'))"
| RunReady: "nodeMap_run n m m' \<Longrightarrow> nodeMap_run n m (MarkReady m')"
| RunBound: "nodeMap_run n m m' \<Longrightarrow> nodeMap_run (n + k) m m'"

section \<open>NodeInfo.update refines the contract\<close>

lemma sort_hd_Min: "sort xs = y # ys \<Longrightarrow> y = Min (set xs)"
proof -
  assume eq: "sort xs = y # ys"
  then have "sorted (y # ys)" by (metis sorted_sort)
  moreover have "set xs = set (y # ys)" by (metis eq set_sort)
  ultimately show "y = Min (set xs)"
    by (auto intro!: Min_eqI [symmetric])
qed

lemma chosen_address:
  "(case (if length ips \<noteq> 1 then sort ips else ips) of [] \<Rightarrow> None | a # _ \<Rightarrow> ParseIP a) =
   (if ips = [] then None else ParseIP (Min (set ips)))"
proof (cases "length ips = 1")
  case True
  then obtain a where "ips = [a]" by (cases ips) auto
  then show ?thesis by simp
next
  case False
  then show ?thesis
    by (cases "sort ips") (auto dest: sort_hd_Min arg_cong [where f = length])
qed

lemma conditions_available_aux:
  "fold (\<lambda>(ty, status) av.
           if ty = ''NetworkUnavailable'' then
             (if status = ''False'' then True else if status = ''True'' then False else av)
           else av) cs av =
   (let r = filter (\<lambda>(ty, status). ty = ''NetworkUnavailable'' \<and> status \<in> {''True'', ''False''}) cs
    in if r = [] then av else snd (last r) = ''False'')"
  by (induction cs arbitrary: av) (auto simp: Let_def)

lemma conditions_available_view: "conditions_available (node_Conditions src) = viewAvailable src"
  by (auto simp: conditions_available_def viewAvailable_def conditions_available_aux Let_def)

lemma update_PodCIDR_eq:
  assumes "wf_NodeInfo n"
  shows "update_PodCIDR src n = (ni_PodCIDR n \<noteq> viewPodCIDR src, n\<lparr>ni_PodCIDR := viewPodCIDR src\<rparr>)"
proof (cases "node_PodCIDR src = '''' \<or> ParseCIDR (node_PodCIDR src) = None")
  case True
  then show ?thesis by (auto simp: update_PodCIDR_def viewPodCIDR_def Let_def)
next
  case False
  then obtain a ipnet where p: "ParseCIDR (node_PodCIDR src) = Some (a, ipnet)" by auto
  then have "wf_ipnet ipnet" by (rule ParseCIDR_wf)
  then have "old = ipnet" if "ni_PodCIDR n = Some old" "IP_Equal (ipn_IP ipnet) (ipn_IP old)"
    "ipn_Mask old = ipn_Mask ipnet" for old
    using that assms wf_ipnet_Equal [of old ipnet] IP_Equal_sym by (auto simp: wf_NodeInfo_def)
  with False p show ?thesis
    by (auto simp: update_PodCIDR_def viewPodCIDR_def Let_def split: option.split)
qed

lemma update_Address_eq:
  assumes "wf_NodeInfo n"
  shows "update_Address src n = (ni_Address n \<noteq> viewAddress src, n\<lparr>ni_Address := viewAddress src\<rparr>)"
proof -
  let ?ips = "if length (internalIPs src) \<noteq> 1 then sort (internalIPs src) else internalIPs src"
  have v: "viewAddress src = (case ?ips of [] \<Rightarrow> None | a # _ \<Rightarrow> ParseIP a)"
    using chosen_address [of "internalIPs src"] by (simp add: viewAddress_def)
  have eq: "ni_Address n = Some a" if "IP_Equal (ni_Address n) (Some a)" "ParseIP s = Some a" for a s
  proof -
    have "length a = 16" using that(2) by (rule ParseIP_length)
    moreover have "ni_Address n \<noteq> None" using that(1) \<open>length a = 16\<close>
      by (cases "ni_Address n") (simp_all add: IP_Equal_def)
    ultimately show ?thesis using that(1) assms
      by (auto simp: wf_NodeInfo_def IP_Equal_same_length)
  qed
  have nil: "\<not> IP_Equal None (Some a)" if "ParseIP s = Some a" for a s
    using ParseIP_length [OF that] by (simp add: IP_Equal_def)
  show ?thesis
    unfolding update_Address_def v Let_def
    by (auto split: list.split option.split dest: eq nil)
qed

lemma update_NetworkAvailable_eq:
  "update_NetworkAvailable src n =
     (ni_NetworkAvailable n \<noteq> viewAvailable src, n\<lparr>ni_NetworkAvailable := viewAvailable src\<rparr>)"
  by (auto simp: update_NetworkAvailable_def conditions_available_view Let_def)

lemma wf_NodeInfo_update_fields:
  "wf_NodeInfo n \<Longrightarrow> wf_NodeInfo (n\<lparr>ni_PodCIDR := viewPodCIDR src\<rparr>)"
  by (auto simp: wf_NodeInfo_def viewPodCIDR_def dest: ParseCIDR_wf)

lemma wf_nodeView: "wf_NodeInfo (nodeView src)"
  by (auto simp: wf_NodeInfo_def nodeView_def viewPodCIDR_def viewAddress_def
      dest: ParseCIDR_wf ParseIP_length)

lemma ni_Name_nodeView [simp]: "ni_Name (nodeView src) = node_Name src"
  by (simp add: nodeView_def)

lemma wf_zero_NodeInfo: "wf_NodeInfo (zero_NodeInfo\<lparr>ni_Name := name\<rparr>)"
  by (simp add: wf_NodeInfo_def zero_NodeInfo_def)

lemma NodeInfo_update_eq:
  assumes "wf_NodeInfo n" and "ni_Name n = node_Name src"
  shows "NodeInfo_update n src = (n \<noteq> nodeView src, nodeView src)"
proof -
  have "wf_NodeInfo (n\<lparr>ni_PodCIDR := viewPodCIDR src\<rparr>)"
    using assms(1) by (rule wf_NodeInfo_update_fields)
  then have "NodeInfo_update n src =
    (ni_PodCIDR n \<noteq> viewPodCIDR src \<or> ni_Address n \<noteq> viewAddress src \<or>
       ni_NetworkAvailable n \<noteq> viewAvailable src,
     n\<lparr>ni_PodCIDR := viewPodCIDR src, ni_Address := viewAddress src,
       ni_NetworkAvailable := viewAvailable src\<rparr>)"
    by (auto simp: NodeInfo_update_def update_PodCIDR_eq [OF assms(1)] update_Address_eq
        update_NetworkAvailable_eq)
  then show ?thesis using assms(2) by (cases n) (auto simp: nodeView_def)
qed

section \<open>The methods of the map refine the contract\<close>

lemma wf_NodeMap_loc:
  assumes "wf_NodeMap m" and "map_of (nm_nodes m) name = Some l"
  shows "l < length (nm_heap m)" and "ni_Name (nm_heap m ! l) = name" and "wf_NodeInfo (nm_heap m ! l)"
  using assms by (auto simp: wf_NodeMap_def dest!: map_of_SomeD)

lemma wf_NodeMap_inj:
  assumes "wf_NodeMap m" and "map_of (nm_nodes m) a = Some l" and "map_of (nm_nodes m) b = Some l"
  shows "a = b"
proof -
  have "(a, l) \<in> set (nm_nodes m)" and "(b, l) \<in> set (nm_nodes m)"
    using assms by (auto dest: map_of_SomeD)
  moreover have "distinct (map snd (nm_nodes m))" using assms by (simp add: wf_NodeMap_def)
  ultimately show ?thesis by (metis eq_snd_iff inj_onD distinct_map fst_conv)
qed

definition newly_me :: "k8s_node \<Rightarrow> NodeMap \<Rightarrow> bool" where
  "newly_me src m \<longleftrightarrow> nm_me m = None \<and> nm_mePredicate m src"

lemma updateNode_known:
  assumes wf: "wf_NodeMap m" and l: "map_of (nm_nodes m) (node_Name src) = Some l"
  shows "updateNode src m =
    (let changed = (nm_heap m ! l \<noteq> nodeView src \<or> newly_me src m) in
     (changed,
      m\<lparr>nm_heap := (nm_heap m)[l := nodeView src],
        nm_me := (if newly_me src m then Some l else nm_me m),
        nm_version := nm_version m + (if changed then 1 else 0)\<rparr>))"
  using NodeInfo_update_eq [of "nm_heap m ! l" src] wf_NodeMap_loc [OF wf l]
  by (auto simp: updateNode_def l newly_me_def Let_def)

lemma updateNode_fresh:
  assumes "map_of (nm_nodes m) (node_Name src) = None"
  shows "updateNode src m =
    (True,
      m\<lparr>nm_nodes := AList.update (node_Name src) (length (nm_heap m)) (nm_nodes m),
        nm_heap := nm_heap m @ [nodeView src],
        nm_me := (if newly_me src m then Some (length (nm_heap m)) else nm_me m),
        nm_version := nm_version m + 1\<rparr>)"
  using NodeInfo_update_eq [OF wf_zero_NodeInfo, of "node_Name src" src]
  by (auto simp: updateNode_def assms newly_me_def Let_def)

lemma wf_NodeMap_NewNodeMap: "wf_NodeMap (NewNodeMap p)"
  by (simp add: wf_NodeMap_def NewNodeMap_def)

lemma wf_NodeMap_MarkReady: "wf_NodeMap m \<Longrightarrow> wf_NodeMap (MarkReady m)"
  by (simp add: wf_NodeMap_def MarkReady_def)

lemma wf_NodeMap_removeNode:
  assumes "wf_NodeMap m"
  shows "wf_NodeMap (removeNode k m)"
proof -
  have "set (AList.delete k (nm_nodes m)) \<subseteq> set (nm_nodes m)"
    by (auto simp: AList.delete_eq)
  moreover have "distinct (map snd (AList.delete k (nm_nodes m)))"
    using assms by (auto simp: wf_NodeMap_def AList.delete_eq intro: distinct_map_filter)
  ultimately show ?thesis
    using assms by (auto simp: wf_NodeMap_def removeNode_def)
qed

lemma set_update_notin:
  "map_of al k = None \<Longrightarrow> AList.update k v al = al @ [(k, v)]"
  by (induction al) auto

lemma wf_NodeMap_updateNode:
  assumes "wf_NodeMap m"
  shows "wf_NodeMap (snd (updateNode src m))"
proof (cases "map_of (nm_nodes m) (node_Name src)")
  case None
  then have "(node_Name src, l) \<notin> set (nm_nodes m)" for l
    by (metis map_of_eq_None_iff fst_conv image_eqI)
  with assms None show ?thesis
    by (auto simp: updateNode_fresh wf_NodeMap_def set_update_notin nth_append distinct_keys_def
        wf_nodeView map_of_eq_None_iff less_Suc_eq
        split: if_splits dest: bspec)
next
  case (Some l)
  note loc = wf_NodeMap_loc [OF assms Some]
  have "ni_Name ((nm_heap m)[l := nodeView src] ! l') = name"
    if "(name, l') \<in> set (nm_nodes m)" for name l'
    using that assms Some loc by (cases "l' = l") (auto simp: wf_NodeMap_def)
  moreover have "\<forall>n \<in> set ((nm_heap m)[l := nodeView src]). wf_NodeInfo n"
    using assms set_update_subset_insert [of "nm_heap m" l "nodeView src"] wf_nodeView
    by (auto simp: wf_NodeMap_def)
  ultimately show ?thesis
    using assms loc by (auto simp: updateNode_known [OF assms Some] Let_def wf_NodeMap_def)
qed

lemma lookupNode_updateNode:
  assumes "wf_NodeMap m"
  shows "lookupNode (snd (updateNode src m)) = (lookupNode m)(node_Name src \<mapsto> nodeView src)"
proof (cases "map_of (nm_nodes m) (node_Name src)")
  case None
  have "l < length (nm_heap m)" if "map_of (nm_nodes m) k = Some l" for k l
    using wf_NodeMap_loc [OF assms that] by simp
  with None show ?thesis
    by (auto simp: fun_eq_iff lookupNode_def updateNode_fresh update_conv' nth_append
        map_option_case split: option.split)
next
  case (Some l)
  have "(nm_heap m)[l := v] ! l' = nm_heap m ! l'"
    if "map_of (nm_nodes m) k = Some l'" and "k \<noteq> node_Name src" for k l' v
    using wf_NodeMap_inj [OF assms] that Some by (metis nth_list_update_neq)
  with Some wf_NodeMap_loc [OF assms Some] show ?thesis
    by (auto simp: fun_eq_iff lookupNode_def updateNode_known [OF assms Some] Let_def
        map_option_case split: option.split)
qed

lemma fst_updateNode:
  assumes "wf_NodeMap m"
  shows "fst (updateNode src m) \<longleftrightarrow>
    lookupNode m (node_Name src) \<noteq> Some (nodeView src) \<or> newly_me src m"
  by (cases "map_of (nm_nodes m) (node_Name src)")
    (simp_all add: updateNode_fresh updateNode_known [OF assms] lookupNode_def Let_def)

lemma updateNode_unchanged:
  assumes "wf_NodeMap m" and "\<not> fst (updateNode src m)"
  shows "snd (updateNode src m) = m"
proof (cases "map_of (nm_nodes m) (node_Name src)")
  case None
  with assms(2) show ?thesis by (simp add: updateNode_fresh)
next
  case (Some l)
  with assms(2) have "nodeView src = nm_heap m ! l" and "\<not> newly_me src m"
    by (auto simp: updateNode_known [OF assms(1) Some] Let_def)
  then show ?thesis by (simp add: updateNode_known [OF assms(1) Some] Let_def)
qed

lemma nm_version_updateNode:
  "wf_NodeMap m \<Longrightarrow>
   nm_version (snd (updateNode src m)) = nm_version m + of_bool (fst (updateNode src m))"
  by (cases "map_of (nm_nodes m) (node_Name src)")
    (simp_all add: updateNode_fresh updateNode_known Let_def)

lemma updateNode_fields [simp]:
  "nm_ready (snd (updateNode src m)) = nm_ready m"
  "nm_mePredicate (snd (updateNode src m)) = nm_mePredicate m"
  by (auto simp: updateNode_def Let_def split: option.splits prod.splits)

lemma removeNode_fields [simp]:
  "nm_ready (removeNode k m) = nm_ready m"
  "nm_mePredicate (removeNode k m) = nm_mePredicate m"
  "nm_me (removeNode k m) = nm_me m"
  "nm_heap (removeNode k m) = nm_heap m"
  "nm_version (removeNode k m) = nm_version m + 1"
  by (simp_all add: removeNode_def)

lemma lookupNode_removeNode: "lookupNode (removeNode k m) = (lookupNode m)(k := None)"
  by (auto simp: lookupNode_def removeNode_def delete_conv' fun_eq_iff)

lemma updateNodes_Cons:
  "updateNodes (src # srcs) m =
     (fst (updateNode src m) \<or> fst (updateNodes srcs (snd (updateNode src m))),
      snd (updateNodes srcs (snd (updateNode src m))))"
  by (simp add: Let_def split_beta)

declare updateNodes.simps(2) [simp del]

lemma wf_NodeMap_updateNodes: "wf_NodeMap m \<Longrightarrow> wf_NodeMap (snd (updateNodes srcs m))"
  by (induction srcs arbitrary: m) (simp_all add: updateNodes_Cons wf_NodeMap_updateNode)

definition lastNamed :: "string \<Rightarrow> k8s_node list \<Rightarrow> k8s_node option" where
  "lastNamed name srcs = find (\<lambda>src. node_Name src = name) (rev srcs)"

lemma find_snoc:
  "find P (xs @ [x]) = (case find P xs of None \<Rightarrow> if P x then Some x else None | Some y \<Rightarrow> Some y)"
  by (induction xs) auto

lemma lastNamed_Cons:
  "lastNamed name (src # srcs) =
     (case lastNamed name srcs of
        None \<Rightarrow> if node_Name src = name then Some src else None
      | Some s \<Rightarrow> Some s)"
  by (simp add: lastNamed_def find_snoc)

lemma lastNamed_None_iff: "lastNamed name srcs = None \<longleftrightarrow> name \<notin> node_Name ` set srcs"
  by (auto simp: lastNamed_def find_None_iff)

lemma lookupNode_updateNodes:
  "wf_NodeMap m \<Longrightarrow>
   lookupNode (snd (updateNodes srcs m)) name =
     (case lastNamed name srcs of None \<Rightarrow> lookupNode m name | Some src \<Rightarrow> Some (nodeView src))"
proof (induction srcs arbitrary: m)
  case Nil
  then show ?case by (simp add: lastNamed_def)
next
  case (Cons src srcs)
  then show ?case
    by (auto simp: updateNodes_Cons wf_NodeMap_updateNode lookupNode_updateNode lastNamed_Cons
        split: option.split)
qed

lemma updateNodes_unchanged:
  "wf_NodeMap m \<Longrightarrow> \<not> fst (updateNodes srcs m) \<Longrightarrow> snd (updateNodes srcs m) = m"
  by (induction srcs arbitrary: m)
    (auto simp: updateNodes_Cons updateNode_unchanged wf_NodeMap_updateNode)

lemma removeUnlisted_Cons:
  "removeUnlisted names (k # ks) m =
     (if k \<notin> names then (True, snd (removeUnlisted names ks (removeNode k m)))
      else removeUnlisted names ks m)"
  by (simp add: split_beta)

declare removeUnlisted.simps(2) [simp del]

lemma wf_NodeMap_removeUnlisted: "wf_NodeMap m \<Longrightarrow> wf_NodeMap (snd (removeUnlisted names ks m))"
  by (induction ks arbitrary: m) (simp_all add: removeUnlisted_Cons wf_NodeMap_removeNode)

lemma lookupNode_removeUnlisted:
  "lookupNode (snd (removeUnlisted names ks m)) name =
     (if name \<in> set ks \<and> name \<notin> names then None else lookupNode m name)"
  by (induction ks arbitrary: m) (auto simp: removeUnlisted_Cons lookupNode_removeNode)

lemma removeUnlisted_unchanged:
  "\<not> fst (removeUnlisted names ks m) \<Longrightarrow> snd (removeUnlisted names ks m) = m"
  by (induction ks arbitrary: m) (auto simp: removeUnlisted_Cons split: if_splits)

lemma ReplaceAllNodes_eq:
  "ReplaceAllNodes ord srcs m =
    (let m1 = snd (updateNodes srcs m);
         r = removeUnlisted (node_Name ` set srcs) (map fst (ord (nm_nodes m1))) m1
     in (fst (updateNodes srcs m) \<or> fst r, snd r))"
  by (simp add: ReplaceAllNodes_def Let_def split_beta)

lemma wf_NodeMap_ReplaceAllNodes: "wf_NodeMap m \<Longrightarrow> wf_NodeMap (snd (ReplaceAllNodes ord srcs m))"
  by (simp add: ReplaceAllNodes_eq Let_def wf_NodeMap_removeUnlisted wf_NodeMap_updateNodes)

lemma lookupNode_ReplaceAllNodes:
  assumes "wf_NodeMap m" and "range_order ord"
  shows "lookupNode (snd (ReplaceAllNodes ord srcs m)) name = map_option nodeView (lastNamed name srcs)"
proof (cases "lastNamed name srcs")
  case None
  let ?m1 = "snd (updateNodes srcs m)"
  have "name \<in> fst ` set (nm_nodes ?m1)" if "lookupNode ?m1 name \<noteq> None"
    using that by (auto simp: lookupNode_def map_of_eq_None_iff)
  moreover have "name \<notin> node_Name ` set srcs" using None by (simp add: lastNamed_None_iff)
  moreover have "set (map fst (ord (nm_nodes ?m1))) = fst ` set (nm_nodes ?m1)"
    by (simp add: range_order_set [OF assms(2)])
  ultimately show ?thesis
    using None by (auto simp: ReplaceAllNodes_eq Let_def lookupNode_removeUnlisted)
next
  case (Some src)
  then have "name \<in> node_Name ` set srcs" using lastNamed_None_iff by (metis option.distinct(1))
  with Some show ?thesis
    using assms by (simp add: ReplaceAllNodes_eq Let_def lookupNode_removeUnlisted lookupNode_updateNodes)
qed

lemma ReplaceAllNodes_unchanged:
  "wf_NodeMap m \<Longrightarrow> \<not> fst (ReplaceAllNodes ord srcs m) \<Longrightarrow> snd (ReplaceAllNodes ord srcs m) = m"
  by (auto simp: ReplaceAllNodes_eq Let_def updateNodes_unchanged removeUnlisted_unchanged)

section \<open>Versions\<close>

text \<open>How many times an operation adds one to the version.\<close>

lemma nm_version_updateNodes:
  "wf_NodeMap m \<Longrightarrow> \<exists>d \<le> length srcs.
     nm_version (snd (updateNodes srcs m)) = nm_version m + of_nat d \<and> (d = 0 \<longleftrightarrow> \<not> fst (updateNodes srcs m))"
proof (induction srcs arbitrary: m)
  case Nil
  then show ?case by simp
next
  case (Cons src srcs)
  let ?m1 = "snd (updateNode src m)"
  from Cons obtain d where d: "d \<le> length srcs"
    "nm_version (snd (updateNodes srcs ?m1)) = nm_version ?m1 + of_nat d"
    "d = 0 \<longleftrightarrow> \<not> fst (updateNodes srcs ?m1)"
    using wf_NodeMap_updateNode by blast
  then show ?case
    by (intro exI [of _ "d + of_bool (fst (updateNode src m))"])
      (auto simp: updateNodes_Cons nm_version_updateNode [OF Cons.prems])
qed

lemma nm_version_removeUnlisted:
  "\<exists>d \<le> length ks. nm_version (snd (removeUnlisted names ks m)) = nm_version m + of_nat d \<and>
     (d = 0 \<longleftrightarrow> \<not> fst (removeUnlisted names ks m))"
proof (induction ks arbitrary: m)
  case Nil
  then show ?case by simp
next
  case (Cons k ks)
  show ?case
  proof (cases "k \<in> names")
    case True
    from Cons [of m] obtain d where "d \<le> length ks"
      "nm_version (snd (removeUnlisted names ks m)) = nm_version m + of_nat d"
      "d = 0 \<longleftrightarrow> \<not> fst (removeUnlisted names ks m)"
      by blast
    then show ?thesis using True by (intro exI [of _ d]) (simp add: removeUnlisted_Cons)
  next
    case False
    from Cons [of "removeNode k m"] obtain d where "d \<le> length ks"
      "nm_version (snd (removeUnlisted names ks (removeNode k m))) = nm_version m + 1 + of_nat d"
      by auto
    then show ?thesis using False
      by (intro exI [of _ "Suc d"]) (simp add: removeUnlisted_Cons)
  qed
qed

lemma nm_version_ReplaceAllNodes:
  assumes "wf_NodeMap m" and "range_order ord"
  shows "\<exists>d. nm_version (snd (ReplaceAllNodes ord srcs m)) = nm_version m + of_nat d \<and>
     (d = 0 \<longleftrightarrow> \<not> fst (ReplaceAllNodes ord srcs m)) \<and>
     d \<le> length srcs + length (nm_nodes (snd (updateNodes srcs m)))"
proof -
  let ?m1 = "snd (updateNodes srcs m)" and ?names = "node_Name ` set srcs"
  let ?ks = "map fst (ord (nm_nodes ?m1))"
  obtain d1 where "d1 \<le> length srcs" "nm_version ?m1 = nm_version m + of_nat d1"
    "d1 = 0 \<longleftrightarrow> \<not> fst (updateNodes srcs m)"
    using nm_version_updateNodes [OF assms(1)] by blast
  moreover obtain d2 where "d2 \<le> length ?ks"
    "nm_version (snd (removeUnlisted ?names ?ks ?m1)) = nm_version ?m1 + of_nat d2"
    "d2 = 0 \<longleftrightarrow> \<not> fst (removeUnlisted ?names ?ks ?m1)"
    using nm_version_removeUnlisted by blast
  ultimately show ?thesis
    by (intro exI [of _ "d1 + d2"])
      (auto simp: ReplaceAllNodes_eq Let_def range_order_length [OF assms(2)])
qed

section \<open>Reachable maps\<close>

lemma wf_NodeMap_step: "nodeMap_step m m' \<Longrightarrow> wf_NodeMap m \<Longrightarrow> wf_NodeMap m'"
  by (erule nodeMap_stepE)
    (simp_all add: UpdateNode_def RemoveNode_def wf_NodeMap_updateNode wf_NodeMap_removeNode
      wf_NodeMap_ReplaceAllNodes wf_NodeMap_MarkReady)

lemma nodeMap_reachable_wf: "nodeMap_reachable p m \<Longrightarrow> wf_NodeMap m"
  by (induction rule: nodeMap_reachable.induct) (auto intro: wf_NodeMap_NewNodeMap wf_NodeMap_step)

text \<open>
  The version counts the changes of a run modulo 2 to the power 64, so that a run of fewer changes that
  leaves the version alone has changed nothing.
\<close>

definition same_nodes :: "NodeMap \<Rightarrow> NodeMap \<Rightarrow> bool" where
  "same_nodes m m' \<longleftrightarrow> lookupNode m' = lookupNode m \<and> me_of m' = me_of m"

definition drifted :: "nat \<Rightarrow> NodeMap \<Rightarrow> NodeMap \<Rightarrow> bool" where
  "drifted n m m' \<longleftrightarrow> wf_NodeMap m' \<and>
     (\<exists>d \<le> n. nm_version m' = nm_version m + of_nat d \<and> (d = 0 \<longrightarrow> same_nodes m m'))"

lemma drifted_step:
  assumes "drifted n m m'" and "wf_NodeMap m''" and "nm_version m'' = nm_version m' + of_nat e" and "e \<le> k"
    and "e = 0 \<longrightarrow> same_nodes m' m''"
  shows "drifted (n + k) m m''"
proof -
  obtain d where "d \<le> n" "nm_version m' = nm_version m + of_nat d" "d = 0 \<longrightarrow> same_nodes m m'"
    using assms(1) by (auto simp: drifted_def)
  then show ?thesis using assms(2-5)
    by (auto simp: drifted_def same_nodes_def intro!: exI [of _ "d + e"])
qed

lemma nodeMap_run_drifted:
  assumes "nodeMap_run n m m'" and "wf_NodeMap m"
  shows "drifted n m m'"
  using assms
proof (induction rule: nodeMap_run.induct)
  case (RunStart m)
  then show ?case by (auto simp: drifted_def same_nodes_def)
next
  case (RunUpdate n m m' src)
  then have dr: "drifted n m m'" and wf: "wf_NodeMap m'" by (auto simp: drifted_def)
  show ?case
    by (rule drifted_step [OF dr, of _ "of_bool (fst (updateNode src m'))"])
      (auto simp: UpdateNode_def wf_NodeMap_updateNode [OF wf] nm_version_updateNode [OF wf] same_nodes_def
        updateNode_unchanged [OF wf])
next
  case (RunRemove n m m' src)
  then have dr: "drifted n m m'" and wf: "wf_NodeMap m'" by (auto simp: drifted_def)
  show ?case by (rule drifted_step [OF dr, of _ 1]) (auto simp: RemoveNode_def wf_NodeMap_removeNode [OF wf])
next
  case (RunReplace n m m' ord srcs)
  then have dr: "drifted n m m'" and wf: "wf_NodeMap m'" by (auto simp: drifted_def)
  obtain d where d: "nm_version (snd (ReplaceAllNodes ord srcs m')) = nm_version m' + of_nat d"
    "d = 0 \<longleftrightarrow> \<not> fst (ReplaceAllNodes ord srcs m')" "d \<le> length srcs + length (nm_nodes (snd (updateNodes srcs m')))"
    using nm_version_ReplaceAllNodes [OF wf RunReplace.hyps(2)] by blast
  show ?case
    by (rule drifted_step [OF dr wf_NodeMap_ReplaceAllNodes [OF wf] d(1,3)])
      (simp add: d(2) ReplaceAllNodes_unchanged [OF wf] same_nodes_def)
next
  case (RunReady n m m')
  then have dr: "drifted n m m'" and wf: "wf_NodeMap m'" by (auto simp: drifted_def)
  have "drifted (n + 0) m (MarkReady m')"
    by (rule drifted_step [OF dr wf_NodeMap_MarkReady [OF wf], of 0])
      (auto simp: MarkReady_def same_nodes_def lookupNode_def me_of_def fun_eq_iff)
  then show ?case by simp
next
  case (RunBound n m m' k)
  then have dr: "drifted n m m'" and wf: "wf_NodeMap m'" by (auto simp: drifted_def)
  show ?case by (rule drifted_step [OF dr wf, of 0]) (auto simp: same_nodes_def)
qed

lemma nodeMap_run_same_version:
  assumes "nodeMap_run n m m'" and "wf_NodeMap m" and "n < 2 ^ 64" and "nm_version m' = nm_version m"
  shows "same_nodes m m'"
proof -
  obtain d where d: "d \<le> n" "nm_version m' = nm_version m + of_nat d" "d = 0 \<longrightarrow> same_nodes m m'"
    using nodeMap_run_drifted [OF assms(1,2)] by (auto simp: drifted_def)
  then have "(of_nat d :: 64 word) = 0" using assms(4) by simp
  moreover have "d < 2 ^ 64" using d(1) assms(3) by simp
  ultimately have "d = 0" by (auto simp: word_of_nat_eq_0_iff dvd_def)
  then show ?thesis using d(3) by simp
qed

section \<open>The local node\<close>

text \<open>The pointer \<^verbatim>\<open>me\<close> is one the map holds.\<close>

definition me_listed :: "NodeMap \<Rightarrow> bool" where
  "me_listed m \<longleftrightarrow> (\<exists>name l. nm_me m = Some l \<and> map_of (nm_nodes m) name = Some l)"

lemma me_listed_lookup:
  assumes "wf_NodeMap m" and "me_listed m"
  obtains n where "me_of m = Some n" and "lookupNode m (ni_Name n) = Some n"
proof -
  from assms(2) obtain name l where l: "nm_me m = Some l" "map_of (nm_nodes m) name = Some l"
    by (auto simp: me_listed_def)
  then have "ni_Name (nm_heap m ! l) = name" using wf_NodeMap_loc [OF assms(1)] by simp
  with l show ?thesis using that [of "nm_heap m ! l"] by (simp add: me_of_def lookupNode_def)
qed

lemma me_listed_updateNode:
  assumes "wf_NodeMap m" and "me_listed m"
  shows "me_listed (snd (updateNode src m))"
proof -
  from assms(2) obtain name l where l: "nm_me m = Some l" "map_of (nm_nodes m) name = Some l"
    by (auto simp: me_listed_def)
  show ?thesis
  proof (cases "map_of (nm_nodes m) (node_Name src)")
    case None
    with l have "name \<noteq> node_Name src" by auto
    with None l show ?thesis
      by (auto simp: me_listed_def updateNode_fresh newly_me_def update_conv' intro!: exI [of _ name])
  next
    case (Some l')
    with l show ?thesis
      by (auto simp: me_listed_def updateNode_known [OF assms(1)] newly_me_def Let_def)
  qed
qed

lemma me_of_updateNode_self:
  assumes "wf_NodeMap m" and "me_listed m" and "me_of m = Some n" and "node_Name src = ni_Name n"
  shows "me_of (snd (updateNode src m)) = Some (nodeView src)"
proof -
  have wf: "wf_NodeMap (snd (updateNode src m))" by (rule wf_NodeMap_updateNode [OF assms(1)])
  from assms obtain l where l: "nm_me m = Some l" "map_of (nm_nodes m) (node_Name src) = Some l"
    using wf_NodeMap_loc [OF assms(1)] by (auto simp: me_listed_def me_of_def)
  then show ?thesis
    using wf_NodeMap_loc [OF assms(1) l(2)]
    by (simp add: updateNode_known [OF assms(1)] newly_me_def Let_def me_of_def)
qed

lemma me_of_removeNode: "me_of (removeNode k m) = me_of m"
  by (simp add: me_of_def)

lemma me_of_updateNode_fresh:
  assumes "wf_NodeMap m" and "me_of m = Some n" and "map_of (nm_nodes m) (node_Name src) = None"
  shows "me_of (snd (updateNode src m)) = Some n"
proof -
  from assms(2) obtain l where l: "nm_me m = Some l" "nm_heap m ! l = n" by (auto simp: me_of_def)
  moreover have "l < length (nm_heap m)" using assms(1) l(1) by (simp add: wf_NodeMap_def)
  ultimately show ?thesis
    by (simp add: updateNode_fresh [OF assms(3)] me_of_def newly_me_def nth_append)
qed

text \<open>
  While the local node, told by its name, is never dropped: the pointer \<^verbatim>\<open>me\<close> is the map's pointer of
  that name, so that it is the entry of the local node.
\<close>

definition me_named :: "string \<Rightarrow> NodeMap \<Rightarrow> bool" where
  "me_named self m \<longleftrightarrow> nm_mePredicate m = (\<lambda>node. node_Name node = self) \<and> nm_me m = map_of (nm_nodes m) self"

lemma me_named_me_of: "me_named self m \<Longrightarrow> me_of m = lookupNode m self"
  by (simp add: me_named_def me_of_def lookupNode_def)

lemma me_named_NewNodeMap: "me_named self (NewNodeMap (\<lambda>node. node_Name node = self))"
  by (simp add: me_named_def NewNodeMap_def)

lemma me_named_MarkReady: "me_named self (MarkReady m) = me_named self m"
  by (simp add: me_named_def MarkReady_def)

lemma me_named_updateNode:
  assumes "wf_NodeMap m" and "me_named self m"
  shows "me_named self (snd (updateNode src m))"
proof (cases "map_of (nm_nodes m) (node_Name src)")
  case None
  then show ?thesis using assms(2)
    by (auto simp: me_named_def updateNode_fresh newly_me_def update_conv')
next
  case (Some l)
  then show ?thesis using assms(2)
    by (auto simp: me_named_def updateNode_known [OF assms(1)] newly_me_def Let_def)
qed

lemma me_named_removeNode: "me_named self m \<Longrightarrow> k \<noteq> self \<Longrightarrow> me_named self (removeNode k m)"
  by (simp add: me_named_def removeNode_def delete_conv')

lemma me_named_updateNodes:
  "wf_NodeMap m \<Longrightarrow> me_named self m \<Longrightarrow> me_named self (snd (updateNodes srcs m))"
  by (induction srcs arbitrary: m) (simp_all add: updateNodes_Cons me_named_updateNode wf_NodeMap_updateNode)

lemma me_named_removeUnlisted:
  "me_named self m \<Longrightarrow> self \<in> names \<Longrightarrow> me_named self (snd (removeUnlisted names ks m))"
proof (induction ks arbitrary: m)
  case (Cons k ks)
  show ?case
  proof (cases "k \<in> names")
    case True
    then show ?thesis using Cons by (simp add: removeUnlisted_Cons)
  next
    case False
    then have "me_named self (removeNode k m)" using Cons.prems by (intro me_named_removeNode) auto
    then show ?thesis using Cons False by (simp add: removeUnlisted_Cons)
  qed
qed simp

lemma me_named_ReplaceAllNodes:
  "wf_NodeMap m \<Longrightarrow> me_named self m \<Longrightarrow> self \<in> node_Name ` set srcs \<Longrightarrow> me_named self (snd (ReplaceAllNodes ord srcs m))"
  by (simp add: ReplaceAllNodes_eq Let_def me_named_removeUnlisted me_named_updateNodes)

section \<open>Properties\<close>

text \<open>Two concrete nodes, used to run the model.\<close>

definition node_a :: k8s_node where
  "node_a =
     \<lparr>node_Name = ''a'', node_PodCIDR = ''100.96.1.0/24'',
      node_Addresses = [(''Hostname'', ''a''), (''InternalIP'', ''172.20.0.9''), (''InternalIP'', ''172.20.0.10'')],
      node_Conditions = [(''Ready'', ''True''), (''NetworkUnavailable'', ''True'')],
      node_MachineID = ''ma'', node_SystemUUID = ''ua'', node_BootID = ''ba''\<rparr>"

definition node_b :: k8s_node where
  "node_b =
     \<lparr>node_Name = ''b'', node_PodCIDR = ''100.96.2.0/24'',
      node_Addresses = [(''InternalIP'', ''172.20.0.11'')],
      node_Conditions = [], node_MachineID = ''mb'', node_SystemUUID = ''ub'', node_BootID = ''bb''\<rparr>"

abbreviation named :: "string \<Rightarrow> NodePredicate" where
  "named name \<equiv> (\<lambda>node. node_Name node = name)"

lemma nodeView_node_a:
  "nodeView node_a =
     \<lparr>ni_Name = ''a'', ni_Address = IPv4 172 20 0 10,
      ni_PodCIDR = Some \<lparr>ipn_IP = Some [100, 96, 1, 0], ipn_Mask = [255, 255, 255, 0]\<rparr>,
      ni_NetworkAvailable = False\<rparr>"
  by (simp add: nodeView_def node_a_def viewAddress_def viewPodCIDR_def viewAvailable_def
      internalIPs_def net_eval)

lemma nodeView_node_b:
  "nodeView node_b =
     \<lparr>ni_Name = ''b'', ni_Address = IPv4 172 20 0 11,
      ni_PodCIDR = Some \<lparr>ipn_IP = Some [100, 96, 2, 0], ipn_Mask = [255, 255, 255, 0]\<rparr>,
      ni_NetworkAvailable = True\<rparr>"
  by (simp add: nodeView_def node_b_def viewAddress_def viewPodCIDR_def viewAvailable_def
      internalIPs_def net_eval)

lemma node_Name_samples [simp]: "node_Name node_a = ''a''" "node_Name node_b = ''b''"
  by (simp_all add: node_a_def node_b_def)

text \<open>C4: \<^verbatim>\<open>NodeInfo.update\<close> leaves the entry exactly as the node object describes it
  (parsed pod CIDR, the least internal address in string order, network availability from
  the last report), returns true exactly when the entry was different before, and keeps
  entries well formed.\<close>

theorem NodeInfo_update_refines:
  assumes "wf_NodeInfo n" and "ni_Name n = node_Name src"
  shows "snd (NodeInfo_update n src) = nodeView src \<and>
    (fst (NodeInfo_update n src) \<longleftrightarrow> n \<noteq> nodeView src) \<and>
    wf_NodeInfo (snd (NodeInfo_update n src))"
  using NodeInfo_update_eq [OF assms] by (simp add: wf_nodeView)

theorem NodeInfo_update_refines_witness:
  "NodeInfo_update (zero_NodeInfo\<lparr>ni_Name := ''a''\<rparr>) node_a =
     (True,
      \<lparr>ni_Name = ''a'', ni_Address = IPv4 172 20 0 10,
       ni_PodCIDR = Some \<lparr>ipn_IP = Some [100, 96, 1, 0], ipn_Mask = [255, 255, 255, 0]\<rparr>,
       ni_NetworkAvailable = False\<rparr>)"
proof -
  have "ni_Name (zero_NodeInfo\<lparr>ni_Name := ''a''\<rparr>) = node_Name node_a"
    by (simp add: zero_NodeInfo_def)
  from NodeInfo_update_refines [OF wf_zero_NodeInfo this] show ?thesis
    by (simp add: nodeView_node_a prod_eq_iff zero_NodeInfo_def)
qed

text \<open>C15: Every map of nodes that the agent's goroutines can reach by any sequence of
  \<^verbatim>\<open>UpdateNode\<close>, \<^verbatim>\<open>RemoveNode\<close>, \<^verbatim>\<open>ReplaceAllNodes\<close> and \<^verbatim>\<open>MarkReady\<close> is well formed: names
  and pointers are distinct, every pointer is valid and leads to the entry of its name, and
  every entry is a parsed one.\<close>

theorem nodeMap_reachable_invariant:
  assumes "nodeMap_reachable p m"
  shows "wf_NodeMap m"
  using assms by (rule nodeMap_reachable_wf)

theorem nodeMap_reachable_invariant_witness:
  "wf_NodeMap (MarkReady (RemoveNode node_b (snd (UpdateNode node_a (NewNodeMap (named ''a''))))))"
  by (rule nodeMap_reachable_invariant [OF nodeMap_reachable.Step [OF
        nodeMap_reachable.Step [OF nodeMap_reachable.Step [OF nodeMap_reachable.New nodeMap_step.Update]
          nodeMap_step.Remove] nodeMap_step.Ready]])

text \<open>C5: \<^verbatim>\<open>UpdateNode\<close> stores the view of the given node under its name and touches no
  other entry; it returns true exactly when the stored entry was different or the node was
  just identified as the local one; then the version goes up by one, and otherwise the
  whole map is unchanged.\<close>

theorem UpdateNode_refines:
  assumes "wf_NodeMap m" and "UpdateNode src m = (changed, m')"
  shows "lookupNode m' = (lookupNode m)(node_Name src \<mapsto> nodeView src) \<and>
    (changed \<longleftrightarrow> lookupNode m (node_Name src) \<noteq> Some (nodeView src) \<or>
       (nm_me m = None \<and> nm_mePredicate m src)) \<and>
    nm_version m' = nm_version m + (if changed then 1 else 0) \<and>
    (\<not> changed \<longrightarrow> m' = m)"
  using lookupNode_updateNode [OF assms(1), of src] fst_updateNode [OF assms(1), of src]
    nm_version_updateNode [OF assms(1), of src] updateNode_unchanged [OF assms(1), of src] assms(2)
  by (auto simp: UpdateNode_def newly_me_def)

theorem UpdateNode_refines_witness:
  "lookupNode (snd (UpdateNode node_a (NewNodeMap (named ''a'')))) ''a'' = Some (nodeView node_a)"
  using UpdateNode_refines [OF wf_NodeMap_NewNodeMap, of node_a "named ''a''"]
  by (metis fun_upd_same node_Name_samples(1) prod.collapse)

text \<open>\<^verbatim>\<open>ReplaceAllNodes\<close> leaves exactly the nodes of the given list, each as the last
  object of its name describes it, whatever order the runtime visits the map in.\<close>

lemma ReplaceAllNodes_refines:
  assumes "wf_NodeMap m" and "range_order ord"
  shows "lookupNode (snd (ReplaceAllNodes ord srcs m)) name =
    map_option nodeView (lastNamed name srcs)"
  using assms by (rule lookupNode_ReplaceAllNodes)

lemma ReplaceAllNodes_refines_example:
  "lookupNode (snd (ReplaceAllNodes rev [node_b] (snd (UpdateNode node_a (NewNodeMap (named ''a'')))))) ''a'' = None"
proof -
  have "wf_NodeMap (snd (UpdateNode node_a (NewNodeMap (named ''a''))))"
    unfolding UpdateNode_def by (intro wf_NodeMap_updateNode wf_NodeMap_NewNodeMap)
  from ReplaceAllNodes_refines [OF this, of rev "[node_b]" "''a''"] show ?thesis
    by (simp add: lastNamed_def)
qed

text \<open>\<^verbatim>\<open>ReplaceAllNodes\<close> adds to the version once per entry it changes or drops: not at
  all exactly when it returns false, and then the map is unchanged; so a reader that
  compares versions misses no change unless 2 to the 64 changes lie between.\<close>

lemma ReplaceAllNodes_version:
  assumes "wf_NodeMap m" and "range_order ord" and "ReplaceAllNodes ord srcs m = (changed, m')"
    and "length srcs + length (nm_nodes (snd (updateNodes srcs m))) < 2 ^ 64"
  shows "(changed \<longleftrightarrow> nm_version m' \<noteq> nm_version m) \<and> (\<not> changed \<longrightarrow> m' = m)"
proof -
  obtain d where "nm_version m' = nm_version m + of_nat d" "d = 0 \<longleftrightarrow> \<not> changed"
    "d \<le> length srcs + length (nm_nodes (snd (updateNodes srcs m)))"
    using nm_version_ReplaceAllNodes [OF assms(1,2), of srcs] unfolding assms(3) by auto
  with assms(4) have d: "nm_version m' = nm_version m + of_nat d" "d = 0 \<longleftrightarrow> \<not> changed" "d < 2 ^ 64"
    by simp_all
  then have "(of_nat d :: 64 word) = 0 \<longleftrightarrow> d = 0"
    by (auto simp: word_of_nat_eq_0_iff dvd_def)
  then show ?thesis
    using d assms(3) ReplaceAllNodes_unchanged [OF assms(1), of ord srcs] by auto
qed

lemma ReplaceAllNodes_version_example:
  "nm_version (snd (ReplaceAllNodes rev [node_b] (NewNodeMap (named ''a'')))) \<noteq> 0"
proof -
  let ?m = "NewNodeMap (named ''a'')"
  have eq: "updateNode node_b ?m =
      (True, ?m\<lparr>nm_nodes := [(''b'', 0)], nm_heap := [nodeView node_b], nm_version := 1\<rparr>)"
    by (simp add: updateNode_fresh NewNodeMap_def newly_me_def)
  have len: "length [node_b] + length (nm_nodes (snd (updateNodes [node_b] ?m))) < 2 ^ 64"
    by (simp add: updateNodes_Cons eq)
  have "fst (ReplaceAllNodes rev [node_b] ?m)"
    by (simp add: ReplaceAllNodes_eq Let_def updateNodes_Cons eq)
  with ReplaceAllNodes_version [OF wf_NodeMap_NewNodeMap range_order_rev _ len]
  show ?thesis by (metis NewNodeMap_def NodeMap.select_convs(4) prod.collapse)
qed

lemma snapshot_nodes:
  assumes wf: "wf_NodeMap m" and ord: "range_order ord"
  defines "nodes \<equiv> map (\<lambda>(name, l). nm_heap m ! l) (ord (nm_nodes m))"
  shows "distinct (map ni_Name nodes)" and "n \<in> set nodes \<longleftrightarrow> lookupNode m (ni_Name n) = Some n"
proof -
  let ?es = "ord (nm_nodes m)"
  have set: "set ?es = set (nm_nodes m)" by (rule range_order_set [OF ord])
  have name: "ni_Name (nm_heap m ! l) = k" if "(k, l) \<in> set ?es" for k l
    using that wf set by (auto simp: wf_NodeMap_def)
  then have "map ni_Name nodes = map fst ?es" by (auto simp: nodes_def)
  then show "distinct (map ni_Name nodes)"
    using wf by (simp add: range_order_distinct_map [OF ord] wf_NodeMap_def distinct_keys_def)
  have "n \<in> set nodes \<longleftrightarrow> (\<exists>k l. (k, l) \<in> set ?es \<and> n = nm_heap m ! l)" unfolding nodes_def by auto
  also have "\<dots> \<longleftrightarrow> (\<exists>l. (ni_Name n, l) \<in> set ?es \<and> n = nm_heap m ! l)" using name by metis
  finally show "n \<in> set nodes \<longleftrightarrow> lookupNode m (ni_Name n) = Some n"
    using wf unfolding set by (auto simp: wf_NodeMap_def lookupNode_def in_set_distinct_keys simp del: map_of_eq_Some_iff)
qed

lemma lookupNode_name: "wf_NodeMap m \<Longrightarrow> lookupNode m name = Some n \<Longrightarrow> ni_Name n = name"
  by (auto simp: wf_NodeMap_def lookupNode_def dest!: map_of_SomeD)

text \<open>\<^verbatim>\<open>Snapshot\<close> of a map that is not ready is nil, empty and version 0; of a ready map
  it is the local entry (a zero entry while the local node is unknown), every stored entry
  exactly once in some order, and the current version.\<close>

lemma Snapshot_complete:
  assumes "wf_NodeMap m" and "range_order ord" and "Snapshot ord m = (me, nodes, version)"
  shows "(\<not> IsReady m \<longrightarrow> me = None \<and> nodes = [] \<and> version = 0) \<and>
    (IsReady m \<longrightarrow>
       me = Some (case me_of m of None \<Rightarrow> zero_NodeInfo | Some n \<Rightarrow> n) \<and>
       IsVersion m version \<and>
       distinct (map ni_Name nodes) \<and>
       (\<forall>n. n \<in> set nodes \<longleftrightarrow> lookupNode m (ni_Name n) = Some n))"
  using snapshot_nodes [OF assms(1,2)] assms(3)
  by (auto simp: Snapshot_def IsReady_def IsVersion_def split: if_splits)

lemma Snapshot_complete_example:
  "nodeView node_a \<in> set (fst (snd (Snapshot rev (MarkReady (snd (UpdateNode node_a (NewNodeMap (named ''a'')))))))) "
proof -
  let ?m = "MarkReady (snd (UpdateNode node_a (NewNodeMap (named ''a''))))"
  have wf: "wf_NodeMap ?m"
    unfolding UpdateNode_def
    by (intro wf_NodeMap_MarkReady wf_NodeMap_updateNode wf_NodeMap_NewNodeMap)
  have "lookupNode ?m ''a'' = Some (nodeView node_a)"
    using lookupNode_updateNode [OF wf_NodeMap_NewNodeMap, of node_a]
    by (simp add: UpdateNode_def MarkReady_def lookupNode_def fun_eq_iff)
  moreover obtain me nodes v where sn: "Snapshot rev ?m = (me, nodes, v)" by (metis prod.collapse)
  moreover have "IsReady ?m" by (simp add: IsReady_def MarkReady_def)
  ultimately show ?thesis
    using Snapshot_complete [OF wf range_order_rev sn] by simp
qed

text \<open>While the local node stays listed, the local entry that \<^verbatim>\<open>Snapshot\<close> hands out
  follows it: an update of the local node's object, through the map, is seen through
  \<^verbatim>\<open>me\<close>, and an update of any other node keeps the local node listed.\<close>

lemma me_follows_updates:
  assumes "wf_NodeMap m" and "me_listed m" and "me_of m = Some n"
  shows "me_listed (snd (UpdateNode src m)) \<and>
    (node_Name src = ni_Name n \<longrightarrow> me_of (snd (UpdateNode src m)) = Some (nodeView src))"
  using me_listed_updateNode [OF assms(1,2)] me_of_updateNode_self [OF assms]
  by (simp add: UpdateNode_def)

lemma me_follows_updates_example:
  "me_of (snd (UpdateNode (node_a\<lparr>node_PodCIDR := ''''\<rparr>) (snd (UpdateNode node_a (NewNodeMap (named ''a'')))))) =
   Some (nodeView (node_a\<lparr>node_PodCIDR := ''''\<rparr>))"
proof -
  let ?m = "snd (UpdateNode node_a (NewNodeMap (named ''a'')))"
  have wf: "wf_NodeMap ?m"
    unfolding UpdateNode_def by (intro wf_NodeMap_updateNode wf_NodeMap_NewNodeMap)
  have eq: "?m = \<lparr>nm_mePredicate = named ''a'', nm_ready = False, nm_nodes = [(''a'', 0)],
      nm_version = 1, nm_me = Some 0, nm_heap = [nodeView node_a]\<rparr>"
    by (simp add: UpdateNode_def updateNode_fresh NewNodeMap_def newly_me_def)
  have "me_listed ?m" and "me_of ?m = Some (nodeView node_a)"
    by (auto simp: eq me_listed_def me_of_def)
  from me_follows_updates [OF wf this, of "node_a\<lparr>node_PodCIDR := ''''\<rparr>"]
  show ?thesis by simp
qed

text \<open>C36: Once the local node has been dropped from the map, its pointer is never renewed:
  when the node is created again, the map has the new entry and the local entry handed to
  the providers stays the one that was dropped.\<close>

theorem me_stale_after_recreation:
  assumes "wf_NodeMap m" and "me_of m = Some n" and "node_Name old = ni_Name n"
    and "node_Name src = ni_Name n"
  shows "me_of (snd (UpdateNode src (RemoveNode old m))) = Some n \<and>
    lookupNode (snd (UpdateNode src (RemoveNode old m))) (ni_Name n) = Some (nodeView src)"
proof -
  have wf: "wf_NodeMap (removeNode (ni_Name n) m)" by (rule wf_NodeMap_removeNode [OF assms(1)])
  have "map_of (nm_nodes (removeNode (ni_Name n) m)) (node_Name src) = None"
    by (simp add: removeNode_def delete_conv' assms(4))
  from me_of_updateNode_fresh [OF wf _ this] lookupNode_updateNode [OF wf, of src] show ?thesis
    using assms(2-4) by (simp add: UpdateNode_def RemoveNode_def me_of_removeNode)
qed

theorem me_stale_after_recreation_witness:
  "me_of (snd (UpdateNode (node_a\<lparr>node_PodCIDR := ''100.96.7.0/24''\<rparr>)
     (RemoveNode node_a (snd (UpdateNode node_a (NewNodeMap (named ''a''))))))) = Some (nodeView node_a)"
proof -
  let ?m = "snd (UpdateNode node_a (NewNodeMap (named ''a'')))"
  have wf: "wf_NodeMap ?m"
    unfolding UpdateNode_def by (intro wf_NodeMap_updateNode wf_NodeMap_NewNodeMap)
  have "me_of ?m = Some (nodeView node_a)"
    by (simp add: UpdateNode_def updateNode_fresh NewNodeMap_def newly_me_def me_of_def)
  from me_stale_after_recreation [OF wf this, of node_a "node_a\<lparr>node_PodCIDR := ''100.96.7.0/24''\<rparr>"]
  show ?thesis by simp
qed

end
