(* ===== verification/Netlink.thy ===== *)
theory Netlink
  imports Go_Net
begin

text \<open>
  The boundary to \<^verbatim>\<open>github.com/vishvananda/netlink\<close>, which is not part of the repository:
  the fields of its types that the program reads or writes, and the record \<open>netlink\<close> of the
  calls the program makes.  Every operation of the program that talks to the kernel takes
  such a record as a parameter, so nothing is assumed of the library but what a property
  states as a hypothesis.  A call gets the kernel's state \<open>'w\<close> and returns a value or an error
  together with the new state; \<open>nl_LinkAdd\<close> also returns the link object, whose index the
  library fills in.

  The numeric constants are those of the Linux interface headers.
\<close>

section \<open>Types\<close>

datatype linkKind =
    Gretun ip ip "8 word" \<comment> \<open>local, remote, TTL\<close>
  | Vxlan int int ip bool int \<comment> \<open>id, VTEP device index, source address, learning, port\<close>
  | OtherLink string

record link =
  lk_Kind :: linkKind
  lk_Name :: string
  lk_Index :: int
  lk_MTU :: int
  lk_HardwareAddr :: "byte list"
  lk_Flags :: "64 word"

record nexthopInfo =
  nh_LinkIndex :: int
  nh_Hops :: int
  nh_Gw :: ip

record route =
  rt_LinkIndex :: int
  rt_ILinkIndex :: int
  rt_Scope :: int
  rt_Dst :: "ipnet option"
  rt_Src :: ip
  rt_Gw :: ip
  rt_MultiPath :: "nexthopInfo list"
  rt_Protocol :: int
  rt_Priority :: int
  rt_Table :: int
  rt_Type :: int
  rt_Tos :: int
  rt_Flags :: int

record neigh =
  ng_LinkIndex :: int
  ng_Family :: int
  ng_State :: "64 word"
  ng_Type :: int
  ng_Flags :: int
  ng_IP :: ip
  ng_HardwareAddr :: "byte list option"

record addr =
  ad_IPNet :: "ipnet option"
  ad_Label :: string
  ad_Flags :: int
  ad_Scope :: int

record xfrmMark =
  xm_Value :: "32 word"
  xm_Mask :: "32 word"

record xfrmStateAlgo =
  xa_Name :: string
  xa_Key :: "byte list"
  xa_TruncateLen :: int
  xa_ICVLen :: int

record xfrmStateEncap =
  xe_Type :: int
  xe_SrcPort :: int
  xe_DstPort :: int
  xe_OriginalAddress :: ip

record xfrmStateLimits =
  xl_ByteSoft :: "64 word"
  xl_ByteHard :: "64 word"
  xl_PacketSoft :: "64 word"
  xl_PacketHard :: "64 word"
  xl_TimeSoft :: "64 word"
  xl_TimeHard :: "64 word"
  xl_TimeUseSoft :: "64 word"
  xl_TimeUseHard :: "64 word"

record xfrmState =
  xs_Dst :: ip
  xs_Src :: ip
  xs_Proto :: int
  xs_Mode :: int
  xs_Spi :: int
  xs_Reqid :: int
  xs_ReplayWindow :: int
  xs_Limits :: xfrmStateLimits
  xs_Mark :: "xfrmMark option"
  xs_Auth :: "xfrmStateAlgo option"
  xs_Crypt :: "xfrmStateAlgo option"
  xs_Aead :: "xfrmStateAlgo option"
  xs_Encap :: "xfrmStateEncap option"

record xfrmPolicyTmpl =
  xt_Dst :: ip
  xt_Src :: ip
  xt_Proto :: int
  xt_Mode :: int
  xt_Spi :: int
  xt_Reqid :: int

record xfrmPolicy =
  xp_Dst :: "ipnet option"
  xp_Src :: "ipnet option"
  xp_Proto :: int
  xp_DstPort :: int
  xp_SrcPort :: int
  xp_Dir :: int
  xp_Priority :: int
  xp_Index :: int
  xp_Mark :: "xfrmMark option"
  xp_Tmpls :: "xfrmPolicyTmpl list"

text \<open>Zero values, from which composite literals set some fields.\<close>

definition zero_route :: route where
  "zero_route =
     \<lparr>rt_LinkIndex = 0, rt_ILinkIndex = 0, rt_Scope = 0, rt_Dst = None, rt_Src = None, rt_Gw = None,
      rt_MultiPath = [], rt_Protocol = 0, rt_Priority = 0, rt_Table = 0, rt_Type = 0, rt_Tos = 0,
      rt_Flags = 0\<rparr>"

definition zero_neigh :: neigh where
  "zero_neigh =
     \<lparr>ng_LinkIndex = 0, ng_Family = 0, ng_State = 0, ng_Type = 0, ng_Flags = 0, ng_IP = None,
      ng_HardwareAddr = None\<rparr>"

definition zero_addr :: addr where
  "zero_addr = \<lparr>ad_IPNet = None, ad_Label = '''', ad_Flags = 0, ad_Scope = 0\<rparr>"

section \<open>Constants\<close>

definition RTPROT_BOOT :: int where "RTPROT_BOOT = 3"
definition RT_TABLE_MAIN :: int where "RT_TABLE_MAIN = 254"
definition RTN_UNICAST :: int where "RTN_UNICAST = 1"
definition RTNH_F_ONLINK :: int where "RTNH_F_ONLINK = 4"
definition SCOPE_UNIVERSE :: int where "SCOPE_UNIVERSE = 0"
definition AF_BRIDGE :: int where "AF_BRIDGE = 7"
definition FAMILY_V4 :: int where "FAMILY_V4 = 2"
definition NUD_REACHABLE :: "64 word" where "NUD_REACHABLE = 0x02"
definition NUD_PERMANENT :: "64 word" where "NUD_PERMANENT = 0x80"
definition NTF_SELF :: int where "NTF_SELF = 2"
definition FlagUp :: "64 word" where "FlagUp = 1"

section \<open>The calls\<close>

record 'w netlink =
  nl_LinkType :: "link \<Rightarrow> string"
  nl_LinkList :: "('w, link list) ext"
  nl_LinkByName :: "string \<Rightarrow> ('w, link option) ext"
  nl_LinkAdd :: "link \<Rightarrow> ('w, link) ext"
  nl_LinkDel :: "link \<Rightarrow> ('w, unit) ext"
  nl_LinkSetUp :: "link \<Rightarrow> ('w, unit) ext"
  nl_LinkSetMTU :: "link \<Rightarrow> int \<Rightarrow> ('w, unit) ext"
  nl_LinkSetHardwareAddr :: "link \<Rightarrow> byte list \<Rightarrow> ('w, unit) ext"
  nl_AddrList :: "link \<Rightarrow> ('w, addr list) ext"
  nl_AddrAdd :: "link \<Rightarrow> addr \<Rightarrow> ('w, unit) ext"
  nl_AddrDel :: "link \<Rightarrow> addr \<Rightarrow> ('w, unit) ext"
  nl_RouteList :: "link option \<Rightarrow> ('w, route list) ext"
  nl_RouteAdd :: "route \<Rightarrow> ('w, unit) ext"
  nl_RouteDel :: "route \<Rightarrow> ('w, unit) ext"
  nl_RouteSetFlag :: "route \<Rightarrow> int \<Rightarrow> route"
  nl_NeighList :: "int \<Rightarrow> ('w, neigh list) ext"
  nl_NeighSet :: "neigh \<Rightarrow> ('w, unit) ext"
  nl_XfrmStateList :: "('w, xfrmState list) ext"
  nl_XfrmStateAdd :: "xfrmState \<Rightarrow> ('w, unit) ext"
  nl_XfrmStateUpdate :: "xfrmState \<Rightarrow> ('w, unit) ext"
  nl_XfrmStateDel :: "xfrmState \<Rightarrow> ('w, unit) ext"
  nl_XfrmStateFlush :: "('w, unit) ext"
  nl_XfrmPolicyList :: "('w, xfrmPolicy list) ext"
  nl_XfrmPolicyAdd :: "xfrmPolicy \<Rightarrow> ('w, unit) ext"
  nl_XfrmPolicyUpdate :: "xfrmPolicy \<Rightarrow> ('w, unit) ext"
  nl_XfrmPolicyDel :: "xfrmPolicy \<Rightarrow> ('w, unit) ext"
  nl_XfrmPolicyFlush :: "('w, unit) ext"

end
