(* ===== verification/Provider.thy ===== *)
theory Provider
  imports Nodes Netlink
begin

text \<open>
  The interface \<^verbatim>\<open>routing.Provider\<close> (\<^verbatim>\<open>src/pkg/routing/provider.go\<close>) and what every implementation of
  \<^verbatim>\<open>EnsureCIDRs\<close> has in common: the skip on an unchanged version, the snapshot, and the loop that
  selects the remote nodes.

  \<open>routing_provider\<close> is the contract the routing controller relies on.  Each provider interprets
  it with its own \<^verbatim>\<open>EnsureCIDRs\<close>, and the lemmas of the controller are proved once from it.
\<close>

section \<open>Shared code of the providers\<close>

text \<open>
  The nodes a provider configures: every provider skips the local node and the nodes without an
  address or a pod network.
\<close>

definition remotes :: "NodeInfo \<Rightarrow> NodeInfo list \<Rightarrow> NodeInfo list" where
  "remotes me allNodes =
     filter (\<lambda>remote. if ni_Name remote = ni_Name me then False
                       else if ni_Address remote = None then False
                       else if ni_PodCIDR remote = None then False
                       else True) allNodes"

text \<open>
  \<^verbatim>\<open>if p.lastVersionApplied != 0 && nodeMap.IsVersion(p.lastVersionApplied) { return nil }\<close>
\<close>

definition up_to_date :: "64 word \<Rightarrow> NodeMap \<Rightarrow> bool" where
  "up_to_date lastVersionApplied nm \<longleftrightarrow> lastVersionApplied \<noteq> 0 \<and> IsVersion nm lastVersionApplied"

definition no_local_node :: gerr where
  "no_local_node = Errorf ''Cannot find local node'' None"

section \<open>The contract\<close>

locale routing_provider =
  fixes ensure :: "NodeMap \<Rightarrow> ('p \<times> 'w, unit) io"
    and applied :: "'p \<Rightarrow> 64 word"
  assumes ensure_skip: "up_to_date (applied p) nm \<Longrightarrow> ensure nm (p, w) = (Ret (), (p, w))"
    and ensure_not_ready: "\<not> up_to_date (applied p) nm \<Longrightarrow> \<not> IsReady nm \<Longrightarrow>
      ensure nm (p, w) = (Err no_local_node, (p, w))"
    and ensure_commit: "ensure nm (p, w) = (Ret (), (p', w')) \<Longrightarrow> IsReady nm \<Longrightarrow> applied p' = nm_version nm"
    and ensure_failed: "ensure nm (p, w) = (r, (p', w')) \<Longrightarrow> r \<noteq> Ret () \<Longrightarrow> applied p' = applied p"
begin

text \<open>After a success the same node map is never applied again.\<close>

lemma applied_once:
  assumes "ensure nm s = (Ret (), s')" and "IsReady nm" and "nm_version nm \<noteq> 0"
  shows "ensure nm s' = (Ret (), s')"
proof -
  obtain p w p' w' where s: "s = (p, w)" "s' = (p', w')" by (cases s, cases s') auto
  then have "up_to_date (applied p') nm"
    using ensure_commit [of nm p w p' w'] assms by (simp add: up_to_date_def IsVersion_def)
  then show ?thesis using ensure_skip s by simp
qed

text \<open>After a failure the next call does not skip.\<close>

lemma failure_retried:
  assumes "ensure nm (p, w) = (r, (p', w'))" and "r \<noteq> Ret ()"
  shows "\<not> up_to_date (applied p') nm"
proof
  assume "up_to_date (applied p') nm"
  then have "up_to_date (applied p) nm" using ensure_failed [OF assms] by simp
  then show False using ensure_skip [of p nm w] assms by simp
qed

text \<open>Any change of the version makes the next call apply the map.\<close>

lemma change_noticed:
  assumes "ensure nm (p, w) = (Ret (), (p', w'))" and "IsReady nm" and "nm_version nm' \<noteq> nm_version nm"
  shows "\<not> up_to_date (applied p') nm'"
  using ensure_commit [OF assms(1,2)] assms(3) by (auto simp: up_to_date_def IsVersion_def)

text \<open>
  The skip is sound: a map that the methods of the node map reached from the applied one, by fewer
  than 2 to the power 64 changes, and that is skipped, has the same nodes and the same local node.
\<close>

lemma skip_sound:
  assumes "ensure nm (p, w) = (Ret (), (p', w'))" and "IsReady nm" and "wf_NodeMap nm"
    and "nodeMap_run n nm nm'" and "n < 2 ^ 64" and "up_to_date (applied p') nm'"
  shows "same_nodes nm nm'"
  using nodeMap_run_same_version [OF assms(4,3,5)] ensure_commit [OF assms(1,2)] assms(6)
  by (simp add: up_to_date_def IsVersion_def)

end

text \<open>
  The same contract with the two reads of the node map apart: \<open>after\<close> is what \<open>ensure\<close> does once the first read has
  found another version, on the map of the second read.
\<close>

locale reading_provider = routing_provider +
  fixes after :: "NodeMap \<Rightarrow> ('p \<times> 'w, unit) io"
  assumes after_check: "\<not> up_to_date (applied p) nm \<Longrightarrow> ensure nm (p, w) = after nm (p, w)"

section \<open>Facts about the shared code\<close>

lemma in_remotes:
  "r \<in> set (remotes me nodes) \<longleftrightarrow>
     r \<in> set nodes \<and> ni_Name r \<noteq> ni_Name me \<and> ni_Address r \<noteq> None \<and> ni_PodCIDR r \<noteq> None"
  by (auto simp: remotes_def)

lemma Snapshot_not_ready: "\<not> IsReady nm \<Longrightarrow> Snapshot ord nm = (None, [], 0)"
  by (simp add: Snapshot_def IsReady_def)

lemma Snapshot_ready:
  "IsReady nm \<Longrightarrow> \<exists>me nodes. Snapshot ord nm = (Some me, nodes, nm_version nm)"
  by (auto simp: Snapshot_def IsReady_def)

lemma Snapshot_cases:
  obtains "\<not> IsReady nm" "Snapshot ord nm = (None, [], 0)"
  | me nodes where "IsReady nm" "Snapshot ord nm = (Some me, nodes, nm_version nm)"
  using Snapshot_not_ready [of nm ord] Snapshot_ready [of nm ord] by (cases "IsReady nm") auto

section \<open>The steps of EnsureCIDRs\<close>

text \<open>
  Every provider runs the same steps: skip, snapshot, an action on the kernel that leaves the
  applied version alone, and then the commit of the version of the snapshot.
\<close>

definition ensure_steps ::
  "('p \<Rightarrow> 64 word) \<Rightarrow> (64 word \<Rightarrow> 'p \<Rightarrow> 'p) \<Rightarrow> (NodeInfo \<Rightarrow> NodeInfo list \<Rightarrow> ('p \<times> 'w, unit) io) \<Rightarrow>
   (string \<times> nat) order \<Rightarrow> NodeMap \<Rightarrow> ('p \<times> 'w, unit) io"
where
  "ensure_steps applied commit act ordS nm =
     bindM getP (\<lambda>p.
       if up_to_date (applied p) nm then retM ()
       else case Snapshot ordS nm of
         (None, allNodes, version) \<Rightarrow> throwM no_local_node
       | (Some me, allNodes, version) \<Rightarrow>
           bindM (act me allNodes) (\<lambda>_. bindM getP (\<lambda>p. putP (commit version p))))"

text \<open>
  The node map is read twice, by \<^verbatim>\<open>IsVersion\<close> and by \<^verbatim>\<open>Snapshot\<close>.  What follows the first read when it does not
  skip, on the map that the second read sees:
\<close>

definition ensure_after ::
  "(64 word \<Rightarrow> 'p \<Rightarrow> 'p) \<Rightarrow> (NodeInfo \<Rightarrow> NodeInfo list \<Rightarrow> ('p \<times> 'w, unit) io) \<Rightarrow> (string \<times> nat) order \<Rightarrow> NodeMap \<Rightarrow>
   ('p \<times> 'w, unit) io"
where
  "ensure_after commit act ordS nm =
     (case Snapshot ordS nm of
        (None, allNodes, version) \<Rightarrow> throwM no_local_node
      | (Some me, allNodes, version) \<Rightarrow>
          bindM (act me allNodes) (\<lambda>_. bindM getP (\<lambda>p. putP (commit version p))))"

lemma ensure_steps_after:
  "\<not> up_to_date (applied p) nm \<Longrightarrow> ensure_steps applied commit act ordS nm (p, w) = ensure_after commit act ordS nm (p, w)"
  by (simp add: ensure_steps_def ensure_after_def)

lemma ensure_steps_run:
  assumes "\<not> up_to_date (applied p) nm" and "Snapshot ordS nm = (Some me, nodes, v)"
  shows "ensure_steps applied commit act ordS nm (p, w) =
    bindM (act me nodes) (\<lambda>_. bindM getP (\<lambda>p. putP (commit v p))) (p, w)"
  using assms by (simp add: ensure_steps_def)

lemma ensure_steps_skip:
  "up_to_date (applied p) nm \<Longrightarrow> ensure_steps applied commit act ordS nm (p, w) = (Ret (), (p, w))"
  by (simp add: ensure_steps_def)

lemma ensure_steps_not_ready:
  "\<not> up_to_date (applied p) nm \<Longrightarrow> \<not> IsReady nm \<Longrightarrow>
   ensure_steps applied commit act ordS nm (p, w) = (Err no_local_node, (p, w))"
  by (simp add: ensure_steps_def Snapshot_not_ready)

lemma commit_run:
  assumes "bindM m (\<lambda>_. bindM getP (\<lambda>p. putP (commit v p))) (p, w) = (r, (p', w'))"
  obtains (Done) p1 where "m (p, w) = (Ret (), (p1, w'))" "r = Ret ()" "p' = commit v p1"
  | (Failed) "m (p, w) = (r, (p', w'))" "r \<noteq> Ret ()"
  using assms by (cases "m (p, w)"; cases "fst (m (p, w))") (auto simp: bindM_def getP_def putP_def)

lemma routing_provider_steps:
  assumes keep: "\<And>me nodes. keeps (\<lambda>s. applied (fst s)) (act me nodes)" and commit: "\<And>v p. applied (commit v p) = v"
  shows "routing_provider (ensure_steps applied commit act ordS) applied"
proof
  fix p nm w r p' w'
  show "up_to_date (applied p) nm \<Longrightarrow> ensure_steps applied commit act ordS nm (p, w) = (Ret (), (p, w))"
    by (rule ensure_steps_skip)
  show "\<not> up_to_date (applied p) nm \<Longrightarrow> \<not> IsReady nm \<Longrightarrow>
    ensure_steps applied commit act ordS nm (p, w) = (Err no_local_node, (p, w))"
    by (rule ensure_steps_not_ready)
  show "applied p' = nm_version nm"
    if run: "ensure_steps applied commit act ordS nm (p, w) = (Ret (), (p', w'))" and ready: "IsReady nm"
  proof (cases "up_to_date (applied p) nm")
    case True
    then show ?thesis using run by (simp add: ensure_steps_skip up_to_date_def IsVersion_def)
  next
    case False
    obtain me nodes where "Snapshot ordS nm = (Some me, nodes, nm_version nm)" using Snapshot_ready [OF ready] by blast
    from run [unfolded ensure_steps_run [of applied, OF False this]] show ?thesis
      by (rule commit_run) (simp_all add: commit)
  qed
  show "applied p' = applied p"
    if run: "ensure_steps applied commit act ordS nm (p, w) = (r, (p', w'))" and r: "r \<noteq> Ret ()"
  proof (cases "up_to_date (applied p) nm \<or> \<not> IsReady nm")
    case True
    then show ?thesis using run r
      by (cases "up_to_date (applied p) nm") (auto simp: ensure_steps_skip ensure_steps_not_ready)
  next
    case False
    then obtain me nodes where "Snapshot ordS nm = (Some me, nodes, nm_version nm)" using Snapshot_ready by blast
    moreover have "\<not> up_to_date (applied p) nm" using False by simp
    ultimately have "act me nodes (p, w) = (r, (p', w'))"
      using run r by (auto simp: ensure_steps_run elim: commit_run)
    then show ?thesis using keeps_snd [OF keep, of me nodes "(p, w)"] by simp
  qed
qed

lemma keeps_liftW [keeps_intros]: "keeps (\<lambda>s. f (fst s)) (liftW m)"
  by (auto simp: keeps_def liftW_def split: prod.splits)

lemma keeps_getP [keeps_intros]: "keeps v getP"
  by (simp add: keeps_def getP_def)

lemma wrap_liftW:
  "wrapM msg (liftW m) (p, w) =
     (case m w of (Err e, w') \<Rightarrow> (Err (Errorf msg (Some e)), (p, w')) | (r, w') \<Rightarrow> (r, (p, w')))"
  by (auto simp: wrapM_def split: prod.splits outcome.splits)

lemma bind_liftW_Ret: "m w = (Ret x, w') \<Longrightarrow> bindM (wrapM msg (liftW m)) f (p, w) = f x (p, w')"
  by (simp add: bindM_def wrap_liftW)

section \<open>An example of a node map\<close>

definition ni_sample :: "string \<Rightarrow> byte \<Rightarrow> NodeInfo" where
  "ni_sample name n = \<lparr>ni_Name = name, ni_Address = Some [192, 168, 0, n], ni_PodCIDR = Some (pod_net n),
     ni_NetworkAvailable = True\<rparr>"

definition nm_sample :: NodeMap where
  "nm_sample = \<lparr>nm_mePredicate = (\<lambda>n. node_Name n = ''a''), nm_ready = True, nm_nodes = [(''a'', 0), (''b'', 1)],
     nm_version = 2, nm_me = Some 0, nm_heap = [ni_sample ''a'' 1, ni_sample ''b'' 2]\<rparr>"

lemma nm_sample_snapshot:
  "Snapshot rev nm_sample = (Some (ni_sample ''a'' 1), [ni_sample ''b'' 2, ni_sample ''a'' 1], 2)"
  by (simp add: Snapshot_def nm_sample_def me_of_def)

lemma nm_sample_remotes:
  "remotes (ni_sample ''a'' 1) [ni_sample ''b'' 2, ni_sample ''a'' 1] = [ni_sample ''b'' 2]"
  by (simp add: remotes_def ni_sample_def)

end
