(* ===== verification/Watchers.thy ===== *)
theory Watchers
  imports Nodes
begin

text \<open>
  The node watcher (\<^verbatim>\<open>src/pkg/watchers/nodecontroller.go\<close>): it lists the nodes, marks the node map
  ready, follows a watch from the listed version, and starts again when the watch ends.

  The API server is outside code: its calls are the fields of \<open>kube_nodes\<close>, on a world \<open>'w\<close>.  What
  \<^verbatim>\<open>select\<close> delivers inside a round (a cancelled context, a closed channel or an event) is a list
  of inputs in the order of delivery; a round whose list is used up is blocked in \<^verbatim>\<open>select\<close>.  The
  state is the shared node map, of which this goroutine is the only writer, and the world.

  \<open>node_store\<close> is what the watcher relies on of the node map; the map of theory \<open>Nodes\<close> interprets it.
\<close>

section \<open>Watch events\<close>

text \<open>\<^verbatim>\<open>watch.EventType\<close>, with the types the source tells apart.\<close>

datatype event_type = Added | Modified | Deleted | Bookmark | WatchError | OtherType string

text \<open>\<open>ev_Object\<close> is \<open>None\<close> when the object is not a \<^verbatim>\<open>corev1.Node\<close>.\<close>

record watch_event =
  ev_Type :: event_type
  ev_Object :: "k8s_node option"

datatype select_input =
    CtxDone gerr
  | ChanClosed
  | ChanEvent watch_event

text \<open>Whether a goroutine has returned, or is still running or blocked.\<close>

datatype 'a progress = Running | Returned 'a

record 'w kube_nodes =
  kn_List :: "('w, k8s_node list \<times> string) ext"
  kn_Watch :: "string \<Rightarrow> ('w, nat) ext"
  kn_Stop :: "nat \<Rightarrow> 'w \<Rightarrow> 'w"

section \<open>The controller\<close>

record 'w NodeController =
  nc_kubeClient :: "'w kube_nodes"
  nc_nodeMap :: NodeMap

definition NewNodeController :: "'w kube_nodes \<Rightarrow> NodeMap \<Rightarrow> gerr + 'w NodeController" where
  "NewNodeController kubeClient nodeMap = Inr \<lparr>nc_kubeClient = kubeClient, nc_nodeMap = nodeMap\<rparr>"

text \<open>The loop around \<^verbatim>\<open>select\<close>: what it returns (\<^verbatim>\<open>stop\<close> and the error) and the node map.\<close>

fun watch_loop :: "select_input list \<Rightarrow> NodeMap \<Rightarrow> (bool \<times> gerr option) progress outcome \<times> NodeMap" where
  "watch_loop [] m = (Ret Running, m)"
| "watch_loop (CtxDone err # ins) m = (Ret (Returned (True, Some err)), m)"
| "watch_loop (ChanClosed # ins) m = (Ret (Returned (False, None)), m)"
| "watch_loop (ChanEvent event # ins) m =
     (if ev_Type event = WatchError then
        (Ret (Returned (False, Some (Errorf ''error from watch: %v'' None))), m)
      else if ev_Type event = Bookmark then watch_loop ins m
      else case ev_Object event of
        None \<Rightarrow> (Ret (Returned (False, Some (Errorf ''object had unexpected type %T'' None))), m)
      | Some node \<Rightarrow>
          (case ev_Type event of
             Added \<Rightarrow> watch_loop ins (snd (UpdateNode node m))
           | Modified \<Rightarrow> watch_loop ins (snd (UpdateNode node m))
           | Deleted \<Rightarrow> watch_loop ins (RemoveNode node m)
           | _ \<Rightarrow> (Fatal ''unexpected type of watch event: %v'', m)))"

definition runOnce ::
  "'w kube_nodes \<Rightarrow> (string \<times> nat) order \<Rightarrow> select_input list \<Rightarrow>
   (NodeMap \<times> 'w, (bool \<times> gerr option) progress) io" where
  "runOnce kc ord ins s =
     (let (m, w) = s in
      case kn_List kc w of
        (Inl e, w1) \<Rightarrow> (Ret (Returned (False, Some (Errorf ''error listing nodes: %w'' (Some e)))), (m, w1))
      | (Inr (items, resourceVersion), w1) \<Rightarrow>
          let m1 = MarkReady (snd (ReplaceAllNodes ord items m)) in
          case kn_Watch kc resourceVersion w1 of
            (Inl e, w2) \<Rightarrow> (Ret (Returned (False, Some (Errorf ''error watching nodes: %w'' (Some e)))), (m1, w2))
          | (Inr watcher, w2) \<Rightarrow>
              (case watch_loop ins m1 of
                 (Ret (Returned r), m2) \<Rightarrow> (Ret (Returned r), (m2, kn_Stop kc watcher w2))
               | (r, m2) \<Rightarrow> (r, (m2, w2))))"

text \<open>
  The outer loop, over the rounds: for each, the order in which the runtime visits the node map and
  what \<^verbatim>\<open>select\<close> delivers.  The sleep between failed rounds has no effect on the state.
\<close>

fun runWatcher ::
  "'w kube_nodes \<Rightarrow> ((string \<times> nat) order \<times> select_input list) list \<Rightarrow> (NodeMap \<times> 'w, unit progress) io" where
  "runWatcher kc [] s = (Ret Running, s)"
| "runWatcher kc ((ord, ins) # rounds) s =
     (case runOnce kc ord ins s of
        (Ret (Returned (stop, err)), s') \<Rightarrow>
          if stop then (Ret (Returned ()), s') else runWatcher kc rounds s'
      | (Ret Running, s') \<Rightarrow> (Ret Running, s')
      | (Err e, s') \<Rightarrow> (Err e, s')
      | (Fatal msg, s') \<Rightarrow> (Fatal msg, s')
      | (Panic msg, s') \<Rightarrow> (Panic msg, s'))"

definition NodeController_Run ::
  "'w NodeController \<Rightarrow> ((string \<times> nat) order \<times> select_input list) list \<Rightarrow> 'w \<Rightarrow>
   unit progress outcome \<times> NodeMap \<times> 'w" where
  "NodeController_Run c rounds w = runWatcher (nc_kubeClient c) rounds (nc_nodeMap c, w)"

section \<open>What the server has\<close>

text \<open>The nodes on the server: what it listed, and then each event it sent.\<close>

definition listed :: "k8s_node list \<Rightarrow> string \<Rightarrow> k8s_node option" where
  "listed items name = lastNamed name items"

fun server_event :: "watch_event \<Rightarrow> (string \<Rightarrow> k8s_node option) \<Rightarrow> string \<Rightarrow> k8s_node option" where
  "server_event event S =
     (case (ev_Type event, ev_Object event) of
        (Added, Some node) \<Rightarrow> S(node_Name node \<mapsto> node)
      | (Modified, Some node) \<Rightarrow> S(node_Name node \<mapsto> node)
      | (Deleted, Some node) \<Rightarrow> S(node_Name node := None)
      | _ \<Rightarrow> S)"

text \<open>The events that carry on a watch: bookmarks, and changes of nodes.\<close>

definition ordinary :: "watch_event \<Rightarrow> bool" where
  "ordinary event \<longleftrightarrow>
     ev_Type event = Bookmark \<or> ev_Type event \<in> {Added, Modified, Deleted} \<and> ev_Object event \<noteq> None"

text \<open>
  The inputs that end a round without stopping the watcher: ordinary events, and then a closed
  channel, an error event or an object that is not a node.
\<close>

fun ends_round :: "select_input list \<Rightarrow> bool" where
  "ends_round [] \<longleftrightarrow> False"
| "ends_round (CtxDone err # ins) \<longleftrightarrow> False"
| "ends_round (ChanClosed # ins) \<longleftrightarrow> True"
| "ends_round (ChanEvent event # ins) \<longleftrightarrow>
     ev_Type event = WatchError \<or> (ev_Type event \<noteq> Bookmark \<and> ev_Object event = None) \<or>
     (ordinary event \<and> ends_round ins)"

section \<open>The interface of the node map\<close>

locale node_store =
  fixes wf :: "'m \<Rightarrow> bool"
    and look :: "'m \<Rightarrow> string \<Rightarrow> NodeInfo option"
    and update :: "k8s_node \<Rightarrow> 'm \<Rightarrow> 'm"
    and remove :: "k8s_node \<Rightarrow> 'm \<Rightarrow> 'm"
  assumes wf_update: "wf m \<Longrightarrow> wf (update node m)"
    and wf_remove: "wf m \<Longrightarrow> wf (remove node m)"
    and look_update: "wf m \<Longrightarrow> look (update node m) = (look m)(node_Name node \<mapsto> nodeView node)"
    and look_remove: "look (remove node m) = (look m)(node_Name node := None)"
begin

definition mirrors :: "'m \<Rightarrow> (string \<Rightarrow> k8s_node option) \<Rightarrow> bool" where
  "mirrors m S \<longleftrightarrow> wf m \<and> look m = (\<lambda>name. map_option nodeView (S name))"

lemma mirrors_update: "mirrors m S \<Longrightarrow> mirrors (update node m) (S(node_Name node \<mapsto> node))"
  by (auto simp: mirrors_def wf_update look_update)

lemma mirrors_remove: "mirrors m S \<Longrightarrow> mirrors (remove node m) (S(node_Name node := None))"
  by (auto simp: mirrors_def wf_remove look_remove)

end

interpretation nodes: node_store wf_NodeMap lookupNode "\<lambda>node m. snd (UpdateNode node m)" RemoveNode
proof unfold_locales
  fix m node
  show "wf_NodeMap m \<Longrightarrow> wf_NodeMap (snd (UpdateNode node m))"
    by (simp add: UpdateNode_def wf_NodeMap_updateNode)
  show "wf_NodeMap m \<Longrightarrow> wf_NodeMap (RemoveNode node m)"
    by (simp add: RemoveNode_def wf_NodeMap_removeNode)
  show "wf_NodeMap m \<Longrightarrow> lookupNode (snd (UpdateNode node m)) = (lookupNode m)(node_Name node \<mapsto> nodeView node)"
    by (simp add: UpdateNode_def lookupNode_updateNode)
  show "lookupNode (RemoveNode node m) = (lookupNode m)(node_Name node := None)"
    by (simp add: RemoveNode_def lookupNode_removeNode)
qed

section \<open>Rounds\<close>

lemma mirrors_ReplaceAllNodes:
  assumes "wf_NodeMap m" and "range_order ord"
  shows "nodes.mirrors (MarkReady (snd (ReplaceAllNodes ord items m))) (listed items)"
proof -
  let ?m = "snd (ReplaceAllNodes ord items m)"
  have "lookupNode (MarkReady ?m) = lookupNode ?m" by (simp add: MarkReady_def lookupNode_def fun_eq_iff)
  then show ?thesis
    using wf_NodeMap_MarkReady [OF wf_NodeMap_ReplaceAllNodes [OF assms(1)]] lookupNode_ReplaceAllNodes [OF assms]
    by (simp add: nodes.mirrors_def listed_def fun_eq_iff)
qed

lemma UpdateNode_ready: "IsReady (snd (UpdateNode node m)) = IsReady m"
  by (simp add: IsReady_def UpdateNode_def)

lemma RemoveNode_ready: "IsReady (RemoveNode node m) = IsReady m"
  by (simp add: IsReady_def RemoveNode_def)

lemma MarkReady_ready: "IsReady (MarkReady m)"
  by (simp add: IsReady_def MarkReady_def)

text \<open>Ordinary events are applied one by one and the loop goes on.\<close>

lemma watch_loop_ordinary:
  assumes "ordinary event"
  obtains m' where "\<And>ins. watch_loop (ChanEvent event # ins) m = watch_loop ins m'"
    "IsReady m' = IsReady m" "wf_NodeMap m \<longrightarrow> wf_NodeMap m'"
    "\<And>S. nodes.mirrors m S \<Longrightarrow> nodes.mirrors m' (server_event event S)"
proof (cases "ev_Type event = Bookmark")
  case True
  then show ?thesis by (intro that [of m]) simp_all
next
  case False
  with assms obtain node where node: "ev_Object event = Some node"
    and ty: "ev_Type event \<in> {Added, Modified, Deleted}" by (auto simp: ordinary_def)
  show ?thesis
  proof (cases "ev_Type event = Deleted")
    case True
    then show ?thesis using node nodes.mirrors_remove [of m _ node] nodes.wf_remove [of m node]
      by (intro that [of "RemoveNode node m"]) (simp_all add: RemoveNode_ready)
  next
    case False
    then show ?thesis using ty node nodes.mirrors_update [of m _ node] nodes.wf_update [of m node]
      by (intro that [of "snd (UpdateNode node m)"]) (auto simp: UpdateNode_ready)
  qed
qed

lemma watch_loop_mirrors:
  assumes "\<forall>event \<in> set events. ordinary event" and "nodes.mirrors m S"
  shows "\<exists>m'. watch_loop (map ChanEvent events) m = (Ret Running, m') \<and> IsReady m' = IsReady m \<and>
    nodes.mirrors m' (fold server_event events S)"
  using assms
proof (induction events arbitrary: m S)
  case (Cons event events)
  then obtain m' where m': "\<And>ins. watch_loop (ChanEvent event # ins) m = watch_loop ins m'"
    "IsReady m' = IsReady m" "nodes.mirrors m' (server_event event S)"
    using watch_loop_ordinary [of event m thesis] by auto
  from Cons.IH [OF _ m'(3)] Cons.prems(1) m'(1,2) show ?case by auto
qed simp

lemma watch_loop_ends:
  assumes "ends_round ins" and "wf_NodeMap m"
  shows "\<exists>err m'. watch_loop ins m = (Ret (Returned (False, err)), m') \<and> wf_NodeMap m'"
  using assms
proof (induction ins arbitrary: m rule: ends_round.induct)
  case (4 event ins)
  show ?case
  proof (cases "ordinary event \<and> ends_round ins")
    case True
    then obtain m' where "\<And>ins. watch_loop (ChanEvent event # ins) m = watch_loop ins m'" "wf_NodeMap m'"
      using watch_loop_ordinary [of event m thesis] "4.prems"(2) by auto
    then show ?thesis using "4.IH" [of m'] True by auto
  next
    case False
    then show ?thesis using "4.prems" by auto
  qed
qed simp_all

lemma runOnce_mirrors:
  assumes "wf_NodeMap m" and "range_order ord" and "kn_List kc w = (Inr (items, rv), w1)"
    and "kn_Watch kc rv w1 = (Inr watcher, w2)" and "\<forall>event \<in> set events. ordinary event"
  shows "\<exists>m'. runOnce kc ord (map ChanEvent events) (m, w) = (Ret Running, (m', w2)) \<and> IsReady m' \<and>
    nodes.mirrors m' (fold server_event events (listed items))"
proof -
  obtain m' where "watch_loop (map ChanEvent events) (MarkReady (snd (ReplaceAllNodes ord items m))) = (Ret Running, m')"
    "IsReady m'" "nodes.mirrors m' (fold server_event events (listed items))"
    using watch_loop_mirrors [OF assms(5) mirrors_ReplaceAllNodes [OF assms(1,2)]] by (auto simp: MarkReady_ready)
  then show ?thesis by (simp add: runOnce_def assms(3,4) Let_def)
qed

text \<open>A round that ends so, or whose list or watch fails, leads to the next round.\<close>

lemma runOnce_ends:
  assumes "ends_round ins" and "wf_NodeMap m"
  shows "\<exists>err m' w'. runOnce kc ord ins (m, w) = (Ret (Returned (False, err)), (m', w')) \<and> wf_NodeMap m'"
proof (cases "kn_List kc w")
  case (Pair r w1)
  show ?thesis
  proof (cases r)
    case (Inl e)
    then show ?thesis using Pair assms(2) by (simp add: runOnce_def)
  next
    case (Inr l)
    obtain items rv where l: "l = (items, rv)" by (cases l)
    let ?m = "MarkReady (snd (ReplaceAllNodes ord items m))"
    have wf: "wf_NodeMap ?m" by (intro wf_NodeMap_MarkReady wf_NodeMap_ReplaceAllNodes assms(2))
    show ?thesis
    proof (cases "kn_Watch kc rv w1")
      case (Pair r2 w2)
      obtain err m' where "watch_loop ins ?m = (Ret (Returned (False, err)), m')" "wf_NodeMap m'"
        using watch_loop_ends [OF assms(1) wf] by blast
      then show ?thesis using wf \<open>kn_List kc w = (r, w1)\<close> Inr l Pair
        by (cases r2) (simp_all add: runOnce_def Let_def)
    qed
  qed
qed

lemma runWatcher_ends:
  assumes "\<forall>(ord, ins) \<in> set failed. ends_round ins" and "wf_NodeMap m"
  shows "\<exists>m' w'. runWatcher kc failed (m, w) = (Ret Running, (m', w')) \<and> wf_NodeMap m' \<and>
    (\<forall>rounds. runWatcher kc (failed @ rounds) (m, w) = runWatcher kc rounds (m', w'))"
  using assms
proof (induction failed arbitrary: m w)
  case (Cons round failed)
  obtain ord ins where round: "round = (ord, ins)" by (cases round)
  then obtain err m1 w1 where "runOnce kc ord ins (m, w) = (Ret (Returned (False, err)), (m1, w1))" "wf_NodeMap m1"
    using runOnce_ends [of ins m kc ord w] Cons.prems by auto
  moreover from Cons.IH [OF _ this(2), of w1] Cons.prems(1) round obtain m' w' where
    "runWatcher kc failed (m1, w1) = (Ret Running, (m', w'))" "wf_NodeMap m'"
    "\<forall>rounds. runWatcher kc (failed @ rounds) (m1, w1) = runWatcher kc rounds (m', w')" by auto
  ultimately show ?case by (simp add: round)
qed simp

text \<open>Events that do not delete the local node keep its pointer.\<close>

definition keeps_node :: "string \<Rightarrow> watch_event \<Rightarrow> bool" where
  "keeps_node self event \<longleftrightarrow> \<not> (ev_Type event = Deleted \<and> map_option node_Name (ev_Object event) = Some self)"

lemma watch_loop_me_named:
  assumes "\<forall>event \<in> set events. ordinary event \<and> keeps_node self event" and "wf_NodeMap m" and "me_named self m"
  shows "me_named self (snd (watch_loop (map ChanEvent events) m))"
  using assms
proof (induction events arbitrary: m)
  case (Cons event events)
  show ?case
  proof (cases "ev_Type event = Bookmark")
    case True
    then show ?thesis using Cons by simp
  next
    case False
    with Cons.prems(1) obtain node where node: "ev_Object event = Some node"
      and ty: "ev_Type event \<in> {Added, Modified, Deleted}" by (auto simp: ordinary_def)
    show ?thesis
    proof (cases "ev_Type event = Deleted")
      case True
      then have "me_named self (RemoveNode node m)"
        using Cons.prems node by (simp add: keeps_node_def RemoveNode_def me_named_removeNode)
      then show ?thesis using Cons True node nodes.wf_remove by simp
    next
      case False
      have "me_named self (snd (UpdateNode node m))" using Cons.prems by (simp add: UpdateNode_def me_named_updateNode)
      then show ?thesis using Cons False ty node nodes.wf_update by auto
    qed
  qed
qed simp

lemma runOnce_me_named:
  assumes "wf_NodeMap m" and "me_named self m" and "kn_List kc w = (Inr (items, rv), w1)"
    and "kn_Watch kc rv w1 = (Inr watcher, w2)" and "self \<in> node_Name ` set items"
    and "\<forall>event \<in> set events. ordinary event \<and> keeps_node self event"
    and "runOnce kc ord (map ChanEvent events) (m, w) = (r, (m', w'))"
  shows "me_named self m'"
proof -
  let ?m = "MarkReady (snd (ReplaceAllNodes ord items m))"
  have "wf_NodeMap ?m" by (intro wf_NodeMap_MarkReady wf_NodeMap_ReplaceAllNodes assms(1))
  moreover have "me_named self ?m" using me_named_ReplaceAllNodes [OF assms(1,2,5)] by (simp add: me_named_MarkReady)
  ultimately have "me_named self (snd (watch_loop (map ChanEvent events) ?m))" using watch_loop_me_named assms(6) by blast
  moreover have "m' = snd (watch_loop (map ChanEvent events) ?m)"
    using assms(7) by (auto simp: runOnce_def assms(3,4) Let_def split: prod.splits outcome.splits progress.splits)
  ultimately show ?thesis by simp
qed

section \<open>Properties\<close>

text \<open>A server with two nodes that answers every call, used to run the model.\<close>

definition kube_sample :: "nat kube_nodes" where
  "kube_sample = \<lparr>kn_List = (\<lambda>w. (Inr ([node_a, node_b], ''7''), w)),
     kn_Watch = (\<lambda>rv w. (Inr 0, w + 1)), kn_Stop = (\<lambda>h w. w - 1)\<rparr>"

text \<open>While the watch is on, the node map is ready and holds exactly the view of the nodes
  that the server has: those it listed, changed by every event it sent since then; nothing that the
  map held before the list survives it.  The round does not end.\<close>

lemma runOnce_follows_server:
  assumes "wf_NodeMap m" and "range_order ord" and "kn_List kc w = (Inr (items, rv), w1)"
    and "kn_Watch kc rv w1 = (Inr watcher, w2)" and "\<forall>event \<in> set events. ordinary event"
  shows "\<exists>m'. runOnce kc ord (map ChanEvent events) (m, w) = (Ret Running, (m', w2)) \<and>
    wf_NodeMap m' \<and> IsReady m' \<and>
    (\<forall>name. lookupNode m' name = map_option nodeView (fold server_event events (listed items) name))"
  using runOnce_mirrors [OF assms] by (auto simp: nodes.mirrors_def)

lemma runOnce_follows_server_example:
  "\<exists>m'. runOnce kube_sample rev
      [ChanEvent \<lparr>ev_Type = Bookmark, ev_Object = None\<rparr>, ChanEvent \<lparr>ev_Type = Deleted, ev_Object = Some node_b\<rparr>]
      (NewNodeMap (named ''a''), 0) = (Ret Running, (m', 1)) \<and> IsReady m' \<and>
     lookupNode m' ''a'' = Some (nodeView node_a) \<and> lookupNode m' ''b'' = None"
proof -
  let ?events = "[\<lparr>ev_Type = Bookmark, ev_Object = None\<rparr>, \<lparr>ev_Type = Deleted, ev_Object = Some node_b\<rparr>]"
  have srv: "kn_List kube_sample 0 = (Inr ([node_a, node_b], ''7''), 0)" "kn_Watch kube_sample ''7'' 0 = (Inr 0, 1)"
    by (simp_all add: kube_sample_def)
  have "\<forall>event \<in> set ?events. ordinary event" by (simp add: ordinary_def)
  from runOnce_follows_server [OF wf_NodeMap_NewNodeMap range_order_rev srv this, of "named ''a''"] obtain m' where run: "runOnce kube_sample rev (map ChanEvent ?events) (NewNodeMap (named ''a''), 0) = (Ret Running, (m', 1))"
    and "IsReady m'"
    and look: "\<forall>name. lookupNode m' name = map_option nodeView (fold server_event ?events (listed [node_a, node_b]) name)"
    by blast
  moreover have "lookupNode m' ''a'' = Some (nodeView node_a)" "lookupNode m' ''b'' = None"
    by (simp_all add: look listed_def lastNamed_def)
  ultimately show ?thesis by auto
qed

text \<open>C8: The watcher recovers: after any number of rounds that ended (a failed list or watch, a
  closed channel, an error event, an object of an unexpected type) it is still running, and the next
  round in which the server answers brings the node map to what the server has.\<close>

theorem runWatcher_recovers:
  assumes "wf_NodeMap m" and "\<forall>(ord, ins) \<in> set failed. ends_round ins"
    and "runWatcher kc failed (m, w) = (r, (m0, w0))"
    and "range_order ord" and "kn_List kc w0 = (Inr (items, rv), w1)"
    and "kn_Watch kc rv w1 = (Inr watcher, w2)" and "\<forall>event \<in> set events. ordinary event"
  shows "r = Ret Running \<and>
    (\<exists>m'. runWatcher kc (failed @ [(ord, map ChanEvent events)]) (m, w) = (Ret Running, (m', w2)) \<and> IsReady m' \<and>
      (\<forall>name. lookupNode m' name = map_option nodeView (fold server_event events (listed items) name)))"
proof -
  have "r = Ret Running" "wf_NodeMap m0"
    and run: "runWatcher kc (failed @ [(ord, map ChanEvent events)]) (m, w) = runWatcher kc [(ord, map ChanEvent events)] (m0, w0)"
    using runWatcher_ends [OF assms(2,1), of kc w] assms(3) by auto
  then obtain m' where "runOnce kc ord (map ChanEvent events) (m0, w0) = (Ret Running, (m', w2))" "IsReady m'"
    "nodes.mirrors m' (fold server_event events (listed items))"
    using runOnce_mirrors [OF _ assms(4-7)] by blast
  then show ?thesis using \<open>r = Ret Running\<close> run by (auto simp: nodes.mirrors_def)
qed

theorem runWatcher_recovers_witness:
  "\<exists>m'. runWatcher kube_sample
      [(rev, [ChanEvent \<lparr>ev_Type = Deleted, ev_Object = Some node_a\<rparr>, ChanClosed]), (rev, [])]
      (NewNodeMap (named ''a''), 0) = (Ret Running, (m', 1)) \<and>
     lookupNode m' ''a'' = Some (nodeView node_a)"
proof -
  let ?failed = "[(rev, [ChanEvent \<lparr>ev_Type = Deleted, ev_Object = Some node_a\<rparr>, ChanClosed])]"
  let ?m = "NewNodeMap (named ''a'')"
  have fin: "snd (snd (runWatcher kube_sample ?failed (?m, 0))) = 0"
    by (simp add: runOnce_def kube_sample_def Let_def)
  obtain r m0 w0 where run: "runWatcher kube_sample ?failed (?m, 0) = (r, (m0, w0))" by (metis prod.collapse)
  with fin have w0: "w0 = 0" by simp
  have ends: "\<forall>(ord, ins) \<in> set ?failed. ends_round ins" by (simp add: ordinary_def)
  have srv: "kn_List kube_sample w0 = (Inr ([node_a, node_b], ''7''), 0)" "kn_Watch kube_sample ''7'' 0 = (Inr 0, 1)"
    by (simp_all add: kube_sample_def w0)
  from runWatcher_recovers [OF wf_NodeMap_NewNodeMap ends run range_order_rev srv, of "[]"]
  show ?thesis by (auto simp: listed_def lastNamed_def)
qed

end
