(* ===== verification/Routing_Controller.thy ===== *)
theory Routing_Controller
  imports Provider Watchers
begin

text \<open>
  The routing controller (\<^verbatim>\<open>src/pkg/routing/providercontroller.go\<close>): it waits until the node map is
  ready and then, again and again, has the provider apply the node map, writes the CNI
  configuration and reports the local node's network as available.

  The node watcher changes the node map between any two reads of it, so an iteration takes what each
  read observes: the map that \<^verbatim>\<open>EnsureCIDRs\<close> is given and the map at the two places where the field
  \<^verbatim>\<open>me\<close> is read.  The provider and the CNI writer are fields of the controller, as in the code; the
  contract of the provider is \<open>routing_provider\<close>.  The API client (\<^verbatim>\<open>PatchStatus\<close>), the clock and the
  JSON encoding of a condition are outside code.  Sleeping has no effect on the state.
\<close>

section \<open>Node conditions\<close>

record NodeCondition =
  cond_Type :: string
  cond_Status :: string
  cond_LastHeartbeatTime :: int
  cond_LastTransitionTime :: int
  cond_Reason :: string
  cond_Message :: string

text \<open>The outside code: the encoding of \<^verbatim>\<open>{"status": {"conditions": [...]}}\<close>, the clock, the API.\<close>

record 'w kube_status =
  ks_Marshal :: "NodeCondition list \<Rightarrow> gerr + string"
  ks_Now :: "'w \<Rightarrow> int \<times> 'w"
  ks_PatchStatus :: "string \<Rightarrow> string \<Rightarrow> ('w, unit) ext"

definition nowM :: "'w kube_status \<Rightarrow> ('w, int) io" where
  "nowM c w = (case ks_Now c w of (t, w') \<Rightarrow> (Ret t, w'))"

definition setNodeCondition :: "'w kube_status \<Rightarrow> string \<Rightarrow> NodeCondition \<Rightarrow> ('w, unit) io" where
  "setNodeCondition c node condition =
     bindM (nowM c) (\<lambda>now.
       case ks_Marshal c [condition\<lparr>cond_LastHeartbeatTime := now\<rparr>] of
         Inl err \<Rightarrow> throwM err
       | Inr patch \<Rightarrow> callM (ks_PatchStatus c node patch))"

section \<open>The controller\<close>

record ('p, 'w) Controller =
  rc_provider :: "NodeMap \<Rightarrow> ('p \<times> 'w, unit) io"
  rc_kubeClient :: "'w kube_status"
  rc_cniConfigWriter :: "(ipnet option \<Rightarrow> ('w, unit) io) option"

definition NewController ::
  "'w kube_status \<Rightarrow> (NodeMap \<Rightarrow> ('p \<times> 'w, unit) io) \<Rightarrow> (ipnet option \<Rightarrow> ('w, unit) io) option \<Rightarrow>
   gerr + ('p, 'w) Controller" where
  "NewController kubeClient provider cniConfigWriter =
     Inr \<lparr>rc_provider = provider, rc_kubeClient = kubeClient, rc_cniConfigWriter = cniConfigWriter\<rparr>"

text \<open>What the reads of one iteration observe.\<close>

record observation =
  ob_ctxErr :: "gerr option"
  ob_ensure :: NodeMap
  ob_cni :: NodeMap
  ob_condition :: NodeMap

definition available_condition :: "int \<Rightarrow> NodeCondition" where
  "available_condition currentTime =
     \<lparr>cond_Type = ''NetworkUnavailable'', cond_Status = ''False'', cond_LastHeartbeatTime = 0,
      cond_LastTransitionTime = currentTime, cond_Reason = ''RouteCreated'',
      cond_Message = ''kope.io network controller initialized node routes''\<rparr>"

definition write_cni :: "('p, 'w) Controller \<Rightarrow> NodeMap \<Rightarrow> ('w, unit) io" where
  "write_cni c nm =
     (case (rc_cniConfigWriter c, me_of nm) of
        (Some WriteCNIConfig, Some me) \<Rightarrow> WriteCNIConfig (ni_PodCIDR me)
      | _ \<Rightarrow> retM ())"

definition mark_available :: "('p, 'w) Controller \<Rightarrow> NodeMap \<Rightarrow> ('w, unit) io" where
  "mark_available c nm =
     (case me_of nm of
        None \<Rightarrow> retM ()
      | Some me \<Rightarrow>
          if ni_NetworkAvailable me then retM ()
          else bindM (nowM (rc_kubeClient c)) (\<lambda>currentTime.
                 tryM (setNodeCondition (rc_kubeClient c) (ni_Name me) (available_condition currentTime))
                   (\<lambda>err. retM ()) retM))"

text \<open>One iteration of the loop: the error to return, or \<open>None\<close> to go on.\<close>

definition controller_iteration :: "('p, 'w) Controller \<Rightarrow> observation \<Rightarrow> ('p \<times> 'w, gerr option) io" where
  "controller_iteration c ob =
     (case ob_ctxErr ob of
        Some err \<Rightarrow> retM (Some err)
      | None \<Rightarrow>
          tryM (rc_provider c (ob_ensure ob)) (\<lambda>err. retM None) (\<lambda>_.
            tryM (liftW (write_cni c (ob_cni ob))) (\<lambda>err. retM None) (\<lambda>_.
              bindM (liftW (mark_available c (ob_condition ob))) (\<lambda>_. retM None))))"

fun controller_loop :: "('p, 'w) Controller \<Rightarrow> observation list \<Rightarrow> ('p \<times> 'w, gerr progress) io" where
  "controller_loop c [] = retM Running"
| "controller_loop c (ob # obs) =
     bindM (controller_iteration c ob) (\<lambda>r.
       case r of Some err \<Rightarrow> retM (Returned err) | None \<Rightarrow> controller_loop c obs)"

text \<open>The loop that waits for the node map, over what each \<^verbatim>\<open>IsReady\<close> observes, and then the main loop.\<close>

fun controller_runWatcher ::
  "('p, 'w) Controller \<Rightarrow> NodeMap list \<Rightarrow> observation list \<Rightarrow> ('p \<times> 'w, gerr progress) io" where
  "controller_runWatcher c [] obs = retM Running"
| "controller_runWatcher c (nm # nms) obs =
     (if IsReady nm then controller_loop c obs else controller_runWatcher c nms obs)"

definition Controller_Run ::
  "('p, 'w) Controller \<Rightarrow> NodeMap list \<Rightarrow> observation list \<Rightarrow> ('p \<times> 'w, gerr progress) io" where
  "Controller_Run c nms obs = controller_runWatcher c nms obs"

section \<open>Marking the node\<close>

lemma keeps_nowM: "(\<And>w. v (snd (ks_Now c w)) = v w) \<Longrightarrow> keeps v (nowM c)"
  by (auto simp: keeps_def nowM_def split: prod.splits) (metis snd_conv)

lemma mark_available_quiet: "fst (mark_available c nm w) = Ret ()"
  by (auto simp: mark_available_def bindM_def nowM_def tryM_def setNodeCondition_def callM_def
      split: option.splits prod.splits sum.splits outcome.splits)

lemma mark_available_patch:
  assumes "me_of nm = Some me" and "\<not> ni_NetworkAvailable me"
    and "ks_Now (rc_kubeClient c) w = (t1, w1)" and "ks_Now (rc_kubeClient c) w1 = (t2, w2)"
    and "ks_Marshal (rc_kubeClient c) [available_condition t1\<lparr>cond_LastHeartbeatTime := t2\<rparr>] = Inr patch"
  shows "snd (mark_available c nm w) = snd (ks_PatchStatus (rc_kubeClient c) (ni_Name me) patch w2)"
  using assms
  by (auto simp: mark_available_def setNodeCondition_def bindM_def nowM_def tryM_def callM_def
      split: prod.splits sum.splits)

text \<open>The condition that is sent is read back as an available network.\<close>

lemma available_condition_read:
  "conditions_available [(cond_Type (available_condition t), cond_Status (available_condition t))]"
  by (simp add: conditions_available_def available_condition_def)

section \<open>Iterations\<close>

lemma mark_available_run: "\<exists>w'. mark_available c nm w = (Ret (), w')"
  using mark_available_quiet [of c nm w] by (cases "mark_available c nm w") simp

lemma iteration_ensured:
  assumes "ob_ctxErr ob = None" and "rc_provider c (ob_ensure ob) s = (Ret (), (p1, w1))"
    and "write_cni c (ob_cni ob) w1 = (Ret (), w2)"
  shows "controller_iteration c ob s = (Ret None, (p1, snd (mark_available c (ob_condition ob) w2)))"
proof -
  obtain w3 where "mark_available c (ob_condition ob) w2 = (Ret (), w3)"
    using mark_available_run [of c "ob_condition ob" w2] by blast
  then show ?thesis using assms by (simp add: controller_iteration_def tryM_def bindM_def)
qed

text \<open>The iterations in which the provider or the CNI writer reports an error: the loop goes on.\<close>

definition iteration_fails :: "('p, 'w) Controller \<Rightarrow> observation \<Rightarrow> 'p \<times> 'w \<Rightarrow> bool" where
  "iteration_fails c ob s \<longleftrightarrow> ob_ctxErr ob = None \<and>
     (case rc_provider c (ob_ensure ob) s of
        (Err e, s') \<Rightarrow> True
      | (Ret _, s') \<Rightarrow> (\<exists>e w'. write_cni c (ob_cni ob) (snd s') = (Err e, w'))
      | _ \<Rightarrow> False)"

lemma iteration_fails_next:
  assumes "iteration_fails c ob s"
  shows "\<exists>s'. controller_iteration c ob s = (Ret None, s')"
proof -
  obtain r s1 where run: "rc_provider c (ob_ensure ob) s = (r, s1)" by (cases "rc_provider c (ob_ensure ob) s")
  from assms run consider (ensure) e where "r = Err e"
    | (cni) u e w' where "r = Ret u" "write_cni c (ob_cni ob) (snd s1) = (Err e, w')"
    by (cases r) (auto simp: iteration_fails_def)
  then show ?thesis
  proof cases
    case ensure
    then show ?thesis using assms run by (simp add: iteration_fails_def controller_iteration_def tryM_def)
  next
    case cni
    then show ?thesis using assms run
      by (cases s1) (simp add: iteration_fails_def controller_iteration_def tryM_def)
  qed
qed

text \<open>A run of iterations that fail, one after the other.\<close>

fun failing_run :: "('p, 'w) Controller \<Rightarrow> observation list \<Rightarrow> 'p \<times> 'w \<Rightarrow> bool" where
  "failing_run c [] s \<longleftrightarrow> True"
| "failing_run c (ob # obs) s \<longleftrightarrow>
     iteration_fails c ob s \<and> failing_run c obs (snd (controller_iteration c ob s))"

lemma failing_run_next:
  assumes "failing_run c obs s"
  shows "\<exists>s'. controller_loop c obs s = (Ret Running, s') \<and>
    (\<forall>rest. controller_loop c (obs @ rest) s = controller_loop c rest s')"
  using assms
proof (induction obs arbitrary: s)
  case (Cons ob obs)
  then obtain s1 where "controller_iteration c ob s = (Ret None, s1)" using iteration_fails_next [of c ob s] by auto
  moreover from this Cons.prems have "failing_run c obs s1" by simp
  from Cons.IH [OF this] obtain s' where "controller_loop c obs s1 = (Ret Running, s')"
    "\<forall>rest. controller_loop c (obs @ rest) s1 = controller_loop c rest s'" by blast
  ultimately show ?case by (simp add: bindM_def)
qed simp

text \<open>
  What an iteration changes in a part of the world that only \<^verbatim>\<open>PatchStatus\<close> touches: nothing unless
  the provider and the CNI writer have succeeded and the local node is reported as unavailable.
\<close>

lemma iteration_changes:
  assumes ensure: "\<And>nm. keeps (\<lambda>s. v (snd s)) (rc_provider c nm)"
    and cni: "\<And>nm. keeps v (write_cni c nm)"
    and run: "controller_iteration c ob s = (r, s')" and changed: "v (snd s') \<noteq> v (snd s)"
  shows "\<exists>p1 w1 w2 me. rc_provider c (ob_ensure ob) s = (Ret (), (p1, w1)) \<and>
    write_cni c (ob_cni ob) w1 = (Ret (), w2) \<and> fst s' = p1 \<and>
    me_of (ob_condition ob) = Some me \<and> \<not> ni_NetworkAvailable me"
proof -
  have ctx: "ob_ctxErr ob = None" using run changed by (auto simp: controller_iteration_def split: option.splits)
  obtain re p1 w1 where e: "rc_provider c (ob_ensure ob) s = (re, (p1, w1))"
    by (cases "rc_provider c (ob_ensure ob) s") auto
  have v1: "v w1 = v (snd s)" using keeps_snd [OF ensure, of "ob_ensure ob" s] e by simp
  obtain rw w2 where w: "write_cni c (ob_cni ob) w1 = (rw, w2)" by (cases "write_cni c (ob_cni ob) w1")
  have v2: "v w2 = v w1" using keeps_snd [OF cni, of "ob_cni ob" w1] w by simp
  have re: "re = Ret ()"
    using run changed ctx e v1 by (cases re) (auto simp: controller_iteration_def tryM_def)
  have rw: "rw = Ret ()"
    using run changed ctx e re v1 w v2 by (cases rw) (auto simp: controller_iteration_def tryM_def)
  have s': "s' = (p1, snd (mark_available c (ob_condition ob) w2))"
    using iteration_ensured [OF ctx e [unfolded re] w [unfolded rw]] run by simp
  have "\<exists>me. me_of (ob_condition ob) = Some me \<and> \<not> ni_NetworkAvailable me"
  proof (rule ccontr)
    assume "\<not> ?thesis"
    then have "mark_available c (ob_condition ob) w2 = (Ret (), w2)"
      by (auto simp: mark_available_def split: option.splits)
    then show False using changed s' v1 v2 by simp
  qed
  then show ?thesis using e re w rw s' by auto
qed

context routing_provider
begin

text \<open>With the contract of the provider: the version it has applied is the one it was given.\<close>

lemma marked_after_commit:
  assumes "rc_provider c = ensure" and "IsReady (ob_ensure ob)"
    and "\<And>nm. keeps (\<lambda>s. v (snd s)) (ensure nm)" and "\<And>nm. keeps v (write_cni c nm)"
    and "controller_iteration c ob s = (r, s')" and "v (snd s') \<noteq> v (snd s)"
  shows "applied (fst s') = nm_version (ob_ensure ob)"
proof -
  obtain p1 w1 where "ensure (ob_ensure ob) s = (Ret (), (p1, w1))" "fst s' = p1"
    using iteration_changes [of v c, OF _ assms(4-6)] assms(1,3) by auto
  then show ?thesis using ensure_commit [of "ob_ensure ob" "fst s" "snd s" p1 w1] assms(2) by simp
qed

end

section \<open>The whole run\<close>

lemma runWatcher_ready: "\<exists>nm \<in> set nms. IsReady nm \<Longrightarrow> controller_runWatcher c nms obs = controller_loop c obs"
  by (induction nms) auto

lemma runWatcher_waits: "\<forall>nm \<in> set nms. \<not> IsReady nm \<Longrightarrow> controller_runWatcher c nms obs s = (Ret Running, s)"
  by (induction nms) auto

section \<open>Properties\<close>

text \<open>
  A controller to run the model with: a provider made of the shared steps of \<^verbatim>\<open>EnsureCIDRs\<close> with
  nothing to do on the kernel, no CNI writer, and an API server that keeps the patches it is sent.
\<close>

definition rc_sample :: "(64 word, (string \<times> string) list) Controller" where
  "rc_sample =
     \<lparr>rc_provider = ensure_steps (\<lambda>p. p) (\<lambda>v p. v) (\<lambda>me nodes. retM ()) rev,
      rc_kubeClient =
        \<lparr>ks_Marshal = (\<lambda>cs. Inr (concat (map cond_Status cs))), ks_Now = (\<lambda>w. (5, w)),
         ks_PatchStatus = (\<lambda>node patch w. (Inr (), (node, patch) # w))\<rparr>,
      rc_cniConfigWriter = None\<rparr>"

definition nm_unavailable :: NodeMap where
  "nm_unavailable = nm_sample\<lparr>nm_heap := [(ni_sample ''a'' 1)\<lparr>ni_NetworkAvailable := False\<rparr>, ni_sample ''b'' 2]\<rparr>"

definition ob_sample :: observation where
  "ob_sample = \<lparr>ob_ctxErr = None, ob_ensure = nm_unavailable, ob_cni = nm_unavailable, ob_condition = nm_unavailable\<rparr>"

lemma ob_sample_simps [simp]:
  "ob_ctxErr ob_sample = None" "ob_ensure ob_sample = nm_unavailable" "ob_cni ob_sample = nm_unavailable"
  "ob_condition ob_sample = nm_unavailable"
  by (simp_all add: ob_sample_def)

lemma nm_unavailable_simps:
  "IsReady nm_unavailable" "nm_version nm_unavailable = 2"
  "me_of nm_unavailable = Some ((ni_sample ''a'' 1)\<lparr>ni_NetworkAvailable := False\<rparr>)"
  by (simp_all add: nm_unavailable_def nm_sample_def IsReady_def me_of_def)

lemma rc_sample_ensure: "rc_provider rc_sample nm_unavailable (0, w) = (Ret (), (2, w))"
  using Snapshot_ready [OF nm_unavailable_simps(1), of rev]
  by (auto simp: rc_sample_def ensure_steps_def up_to_date_def nm_unavailable_simps)

lemma rc_sample_cni: "write_cni rc_sample nm = retM ()"
  by (simp add: write_cni_def rc_sample_def)

lemma rc_sample_iteration: "controller_iteration rc_sample ob_sample (0, []) = (Ret None, (2, [(''a'', ''False'')]))"
proof -
  have "snd (mark_available rc_sample nm_unavailable []) = [(''a'', ''False'')]"
    using mark_available_patch [OF nm_unavailable_simps(3), of rc_sample "[]" 5 "[]" 5 "[]" "''False''"]
    by (simp add: rc_sample_def available_condition_def ni_sample_def)
  then show ?thesis
    using iteration_ensured [of ob_sample rc_sample "(0, [])" 2 "[]" "[]"] rc_sample_ensure [of "[]"]
    by (simp add: rc_sample_cni)
qed

text \<open>C11: The local node is reported as having a network only after its network is there: an
  iteration that changes anything that only \<^verbatim>\<open>PatchStatus\<close> touches has seen \<^verbatim>\<open>EnsureCIDRs\<close> succeed, so
  that the version the provider has applied is the one it was given, has seen the CNI configuration
  written (when there is a writer and the local node is known), and found the local node unavailable.\<close>

theorem controller_marks_after_routes:
  assumes "routing_provider (rc_provider c) applied"
    and "\<forall>nm. keeps (\<lambda>s. v (snd s)) (rc_provider c nm)" and "\<forall>nm. keeps v (write_cni c nm)"
    and "IsReady (ob_ensure ob)" and "controller_iteration c ob s = (r, s')" and "v (snd s') \<noteq> v (snd s)"
  shows "applied (fst s') = nm_version (ob_ensure ob) \<and>
    (\<exists>p1 w1 w2 me. rc_provider c (ob_ensure ob) s = (Ret (), (p1, w1)) \<and>
       write_cni c (ob_cni ob) w1 = (Ret (), w2) \<and>
       me_of (ob_condition ob) = Some me \<and> \<not> ni_NetworkAvailable me)"
proof -
  from assms(2,3) have keep: "\<And>nm. keeps (\<lambda>s. v (snd s)) (rc_provider c nm)" "\<And>nm. keeps v (write_cni c nm)" by auto
  show ?thesis
    using routing_provider.marked_after_commit [OF assms(1) refl assms(4) keep assms(5,6)]
      iteration_changes [OF keep assms(5,6)] by blast
qed

theorem controller_marks_after_routes_witness:
  "fst (snd (controller_iteration rc_sample ob_sample (0, []))) = nm_version nm_unavailable"
proof -
  have rp: "routing_provider (rc_provider rc_sample) (\<lambda>p. p)"
    using routing_provider_steps [of "\<lambda>p. p" "\<lambda>me nodes. retM ()" "\<lambda>v p. v" rev]
    by (simp add: rc_sample_def keeps_intros)
  have k: "\<forall>nm. keeps (\<lambda>s. snd s) (rc_provider rc_sample nm)"
    by (auto simp: rc_sample_def keeps_def ensure_steps_def bindM_def getP_def putP_def split: prod.splits option.splits)
  have w: "\<forall>nm. keeps (\<lambda>w. w) (write_cni rc_sample nm)"
    by (simp add: rc_sample_cni keeps_intros)
  show ?thesis
    using controller_marks_after_routes [OF rp, of "\<lambda>w. w" ob_sample "(0, [])" "Ret None" "(2, [(''a'', ''False'')])"] k w
    by (simp add: rc_sample_iteration nm_unavailable_simps)
qed

text \<open>C12: The controller gets there: once the node map has been seen ready, and after any number of
  iterations in which the provider or the CNI writer failed, it is still running; the next iteration in
  which both succeed and the local node is unavailable sends the API server the condition of the
  local node, which the node map reads as an available network, and the loop goes on.\<close>

theorem controller_recovers:
  assumes "\<exists>nm \<in> set nms. IsReady nm" and "failing_run c failed s"
    and "Controller_Run c nms failed s = (r, (p0, w0))"
    and "ob_ctxErr ob = None" and "rc_provider c (ob_ensure ob) (p0, w0) = (Ret (), (p1, w1))"
    and "write_cni c (ob_cni ob) w1 = (Ret (), w2)"
    and "me_of (ob_condition ob) = Some me" and "\<not> ni_NetworkAvailable me"
    and "ks_Now (rc_kubeClient c) w2 = (t1, w3)" and "ks_Now (rc_kubeClient c) w3 = (t2, w4)"
    and "ks_Marshal (rc_kubeClient c) [available_condition t1\<lparr>cond_LastHeartbeatTime := t2\<rparr>] = Inr patch"
  shows "r = Ret Running \<and>
    Controller_Run c nms (failed @ [ob]) s =
      (Ret Running, (p1, snd (ks_PatchStatus (rc_kubeClient c) (ni_Name me) patch w4))) \<and>
    conditions_available [(cond_Type (available_condition t1), cond_Status (available_condition t1))]"
proof -
  have loop: "Controller_Run c nms obs = controller_loop c obs" for obs
    by (simp add: Controller_Run_def runWatcher_ready [OF assms(1)])
  have r: "r = Ret Running" and rest: "controller_loop c (failed @ rest) s = controller_loop c rest (p0, w0)" for rest
    using failing_run_next [OF assms(2)] assms(3) unfolding loop by auto
  have "controller_iteration c ob (p0, w0) =
      (Ret None, (p1, snd (ks_PatchStatus (rc_kubeClient c) (ni_Name me) patch w4)))"
    using iteration_ensured [OF assms(4-6)] mark_available_patch [OF assms(7-11)] by simp
  then show ?thesis using r by (simp add: loop rest bindM_def available_condition_read)
qed

theorem controller_recovers_witness:
  "Controller_Run rc_sample [NewNodeMap (\<lambda>n. False), nm_unavailable]
     [ob_sample\<lparr>ob_ensure := NewNodeMap (\<lambda>n. False)\<rparr>, ob_sample] (0, []) =
   (Ret Running, (2, [(''a'', ''False'')]))"
proof -
  let ?nm = "NewNodeMap (\<lambda>n. False)" and ?nms = "[NewNodeMap (\<lambda>n. False), nm_unavailable]"
  let ?bad = "ob_sample\<lparr>ob_ensure := NewNodeMap (\<lambda>n. False)\<rparr>"
  have err: "rc_provider rc_sample ?nm (0, []) = (Err no_local_node, (0, []))"
    by (simp add: rc_sample_def ensure_steps_def up_to_date_def Snapshot_def NewNodeMap_def)
  have it: "controller_iteration rc_sample ?bad (0, []) = (Ret None, (0, []))"
    by (simp add: controller_iteration_def tryM_def err)
  have ready: "\<exists>nm \<in> set ?nms. IsReady nm" by (simp add: nm_unavailable_simps)
  have fails: "failing_run rc_sample [?bad] (0, [])" by (simp add: iteration_fails_def err)
  have run: "Controller_Run rc_sample ?nms [?bad] (0, []) = (Ret Running, (0, []))"
    by (simp add: Controller_Run_def runWatcher_ready [OF ready] bindM_def it del: controller_runWatcher.simps)
  have "snd (ks_PatchStatus (rc_kubeClient rc_sample) ''a'' ''False'' []) = [(''a'', ''False'')]"
    by (simp add: rc_sample_def)
  moreover have "rc_provider rc_sample (ob_ensure ob_sample) (0, []) = (Ret (), (2, []))"
    "write_cni rc_sample (ob_cni ob_sample) [] = (Ret (), [])"
    by (simp_all add: rc_sample_ensure rc_sample_cni)
  ultimately show ?thesis
    using controller_recovers [OF ready fails run, of ob_sample 2 "[]" "[]" "(ni_sample ''a'' 1)\<lparr>ni_NetworkAvailable := False\<rparr>" 5 "[]" 5 "[]" "''False''"]
    by (simp add: nm_unavailable_simps ni_sample_def rc_sample_def available_condition_def)
qed

end
