(* ===== verification/Net_Helpers.thy ===== *)
theory Net_Helpers
  imports Netlink
begin

text \<open>
  The comparisons of \<^verbatim>\<open>src/pkg/routing/netutil/helpers.go\<close>, and the interface that every
  table of \<^verbatim>\<open>src/pkg/routing/netutil\<close> relies on when it compares the kernel's entries with
  the expected ones: a comparison that is an equivalence (\<open>equality_check\<close>) and that
  respects the key the entries are indexed by (\<open>keyed_equality\<close>).  Each table interprets
  these locales with its own comparison and key.
\<close>

definition ipEqual :: "ip \<Rightarrow> ip \<Rightarrow> bool" where
  "ipEqual a e =
     (if a = None then e = None
      else if e = None then a = None
      else IP_Equal a e)"

definition ipnetEqual :: "ipnet option \<Rightarrow> ipnet option \<Rightarrow> bool" where
  "ipnetEqual a e =
     (case a of
        None \<Rightarrow> e = None
      | Some a' \<Rightarrow>
          (case e of
             None \<Rightarrow> False
           | Some e' \<Rightarrow>
               if ipn_Mask a' \<noteq> ipn_Mask e' then False
               else if \<not> ipEqual (ipn_IP a') (ipn_IP e') then False
               else True))"

section \<open>Differences between two lists of entries\<close>

text \<open>
  The reference for the loops that compare the entries \<open>am\<close> of the kernel with the expected
  ones \<open>es\<close>: the expected entries to be created, the existing ones that differ from the
  expected one of the same key, and the existing ones whose key is not expected.
\<close>

definition diff_missing :: "('a \<Rightarrow> 'a \<Rightarrow> bool) \<Rightarrow> ('a \<Rightarrow> 'k option) \<Rightarrow> ('k, 'a) gomap \<Rightarrow> 'a \<Rightarrow> bool" where
  "diff_missing eq key am e =
     (case key e of None \<Rightarrow> False
      | Some k \<Rightarrow> (case map_of am k of None \<Rightarrow> True | Some a \<Rightarrow> \<not> eq a e))"

definition diff_stale ::
  "('a \<Rightarrow> 'a \<Rightarrow> bool) \<Rightarrow> ('a \<Rightarrow> 'k option) \<Rightarrow> ('k, 'a) gomap \<Rightarrow> 'a list \<Rightarrow> 'a list"
where
  "diff_stale eq key am es =
     List.map_filter (\<lambda>e. case key e of None \<Rightarrow> None
       | Some k \<Rightarrow> (case map_of am k of None \<Rightarrow> None | Some a \<Rightarrow> if eq a e then None else Some a)) es"

definition diff_extra :: "('a \<Rightarrow> 'k option) \<Rightarrow> 'a list \<Rightarrow> ('k, 'a) gomap \<Rightarrow> 'a list" where
  "diff_extra key es am = map snd (filter (\<lambda>(k, a). \<forall>e \<in> set es. key e \<noteq> Some k) am)"

lemma diff_stale_Nil [simp]: "diff_stale eq key am [] = []"
  by (simp add: diff_stale_def map_filter_def)

lemma diff_stale_Cons:
  "diff_stale eq key am (e # es) =
     (case key e of None \<Rightarrow> []
      | Some k \<Rightarrow> (case map_of am k of None \<Rightarrow> [] | Some a \<Rightarrow> if eq a e then [] else [a]))
     @ diff_stale eq key am es"
  by (simp add: diff_stale_def map_filter_def split: option.splits)

lemma in_diff_stale:
  "a \<in> set (diff_stale eq key am es) \<longleftrightarrow>
     (\<exists>e \<in> set es. \<exists>k. key e = Some k \<and> map_of am k = Some a \<and> \<not> eq a e)"
proof (induction es)
  case (Cons e es)
  then show ?case by (cases "key e"; cases "map_of am (the (key e))") (auto simp: diff_stale_Cons)
qed simp


lemma diff_stale_same:
  assumes "\<And>e k a. e \<in> set es \<Longrightarrow> key e = Some k \<Longrightarrow> map_of am k = Some a \<Longrightarrow> eq a e"
  shows "diff_stale eq key am es = []"
proof -
  have "a \<notin> set (diff_stale eq key am es)" for a using assms by (auto simp: in_diff_stale)
  then show ?thesis by (metis list.exhaust list.set_intros(1))
qed

lemma in_diff_extra:
  "a \<in> set (diff_extra key es am) \<longleftrightarrow> (\<exists>k. (k, a) \<in> set am \<and> (\<forall>e \<in> set es. key e \<noteq> Some k))"
  by (force simp: diff_extra_def)

lemma mset_diff_extra:
  assumes "range_order ord"
  shows "mset (diff_extra key es (ord am)) = mset (diff_extra key es am)"
proof -
  have "mset (ord am) = mset am" using assms by (simp add: range_order_def)
  then show ?thesis by (simp add: diff_extra_def)
qed

lemma set_diff_extra: "range_order ord \<Longrightarrow> set (diff_extra key es (ord am)) = set (diff_extra key es am)"
  by (metis mset_diff_extra set_mset_mset)

lemma distinct_diff_extra:
  "range_order ord \<Longrightarrow> distinct (xs @ diff_extra key es (ord am)) = distinct (xs @ diff_extra key es am)"
  using mset_eq_imp_distinct_iff [OF mset_diff_extra, of ord key es am] by (simp add: set_diff_extra)

section \<open>The interface of a comparison\<close>

locale equality_check =
  fixes eq :: "'a \<Rightarrow> 'a \<Rightarrow> bool"
  assumes eq_refl: "eq a a"
    and eq_sym: "eq a e \<Longrightarrow> eq e a"
    and eq_trans: "eq a b \<Longrightarrow> eq b c \<Longrightarrow> eq a c"
begin

lemma equivp_eq: "equivp eq"
  by (rule equivpI) (auto simp: reflp_def symp_def transp_def intro: eq_refl eq_sym eq_trans)

lemma eq_replace: "eq a b \<Longrightarrow> eq a c = eq b c"
  using eq_sym eq_trans by blast

lemma list_all2_eq_refl: "list_all2 eq xs xs"
  by (simp add: list.rel_refl eq_refl)

lemma list_all2_eq_sym: "list_all2 eq xs ys \<Longrightarrow> list_all2 eq ys xs"
  by (induction rule: list_all2_induct) (auto intro: eq_sym)

lemma list_all2_eq_trans: "list_all2 eq xs ys \<Longrightarrow> list_all2 eq ys zs \<Longrightarrow> list_all2 eq xs zs"
  by (rule list_all2_trans) (auto intro: eq_trans)

end

locale keyed_equality = equality_check eq for eq :: "'a \<Rightarrow> 'a \<Rightarrow> bool" +
  fixes key :: "'a \<Rightarrow> 'k option"
  assumes eq_key: "eq a e \<Longrightarrow> key a = key e"
begin

text \<open>
  A list of entries that agrees with the expected ones: each expected entry is there, up to
  the comparison, and the lookup by key finds it.
\<close>

lemma lookup_agreeing:
  assumes "distinct_on key as" and "a \<in> set as" and "eq a e" and "key e = Some k"
  shows "map_of (indexBy key as) k = Some a"
  using assms eq_key indexBy_distinct_on by metis

lemma lookup_missing:
  "key e \<noteq> None \<Longrightarrow> map_of (indexBy key T) (the (key e)) = None \<longleftrightarrow> (\<forall>x \<in> set T. key x \<noteq> key e)"
  unfolding indexBy_None_iff by (metis option.collapse)

lemma lookup_differs:
  assumes T: "distinct_on key T" and e: "key e \<noteq> None"
  shows "(case map_of (indexBy key T) (the (key e)) of None \<Rightarrow> False | Some a \<Rightarrow> \<not> eq a e) \<longleftrightarrow>
    (\<exists>x \<in> set T. key x = key e \<and> \<not> eq x e)"
proof (cases "map_of (indexBy key T) (the (key e))")
  case None
  then show ?thesis using lookup_missing [OF e, of T] by auto
next
  case (Some a)
  have e': "key e = Some (the (key e))" using e by simp
  then have uniq: "x = a" if "x \<in> set T" "key x = key e" for x
    using indexBy_distinct_on [OF T that(1)] that(2) Some by simp
  have "a \<in> set T" "key a = key e" using indexBy_SomeD [OF Some] e' by simp_all
  then have "(\<exists>x \<in> set T. key x = key e \<and> \<not> eq x e) \<longleftrightarrow> \<not> eq a e" using uniq by blast
  then show ?thesis by (simp only: Some option.case)
qed

lemma distinct_on_list_all2:
  assumes "list_all2 eq as es" and "distinct_on key es"
  shows "distinct_on key as"
proof -
  have "map key as = map key es"
    using assms(1) by (induction rule: list_all2_induct) (auto dest: eq_key)
  then show ?thesis using assms(2) by (simp add: distinct_on_def)
qed

text \<open>
  The difference between the entries that exist (\<open>T\<close>, looked up in \<open>am\<close>) and the expected ones:
  what has to be created, what exists with other attributes, and what is not expected at all.
\<close>

lemma set_missing:
  assumes T: "distinct_on key T" and keys: "\<forall>e \<in> set es. key e \<noteq> None"
  shows "set (filter (diff_missing eq key (indexBy key T)) es) = {e \<in> set es. \<not> (\<exists>a \<in> set T. eq a e)}"
proof -
  have "diff_missing eq key (indexBy key T) e \<longleftrightarrow> \<not> (\<exists>a \<in> set T. eq a e)" if e: "e \<in> set es" for e
  proof -
    obtain k where k: "key e = Some k" using keys e by blast
    have found: "map_of (indexBy key T) k = Some a" if "a \<in> set T" "eq a e" for a
      using lookup_agreeing [OF T that k] .
    show ?thesis
    proof (cases "map_of (indexBy key T) k")
      case None
      then have "\<not> (\<exists>a \<in> set T. eq a e)" using found by auto
      then show ?thesis using None by (simp add: diff_missing_def k)
    next
      case (Some a)
      then have "b = a" if "b \<in> set T" "eq b e" for b using found [OF that] by simp
      then have "(\<exists>b \<in> set T. eq b e) \<longleftrightarrow> eq a e" using indexBy_SomeD [OF Some] by blast
      then show ?thesis using Some by (simp add: diff_missing_def k)
    qed
  qed
  then show ?thesis by auto
qed

lemma stale_no_match:
  assumes T: "distinct_on key T" and es: "distinct_on key es"
    and a: "map_of (indexBy key T) k = Some a" and e: "e \<in> set es" "key e = Some k" "\<not> eq a e"
  shows "a \<in> set T \<and> key a \<noteq> None \<and> \<not> (\<exists>e \<in> set es. eq a e)"
proof -
  have "a \<in> set T" and k: "key a = Some k" using indexBy_SomeD [OF a] by auto
  moreover have "\<not> eq a e'" if "e' \<in> set es" for e'
  proof
    assume "eq a e'"
    then have "key e' = Some k" using eq_key [of a e'] k by simp
    then have "e' = e" using distinct_onD [OF es that e(1)] e(2) by simp
    then show False using \<open>eq a e'\<close> e(3) by simp
  qed
  ultimately show ?thesis by auto
qed

lemma set_stale_extra:
  assumes T: "distinct_on key T" and es: "distinct_on key es"
  shows "set (diff_stale eq key (indexBy key T) es @ diff_extra key es (indexBy key T)) =
     {a \<in> set T. key a \<noteq> None \<and> \<not> (\<exists>e \<in> set es. eq a e)}" (is "?L = ?R")
proof
  show "?L \<subseteq> ?R"
  proof
    fix a assume "a \<in> ?L"
    then consider e k where "e \<in> set es" "key e = Some k" "map_of (indexBy key T) k = Some a" "\<not> eq a e"
      | k where "map_of (indexBy key T) k = Some a" "\<forall>e \<in> set es. key e \<noteq> Some k"
      by (auto simp: in_diff_stale in_diff_extra in_set_indexBy)
    then show "a \<in> ?R"
    proof cases
      case 1
      then show ?thesis using stale_no_match [OF T es 1(3,1,2,4)] by simp
    next
      case 2
      then have a: "a \<in> set T" "key a = Some k" using indexBy_SomeD [OF 2(1)] by simp_all
      have "\<not> eq a e" if "e \<in> set es" for e
        using 2(2) that eq_key [of a e] a(2) by fastforce
      then show ?thesis using a by simp
    qed
  qed
next
  show "?R \<subseteq> ?L"
  proof
    fix a assume a: "a \<in> ?R"
    then obtain k where k: "key a = Some k" by (cases "key a") auto
    have m: "map_of (indexBy key T) k = Some a" using a by (intro indexBy_distinct_on [OF T _ k]) simp
    show "a \<in> ?L"
    proof (cases "\<exists>e \<in> set es. key e = Some k")
      case True
      then show ?thesis using a m by (auto simp: in_diff_stale)
    next
      case False
      then show ?thesis using m by (auto simp: in_diff_extra in_set_indexBy)
    qed
  qed
qed

lemma distinct_stale:
  assumes "distinct_on key es"
  shows "distinct (diff_stale eq key (indexBy key T) es)"
  using assms
proof (induction es)
  case (Cons e es)
  let ?am = "indexBy key T"
  have IH: "distinct (diff_stale eq key ?am es)" using Cons by (simp add: distinct_on_Cons)
  have "a \<notin> set (diff_stale eq key ?am es)" if a: "key e = Some k" "map_of ?am k = Some a" for a k
  proof
    assume "a \<in> set (diff_stale eq key ?am es)"
    then obtain e' k' where "e' \<in> set es" "key e' = Some k'" "map_of ?am k' = Some a"
      by (auto simp: in_diff_stale)
    moreover from this have "k' = k" using a(2) indexBy_SomeD by (metis option.inject)
    ultimately show False using Cons.prems a(1) by (auto simp: distinct_on_Cons image_iff)
  qed
  then show ?case using IH by (auto simp: diff_stale_Cons split: option.splits)
qed simp

lemma distinct_extra: "distinct (diff_extra key es (indexBy key T))"
proof -
  have "distinct (filter P (indexBy key T))" for P
    using distinct_keys_indexBy [of key T] by (auto simp: distinct_keys_def distinct_map)
  moreover have "inj_on snd (set (filter P (indexBy key T)))" for P
  proof (rule inj_onI)
    fix x y assume "x \<in> set (filter P (indexBy key T))" "y \<in> set (filter P (indexBy key T))" "snd x = snd y"
    moreover obtain k a where "x = (k, a)" by (cases x)
    moreover obtain k' b where "y = (k', b)" by (cases y)
    ultimately have "b = a" "map_of (indexBy key T) k = Some a" "map_of (indexBy key T) k' = Some a"
      by (auto simp: in_set_indexBy)
    then have "b = a" "key a = Some k" "key a = Some k'"
      using indexBy_SomeD [of key T k a] indexBy_SomeD [of key T k' a] by simp_all
    then show "x = y" using \<open>x = (k, a)\<close> \<open>y = (k', b)\<close> by simp
  qed
  ultimately show ?thesis by (simp add: diff_extra_def distinct_map)
qed

lemma distinct_stale_extra:
  assumes "distinct_on key es"
  shows "distinct (diff_stale eq key (indexBy key T) es @ diff_extra key es (indexBy key T))"
proof -
  have False if stale: "a \<in> set (diff_stale eq key (indexBy key T) es)"
    and extra: "a \<in> set (diff_extra key es (indexBy key T))" for a
  proof -
    obtain e k where e: "e \<in> set es" "key e = Some k" "map_of (indexBy key T) k = Some a"
      using stale by (auto simp: in_diff_stale)
    obtain k' where k': "map_of (indexBy key T) k' = Some a" "\<forall>e \<in> set es. key e \<noteq> Some k'"
      using extra by (auto simp: in_diff_extra in_set_indexBy)
    have "k = k'" using indexBy_SomeD [OF e(3)] indexBy_SomeD [OF k'(1)] by simp
    then show False using e k' by auto
  qed
  then show ?thesis using distinct_stale [OF assms] distinct_extra by auto
qed

end

section \<open>The helpers are such comparisons\<close>

lemma ipEqual_refl [simp]: "ipEqual a a"
  by (simp add: ipEqual_def)

lemma ipEqual_iff: "ipEqual a e \<longleftrightarrow> (a = None \<longleftrightarrow> e = None) \<and> IP_Equal a e"
  by (auto simp: ipEqual_def)

lemma ipEqual_sym: "ipEqual a e \<Longrightarrow> ipEqual e a"
  by (simp add: ipEqual_iff IP_Equal_iff)

lemma ipEqual_trans: "ipEqual a b \<Longrightarrow> ipEqual b c \<Longrightarrow> ipEqual a c"
  by (simp add: ipEqual_iff IP_Equal_iff)

lemma ipEqual_IP_Equal: "ipEqual a e \<Longrightarrow> IP_Equal a e"
  by (simp add: ipEqual_iff)

lemma ipEqual_length16:
  "length a = length e \<Longrightarrow> ipEqual (Some a) (Some e) \<longleftrightarrow> a = e"
  by (simp add: ipEqual_def IP_Equal_same_length)

lemma ipnetEqual_iff:
  "ipnetEqual a e \<longleftrightarrow>
     (a = None \<and> e = None) \<or>
     (\<exists>a' e'. a = Some a' \<and> e = Some e' \<and> ipn_Mask a' = ipn_Mask e' \<and> ipEqual (ipn_IP a') (ipn_IP e'))"
  by (auto simp: ipnetEqual_def split: option.splits if_splits)

lemma ipnetEqual_refl [simp]: "ipnetEqual a a"
  by (cases a) (simp_all add: ipnetEqual_iff)

lemma ipnetEqual_sym: "ipnetEqual a e \<Longrightarrow> ipnetEqual e a"
  unfolding ipnetEqual_iff using ipEqual_sym by metis

lemma ipnetEqual_trans: "ipnetEqual a b \<Longrightarrow> ipnetEqual b c \<Longrightarrow> ipnetEqual a c"
  unfolding ipnetEqual_iff using ipEqual_trans by fastforce

text \<open>Equal networks have the same text, so they have the same key.\<close>

lemma ipnetEqual_String: "ipnetEqual a e \<Longrightarrow> IPNet_String a = IPNet_String e"
proof (cases "a = None \<or> e = None")
  case True
  then show "ipnetEqual a e \<Longrightarrow> ?thesis" by (auto simp: ipnetEqual_iff)
next
  case False
  then obtain a' e' where [simp]: "a = Some a'" "e = Some e'" by auto
  assume "ipnetEqual a e"
  then have "networkNumberAndMask a' = networkNumberAndMask e'"
    by (auto simp: ipnetEqual_iff intro: networkNumberAndMask_cong dest: ipEqual_IP_Equal)
  then show ?thesis by (simp add: IPNet_String_def)
qed

lemma ipnetEqual_None: "ipnetEqual a e \<Longrightarrow> a = None \<longleftrightarrow> e = None"
  by (auto simp: ipnetEqual_iff)

interpretation ip_eq: equality_check ipEqual
  by unfold_locales (simp, erule ipEqual_sym, erule (1) ipEqual_trans)

definition ipnet_key :: "ipnet option \<Rightarrow> string option" where
  "ipnet_key n = (case n of None \<Rightarrow> None | Some _ \<Rightarrow> Some (IPNet_String n))"

lemma ipnetEqual_key: "ipnetEqual a e \<Longrightarrow> ipnet_key a = ipnet_key e"
  using ipnetEqual_String [of a e] ipnetEqual_None [of a e]
  by (auto simp: ipnet_key_def split: option.splits)

interpretation ipnet_eq: keyed_equality ipnetEqual ipnet_key
  by unfold_locales
    (simp, erule ipnetEqual_sym, erule (1) ipnetEqual_trans, erule ipnetEqual_key)

end
