(* ===== verification/Kernel_Tables.thy ===== *)
theory Kernel_Tables
  imports Net_Helpers
begin

text \<open>
  What the kernel documents of a table that can be listed, added to and deleted from, stated
  once for every table the program maintains.  \<open>tbl w\<close> is the table in the state \<open>w\<close>,
  \<open>clash\<close> says which entries exclude each other, and \<open>eq\<close> is the comparison up to which an
  entry that was added is listed again.  The lemmas follow a loop of additions, replacements or
  deletions through such a table.
\<close>

definition adds_entry ::
  "('w \<Rightarrow> 'a list) \<Rightarrow> ('a \<Rightarrow> bool) \<Rightarrow> ('a \<Rightarrow> 'a \<Rightarrow> bool) \<Rightarrow> ('a \<Rightarrow> 'a \<Rightarrow> bool) \<Rightarrow> ('a \<Rightarrow> ('w, unit) ext) \<Rightarrow> bool"
where
  "adds_entry tbl accept clash eq add \<longleftrightarrow>
     (\<forall>r w. accept r \<and> (\<forall>x \<in> set (tbl w). \<not> clash x r) \<longrightarrow>
        (\<exists>w' r'. add r w = (Inr (), w') \<and> eq r' r \<and> tbl w' = tbl w @ [r']))"

definition refuses_clash ::
  "('w \<Rightarrow> 'a list) \<Rightarrow> ('a \<Rightarrow> 'a \<Rightarrow> bool) \<Rightarrow> ('a \<Rightarrow> ('w, unit) ext) \<Rightarrow> bool"
where
  "refuses_clash tbl clash add \<longleftrightarrow>
     (\<forall>r w. (\<exists>x \<in> set (tbl w). clash x r) \<longrightarrow> (\<exists>e w'. add r w = (Inl e, w') \<and> tbl w' = tbl w))"

definition dels_entry :: "('w \<Rightarrow> 'a list) \<Rightarrow> ('a \<Rightarrow> ('w, unit) ext) \<Rightarrow> bool" where
  "dels_entry tbl del \<longleftrightarrow>
     (\<forall>r w. r \<in> set (tbl w) \<longrightarrow> (\<exists>w'. del r w = (Inr (), w') \<and> tbl w' = removeAll r (tbl w)))"

text \<open>An addition that replaces what it clashes with.\<close>

definition sets_entry ::
  "('w \<Rightarrow> 'a list) \<Rightarrow> ('a \<Rightarrow> bool) \<Rightarrow> ('a \<Rightarrow> 'a \<Rightarrow> bool) \<Rightarrow> ('a \<Rightarrow> 'a \<Rightarrow> bool) \<Rightarrow> ('a \<Rightarrow> ('w, unit) ext) \<Rightarrow> bool"
where
  "sets_entry tbl accept clash eq st \<longleftrightarrow>
     (\<forall>r w. accept r \<longrightarrow>
        (\<exists>w' r'. st r w = (Inr (), w') \<and> eq r' r \<and> tbl w' = filter (\<lambda>x. \<not> clash x r) (tbl w) @ [r']))"

section \<open>The kernel's tables\<close>

text \<open>
  What identifies an entry of each table: destination, TOS and priority of a route (in the
  main table); the link and the address of a neighbour, or the link and the hardware address of
  an entry of a bridge's forwarding database; the network of an address of a link; destination,
  SPI and protocol of a security association; direction and selector of a policy.
\<close>

abbreviation hw_bytes :: "byte list option \<Rightarrow> byte list" where
  "hw_bytes h \<equiv> (case h of None \<Rightarrow> [] | Some bs \<Rightarrow> bs)"

definition route_clash :: "route \<Rightarrow> route \<Rightarrow> bool" where
  "route_clash a b \<longleftrightarrow>
     rt_Dst a \<noteq> None \<and> ipnet_key (rt_Dst a) = ipnet_key (rt_Dst b) \<and>
     rt_Tos a = rt_Tos b \<and> rt_Priority a = rt_Priority b"

definition neigh_clash :: "neigh \<Rightarrow> neigh \<Rightarrow> bool" where
  "neigh_clash a b \<longleftrightarrow> ng_LinkIndex a = ng_LinkIndex b \<and>
     (ng_Family a = AF_BRIDGE \<longleftrightarrow> ng_Family b = AF_BRIDGE) \<and>
     (if ng_Family a = AF_BRIDGE then hw_bytes (ng_HardwareAddr a) = hw_bytes (ng_HardwareAddr b)
      else IP_Equal (ng_IP a) (ng_IP b))"

definition addr_clash :: "addr \<Rightarrow> addr \<Rightarrow> bool" where
  "addr_clash a b \<longleftrightarrow> ad_IPNet a \<noteq> None \<and> ipnet_key (ad_IPNet a) = ipnet_key (ad_IPNet b)"

definition state_clash :: "xfrmState \<Rightarrow> xfrmState \<Rightarrow> bool" where
  "state_clash a b \<longleftrightarrow> xs_Spi a = xs_Spi b \<and> xs_Proto a = xs_Proto b \<and> IP_Equal (xs_Dst a) (xs_Dst b)"

definition policy_clash :: "xfrmPolicy \<Rightarrow> xfrmPolicy \<Rightarrow> bool" where
  "policy_clash a b \<longleftrightarrow>
     xp_Dir a = xp_Dir b \<and> xp_SrcPort a = xp_SrcPort b \<and> xp_DstPort a = xp_DstPort b \<and>
     xp_Proto a = xp_Proto b \<and> ipnetEqual (xp_Dst a) (xp_Dst b) \<and> ipnetEqual (xp_Src a) (xp_Src b)"

section \<open>Loops over a table\<close>

lemma forM_call_Cons:
  "f r w = (Inr (), w1) \<Longrightarrow>
   forM (\<lambda>r. wrapM msg (callM (f r))) (r # rs) w = forM (\<lambda>r. wrapM msg (callM (f r))) rs w1"
  by (simp add: bindM_Ret wrapM_Ret callM_Inr)

lemma forM_adds:
  assumes add: "adds_entry tbl accept clash eq add"
    and cong: "\<And>a b r. eq a b \<Longrightarrow> clash a r = clash b r"
    and "\<forall>r \<in> set rs. accept r"
    and "\<forall>x \<in> set (tbl w). \<forall>r \<in> set rs. \<not> clash x r"
    and "sorted_wrt (\<lambda>a b. \<not> clash a b) rs"
  shows "\<exists>w' rs'. forM (\<lambda>r. wrapM msg (callM (add r))) rs w = (Ret (), w') \<and>
    list_all2 eq rs' rs \<and> tbl w' = tbl w @ rs'"
  using assms(3-)
proof (induction rs arbitrary: w)
  case Nil
  then show ?case by simp
next
  case (Cons r rs)
  obtain w1 r' where 1: "add r w = (Inr (), w1)" "eq r' r" "tbl w1 = tbl w @ [r']"
    using add Cons.prems unfolding adds_entry_def by (metis list.set_intros(1))
  have "\<forall>x \<in> set (tbl w1). \<forall>s \<in> set rs. \<not> clash x s"
    using Cons.prems 1 cong [OF 1(2)] by auto
  then obtain w' rs' where "forM (\<lambda>r. wrapM msg (callM (add r))) rs w1 = (Ret (), w')"
    "list_all2 eq rs' rs" "tbl w' = tbl w1 @ rs'" using Cons.IH [of w1] Cons.prems by auto
  then show ?case using 1
    by (intro exI [of _ w'] exI [of _ "r' # rs'"]) (simp add: forM_call_Cons del: forM.simps)
qed

text \<open>
  An entry that clashes with one that is already there makes the loop of additions fail, and the
  entry that is there survives.
\<close>

lemma forM_adds_clash:
  assumes add: "adds_entry tbl accept clash eq add" and refuse: "refuses_clash tbl clash add"
    and acc: "\<forall>r \<in> set rs. accept r" and e: "e \<in> set rs" and a: "a \<in> set (tbl w)" "clash a e"
  shows "\<exists>err w'. forM (\<lambda>r. wrapM msg (callM (add r))) rs w = (Err err, w') \<and> a \<in> set (tbl w')"
  using acc e a(1)
proof (induction rs arbitrary: w)
  case (Cons r rs)
  show ?case
  proof (cases "\<exists>x \<in> set (tbl w). clash x r")
    case True
    then obtain err w1 where "add r w = (Inl err, w1)" "tbl w1 = tbl w"
      using refuse unfolding refuses_clash_def by metis
    then show ?thesis using Cons.prems by (simp add: bind_call_Inl)
  next
    case False
    then have "e \<in> set rs" using Cons.prems a(2) by auto
    moreover obtain w1 r' where "add r w = (Inr (), w1)" "tbl w1 = tbl w @ [r']"
      using False add Cons.prems(1) unfolding adds_entry_def by (metis list.set_intros(1))
    ultimately show ?thesis using Cons.IH [of w1] Cons.prems by (simp add: bind_call_Inr)
  qed
qed simp

lemma forM_dels:
  assumes del: "dels_entry tbl del" and "distinct rs" and "set rs \<subseteq> set (tbl w)"
  shows "\<exists>w'. forM (\<lambda>r. wrapM msg (callM (del r))) rs w = (Ret (), w') \<and>
    tbl w' = filter (\<lambda>x. x \<notin> set rs) (tbl w)"
  using assms(2-)
proof (induction rs arbitrary: w)
  case Nil
  then show ?case by simp
next
  case (Cons r rs)
  obtain w1 where 1: "del r w = (Inr (), w1)" "tbl w1 = removeAll r (tbl w)"
    using del Cons.prems unfolding dels_entry_def by (metis list.set_intros(1) subsetD)
  have "set rs \<subseteq> set (tbl w1)" using Cons.prems 1 by auto
  then obtain w' where "forM (\<lambda>r. wrapM msg (callM (del r))) rs w1 = (Ret (), w')"
    "tbl w' = filter (\<lambda>x. x \<notin> set rs) (tbl w1)" using Cons.IH [of w1] Cons.prems by auto
  moreover have "filter (\<lambda>x. x \<notin> set rs) (removeAll r xs) = filter (\<lambda>x. x \<notin> set (r # rs)) xs" for xs
    by (induction xs) auto
  ultimately show ?case using 1
    by (intro exI [of _ w']) (simp add: forM_call_Cons del: forM.simps)
qed

text \<open>
  A loop of replacements.  Later entries do not undo earlier ones, because the entries that are
  set do not clash with one another.
\<close>

lemma forM_sets:
  assumes set: "sets_entry tbl accept clash eq st"
    and cong: "\<And>a b r. eq a b \<Longrightarrow> clash a r = clash b r"
    and "\<forall>r \<in> set rs. accept r"
    and "sorted_wrt (\<lambda>a b. \<not> clash a b) rs"
  shows "\<exists>w' rs'. forM (\<lambda>r. wrapM msg (callM (st r))) rs w = (Ret (), w') \<and>
    list_all2 eq rs' rs \<and> tbl w' = filter (\<lambda>x. \<forall>r \<in> set rs. \<not> clash x r) (tbl w) @ rs'"
  using assms(3-)
proof (induction rs arbitrary: w)
  case Nil
  then show ?case by simp
next
  case (Cons r rs)
  obtain w1 r' where 1: "st r w = (Inr (), w1)" "eq r' r"
    "tbl w1 = filter (\<lambda>x. \<not> clash x r) (tbl w) @ [r']"
    using set Cons.prems unfolding sets_entry_def by (metis list.set_intros(1))
  have "\<forall>s \<in> set rs. \<not> clash r' s" using Cons.prems cong [OF 1(2)] by auto
  moreover obtain w' rs' where "forM (\<lambda>r. wrapM msg (callM (st r))) rs w1 = (Ret (), w')"
    "list_all2 eq rs' rs" "tbl w' = filter (\<lambda>x. \<forall>r \<in> set rs. \<not> clash x r) (tbl w1) @ rs'"
    using Cons.IH [of w1] Cons.prems by auto
  ultimately show ?case using 1
    by (intro exI [of _ w'] exI [of _ "r' # rs'"]) (simp add: forM_call_Cons del: forM.simps)
qed

lemma list_all2_set2: "list_all2 P xs ys \<Longrightarrow> y \<in> set ys \<Longrightarrow> \<exists>x \<in> set xs. P x y"
  by (induction rule: list_all2_induct) auto

lemma list_all2_set1: "list_all2 P xs ys \<Longrightarrow> x \<in> set xs \<Longrightarrow> \<exists>y \<in> set ys. P x y"
  by (induction rule: list_all2_induct) auto

text \<open>Entries with distinct keys do not clash, when a clash needs a common key.\<close>

lemma sorted_wrt_no_clash:
  assumes "distinct_on key es" and "\<And>a b. clash a b \<Longrightarrow> key a \<noteq> None \<and> key a = key b"
  shows "sorted_wrt (\<lambda>a b. \<not> clash a b) es"
  using assms(1)
proof (induction es)
  case (Cons e es)
  then show ?case using assms(2) [of e] by (auto simp: distinct_on_Cons image_iff)
qed simp

lemma distinct_on_filter: "distinct_on key xs \<Longrightarrow> distinct_on key (filter P xs)"
  by (induction xs) (auto simp: distinct_on_Cons)

section \<open>The table that is aimed at\<close>

text \<open>
  \<open>installed eq key mine es T\<close>: the entries of \<open>T\<close> that are managed and have a key are, up to the
  comparison, the expected ones, and no two of them have the same key.
\<close>

definition installed ::
  "('a \<Rightarrow> 'a \<Rightarrow> bool) \<Rightarrow> ('a \<Rightarrow> 'k option) \<Rightarrow> ('a \<Rightarrow> bool) \<Rightarrow> 'a list \<Rightarrow> 'a list \<Rightarrow> bool"
where
  "installed eq key mine es T \<longleftrightarrow>
     (\<forall>e \<in> set es. \<exists>r \<in> set T. mine r \<and> eq r e) \<and>
     (\<forall>r \<in> set T. mine r \<and> key r \<noteq> None \<longrightarrow> (\<exists>e \<in> set es. eq r e)) \<and>
     distinct_on key (filter mine T)"

lemma installed_distinct: "installed eq key (\<lambda>_. True) es T \<Longrightarrow> distinct_on key T"
  by (simp add: installed_def)

context keyed_equality
begin

text \<open>What is kept does not exclude what is created.\<close>

lemma kept_created_keys:
  assumes es: "distinct_on key es" "\<forall>e \<in> set es. key e \<noteq> None"
    and x: "x \<in> set T" "mine x" "e \<in> set es" "eq x e"
    and c: "c \<in> set es" "\<not> (\<exists>a \<in> set (filter mine T). eq a c)"
  shows "key x \<noteq> key c"
proof
  assume "key x = key c"
  then have "key e = key c" using eq_key [OF x(4)] by simp
  moreover obtain k where "key c = Some k" using es(2) c(1) by blast
  ultimately have "e = c" using distinct_onD [OF es(1) x(3) c(1)] by simp
  then show False using x c(2) by auto
qed

lemma replaced_installed:
  assumes es: "distinct_on key es" "\<forall>e \<in> set es. key e \<noteq> None"
    and T: "distinct_on key (filter mine T)"
    and mine: "\<And>a b. eq a b \<Longrightarrow> mine a = mine b" "\<forall>e \<in> set es. mine e"
    and R: "R = {a \<in> set (filter mine T). key a \<noteq> None \<and> \<not> (\<exists>e \<in> set es. eq a e)}"
    and C: "set C = {e \<in> set es. \<not> (\<exists>a \<in> set (filter mine T). eq a e)}" "distinct_on key C"
    and rs: "list_all2 eq rs C"
  shows "installed eq key mine es (filter (\<lambda>x. x \<notin> R) T @ rs)"
  unfolding installed_def
proof (intro conjI ballI impI)
  have inC: "\<exists>c \<in> set C. eq r c" if "r \<in> set rs" for r using list_all2_set1 [OF rs that] .
  fix e assume e: "e \<in> set es"
  show "\<exists>r \<in> set (filter (\<lambda>x. x \<notin> R) T @ rs). mine r \<and> eq r e"
  proof (cases "e \<in> set C")
    case True
    then obtain r where "r \<in> set rs" "eq r e" using list_all2_set2 [OF rs] by blast
    then show ?thesis using mine e by auto
  next
    case False
    then obtain a where "a \<in> set T" "mine a" "eq a e" using C e by auto
    moreover from this have "a \<notin> R" using R e by auto
    ultimately show ?thesis by auto
  qed
next
  fix r assume "r \<in> set (filter (\<lambda>x. x \<notin> R) T @ rs)" and "mine r \<and> key r \<noteq> None"
  then show "\<exists>e \<in> set es. eq r e" using R C list_all2_set1 [OF rs, of r] by auto
next
  have "distinct_on key rs" using distinct_on_list_all2 [OF rs C(2)] .
  moreover have "key x \<noteq> key r" if x: "x \<in> set T" "x \<notin> R" "mine x" "key x \<noteq> None" and r: "r \<in> set rs" for x r
  proof -
    obtain e where "e \<in> set es" "eq x e" using R x by auto
    moreover obtain c where "c \<in> set es" "\<not> (\<exists>a \<in> set (filter mine T). eq a c)" "eq r c"
      using list_all2_set1 [OF rs r] C by auto
    ultimately show ?thesis using kept_created_keys [of es x T mine e c] es x eq_key [of r c] by auto
  qed
  moreover have "filter mine rs = rs"
  proof -
    have "mine r" if "r \<in> set rs" for r
      using list_all2_set1 [OF rs that] mine(1) [of r] mine(2) C(1) by blast
    then show ?thesis by (simp add: filter_id_conv)
  qed
  moreover have "distinct_on key (filter mine (filter (\<lambda>x. x \<notin> R) T))"
    using distinct_on_filter [OF T, of "\<lambda>x. x \<notin> R"] by (simp add: conj_commute)
  ultimately show "distinct_on key (filter mine (filter (\<lambda>x. x \<notin> R) T @ rs))"
    by (auto simp: distinct_on_append)
qed

text \<open>The entries that are not managed stay.\<close>

lemma replaced_frame:
  assumes mine: "\<And>a b. eq a b \<Longrightarrow> mine a = mine b"
    and es: "\<forall>e \<in> set es. mine e \<and> key e \<noteq> None"
    and R: "\<forall>a \<in> R. mine a \<and> key a \<noteq> None" and rs: "list_all2 eq rs C" and C: "set C \<subseteq> set es"
  shows "filter (\<lambda>r. \<not> mine r \<or> key r = None) (filter (\<lambda>x. x \<notin> R) T @ rs) =
    filter (\<lambda>r. \<not> mine r \<or> key r = None) T"
proof -
  have "mine r \<and> key r \<noteq> None" if "r \<in> set rs" for r
    using list_all2_set1 [OF rs that] C es mine eq_key by (metis subsetD)
  then have "filter (\<lambda>r. \<not> mine r \<or> key r = None) rs = []" by (simp add: filter_empty_conv)
  moreover have "filter (\<lambda>r. \<not> mine r \<or> key r = None) (filter (\<lambda>x. x \<notin> R) T) =
    filter (\<lambda>r. \<not> mine r \<or> key r = None) T" using R by (auto simp: intro!: filter_cong)
  ultimately show ?thesis by simp
qed

text \<open>A table that is as expected has no difference from it.\<close>

lemma installed_no_diff:
  assumes "installed eq key mine es T" and es: "distinct_on key es" "\<forall>e \<in> set es. key e \<noteq> None"
    and ord: "range_order ord"
  shows "filter (diff_missing eq key (indexBy key (filter mine T))) es = []"
    and "diff_stale eq key (indexBy key (filter mine T)) es = []"
    and "diff_extra key es (ord (indexBy key (filter mine T))) = []"
proof -
  have T: "distinct_on key (filter mine T)" using assms by (simp add: installed_def)
  have "set (filter (diff_missing eq key (indexBy key (filter mine T))) es) = {}"
    using assms by (subst set_missing [OF T]) (auto simp: installed_def)
  then show "filter (diff_missing eq key (indexBy key (filter mine T))) es = []" by simp
  have "set (diff_stale eq key (indexBy key (filter mine T)) es @ diff_extra key es (indexBy key (filter mine T))) = {}"
    using assms(1) unfolding set_stale_extra [OF T es(1)] by (auto simp: installed_def)
  then show "diff_stale eq key (indexBy key (filter mine T)) es = []"
    and "diff_extra key es (ord (indexBy key (filter mine T))) = []"
    using set_diff_extra [OF ord, of key es "indexBy key (filter mine T)"] by auto
qed

end

section \<open>Tables with an update call\<close>

text \<open>An update replaces the entry that has the same identity, which must exist.\<close>

definition updates_entry ::
  "('w \<Rightarrow> 'a list) \<Rightarrow> ('a \<Rightarrow> bool) \<Rightarrow> ('a \<Rightarrow> 'a \<Rightarrow> bool) \<Rightarrow> ('a \<Rightarrow> 'a \<Rightarrow> bool) \<Rightarrow> ('a \<Rightarrow> ('w, unit) ext) \<Rightarrow> bool"
where
  "updates_entry tbl accept clash eq upd \<longleftrightarrow>
     (\<forall>r w. accept r \<and> (\<exists>x \<in> set (tbl w). clash x r) \<longrightarrow>
        (\<exists>w' r'. upd r w = (Inr (), w') \<and> eq r' r \<and> tbl w' = filter (\<lambda>x. \<not> clash x r) (tbl w) @ [r']))"

lemma sets_updates: "sets_entry tbl accept clash eq st \<Longrightarrow> updates_entry tbl accept clash eq st"
  unfolding sets_entry_def updates_entry_def by blast

lemma forM_updates:
  assumes upd: "updates_entry tbl accept clash eq upd"
    and cong: "\<And>a b r. eq a b \<Longrightarrow> clash a r = clash b r"
    and euclid: "\<forall>x a b. clash x a \<longrightarrow> clash x b \<longrightarrow> clash a b"
    and "\<forall>r \<in> set rs. accept r \<and> (\<exists>x \<in> set (tbl w). clash x r)"
    and "sorted_wrt (\<lambda>a b. \<not> clash a b) rs"
  shows "\<exists>w' rs'. forM (\<lambda>r. wrapM msg (callM (upd r))) rs w = (Ret (), w') \<and>
    list_all2 eq rs' rs \<and> tbl w' = filter (\<lambda>x. \<forall>r \<in> set rs. \<not> clash x r) (tbl w) @ rs'"
  using assms(4-)
proof (induction rs arbitrary: w)
  case Nil
  then show ?case by simp
next
  case (Cons r rs)
  obtain w1 r' where 1: "upd r w = (Inr (), w1)" "eq r' r"
    "tbl w1 = filter (\<lambda>x. \<not> clash x r) (tbl w) @ [r']"
    using upd Cons.prems unfolding updates_entry_def by (metis list.set_intros(1))
  have apart: "\<not> clash r s" if "s \<in> set rs" for s using that Cons.prems(2) by simp
  then have "\<forall>s \<in> set rs. \<not> clash r' s" using cong [OF 1(2)] by simp
  moreover have "\<exists>x \<in> set (tbl w1). clash x s" if "s \<in> set rs" for s
  proof -
    obtain x where "x \<in> set (tbl w)" "clash x s" using Cons.prems(1) \<open>s \<in> set rs\<close> by auto
    moreover from this have "\<not> clash x r" using euclid apart [OF \<open>s \<in> set rs\<close>] by blast
    ultimately show ?thesis using 1(3) by auto
  qed
  then obtain w' rs' where "forM (\<lambda>r. wrapM msg (callM (upd r))) rs w1 = (Ret (), w')"
    "list_all2 eq rs' rs" "tbl w' = filter (\<lambda>x. \<forall>r \<in> set rs. \<not> clash x r) (tbl w1) @ rs'"
    using Cons.IH [of w1] Cons.prems by auto
  ultimately show ?case using 1
    by (intro exI [of _ w'] exI [of _ "r' # rs'"]) (simp add: forM_call_Cons del: forM.simps)
qed

context keyed_equality
begin

lemma distinct_on_same: "distinct_on key T \<Longrightarrow> x \<in> set T \<Longrightarrow> y \<in> set T \<Longrightarrow> key x = key y \<Longrightarrow> key x \<noteq> None \<Longrightarrow> x = y"
  using distinct_onD [of key T x y] by auto

text \<open>What is created and what is updated are together the expected entries that are missing.\<close>

lemma missing_split:
  assumes total: "\<And>a. key a \<noteq> None" and T: "distinct_on key T" and es: "distinct_on key es"
    and cs: "mset cs = mset (filter (\<lambda>e. \<forall>x \<in> set T. key x \<noteq> key e) es)"
    and us: "mset us = mset (filter (\<lambda>e. \<exists>x \<in> set T. key x = key e \<and> \<not> eq x e) es)"
  shows "set (cs @ us) = {e \<in> set es. \<not> (\<exists>a \<in> set T. eq a e)}" and "distinct_on key (cs @ us)"
proof -
  have set_cs: "set cs = {e \<in> set es. \<forall>x \<in> set T. key x \<noteq> key e}" using mset_eq_setD [OF cs] by simp
  have set_us: "set us = {e \<in> set es. \<exists>x \<in> set T. key x = key e \<and> \<not> eq x e}" using mset_eq_setD [OF us] by simp
  have not_eq: "\<not> eq a e" if e: "e \<in> set us" and a: "a \<in> set T" for a e
  proof
    assume "eq a e"
    obtain x where x: "x \<in> set T" "key x = key e" "\<not> eq x e" using e set_us by auto
    then have "x = a" using distinct_on_same [OF T x(1) a _ total] eq_key [OF \<open>eq a e\<close>] by simp
    then show False using x(3) \<open>eq a e\<close> by simp
  qed
  show "set (cs @ us) = {e \<in> set es. \<not> (\<exists>a \<in> set T. eq a e)}"
  proof (intro set_eqI iffI)
    fix e assume "e \<in> set (cs @ us)"
    then consider "e \<in> set cs" | "e \<in> set us" by auto
    then show "e \<in> {e \<in> set es. \<not> (\<exists>a \<in> set T. eq a e)}"
    proof cases
      case 1
      then show ?thesis using set_cs eq_key [of _ e] by blast
    next
      case 2
      then show ?thesis using not_eq [OF 2] set_us by blast
    qed
  next
    fix e assume "e \<in> {e \<in> set es. \<not> (\<exists>a \<in> set T. eq a e)}"
    then show "e \<in> set (cs @ us)" unfolding set_append set_cs set_us by blast
  qed
  have "distinct_on key cs" "distinct_on key us"
    unfolding mset_distinct_on [OF cs] mset_distinct_on [OF us] by (rule distinct_on_filter [OF es])+
  moreover have "key c \<noteq> key u" if "c \<in> set cs" "u \<in> set us" for c u using that set_cs set_us by auto
  ultimately show "distinct_on key (cs @ us)" by (auto simp: distinct_on_append)
qed

text \<open>What the deletions and the updates take away is what no expected entry equals.\<close>

lemma kept_iff:
  assumes total: "\<And>a. key a \<noteq> None" and T: "distinct_on key T" and es: "distinct_on key es"
    and clash: "\<And>a b. clash a b \<Longrightarrow> key a = key b" "\<And>a b r. eq a b \<Longrightarrow> clash r a = clash r b"
    and ident: "\<forall>x \<in> set T. \<forall>e \<in> set es. key x = key e \<longrightarrow> clash x e"
    and us: "set us = {e \<in> set es. \<exists>x \<in> set T. key x = key e \<and> \<not> eq x e}" "list_all2 eq us' us"
    and x: "x \<in> set T"
  shows "(\<exists>e \<in> set es. key e = key x) \<and> (\<forall>u \<in> set us'. \<not> clash x u) \<longleftrightarrow> (\<exists>e \<in> set es. eq x e)"
proof
  assume L: "(\<exists>e \<in> set es. key e = key x) \<and> (\<forall>u \<in> set us'. \<not> clash x u)"
  then obtain e where e: "e \<in> set es" "key e = key x" by blast
  have "eq x e"
  proof (rule ccontr)
    assume "\<not> eq x e"
    then have "e \<in> set us" using e x us(1) by auto
    then obtain u where "u \<in> set us'" "eq u e" using list_all2_set2 [OF us(2)] by blast
    then show False using L ident x e clash(2) by metis
  qed
  then show "\<exists>e \<in> set es. eq x e" using e by blast
next
  assume "\<exists>e \<in> set es. eq x e"
  then obtain e where e: "e \<in> set es" "eq x e" by blast
  have "\<not> clash x u" if u: "u \<in> set us'" for u
  proof
    assume "clash x u"
    obtain v where v: "v \<in> set us" "eq u v" using list_all2_set1 [OF us(2) u] by blast
    then obtain y where y: "y \<in> set T" "key y = key v" "\<not> eq y v" "v \<in> set es" using us(1) by auto
    have "key x = key v" using clash(1) [OF \<open>clash x u\<close>] eq_key [OF v(2)] by simp
    have "y = x" by (rule distinct_on_same [OF T y(1) x _ total]) (simp add: y(2) \<open>key x = key v\<close>)
    moreover have "v = e"
      by (rule distinct_on_same [OF es y(4) e(1) _ total]) (simp add: \<open>key x = key v\<close> [symmetric] eq_key [OF e(2)])
    ultimately show False using y(3) e(2) by simp
  qed
  then show "(\<exists>e \<in> set es. key e = key x) \<and> (\<forall>u \<in> set us'. \<not> clash x u)" using e eq_key by metis
qed

text \<open>The additions and the updates.\<close>

lemma create_update_run:
  assumes add: "adds_entry tbl accept clash eq add" and upd: "updates_entry tbl accept clash eq upd"
    and cong: "\<And>a b r. eq a b \<Longrightarrow> clash a r = clash b r"
    and euclid: "\<forall>x a b. clash x a \<longrightarrow> clash x b \<longrightarrow> clash a b"
    and clash_key: "\<forall>a b. clash a b \<longrightarrow> key a \<noteq> None \<and> key a = key b"
    and dist: "distinct_on key cs" "distinct_on key us"
    and cs: "\<forall>c \<in> set cs. accept c \<and> (\<forall>x \<in> set (tbl w). key x \<noteq> key c)"
    and us: "\<forall>u \<in> set us. accept u \<and> (\<exists>x \<in> set (tbl w). clash x u)"
  obtains w2 rs1 rs2 where "\<And>f :: unit \<Rightarrow> (_, unit) io. bindM (forM (\<lambda>r. wrapM m1 (callM (add r))) cs)
      (\<lambda>_. bindM (forM (\<lambda>r. wrapM m2 (callM (upd r))) us) f) w = f () w2"
    and "tbl w2 = filter (\<lambda>x. \<forall>r \<in> set us. \<not> clash x r) (tbl w) @ rs1 @ rs2"
    and "list_all2 eq rs1 cs" and "list_all2 eq rs2 us"
proof -
  have sorted: "sorted_wrt (\<lambda>a b. \<not> clash a b) xs" if "distinct_on key xs" for xs
    using sorted_wrt_no_clash [OF that] clash_key by blast
  have nc: "\<forall>x \<in> set (tbl w). \<forall>c \<in> set cs. \<not> clash x c" using cs clash_key by blast
  have acc: "\<forall>c \<in> set cs. accept c" using cs by simp
  obtain w1 rs1 where w1: "forM (\<lambda>r. wrapM m1 (callM (add r))) cs w = (Ret (), w1)"
    "list_all2 eq rs1 cs" "tbl w1 = tbl w @ rs1"
    using forM_adds [OF add cong acc nc sorted [OF dist(1)], of m1] by blast
  have us1: "\<forall>u \<in> set us. accept u \<and> (\<exists>x \<in> set (tbl w1). clash x u)" using us w1(3) by auto
  obtain w2 rs2 where w2: "forM (\<lambda>r. wrapM m2 (callM (upd r))) us w1 = (Ret (), w2)"
    "list_all2 eq rs2 us" "tbl w2 = filter (\<lambda>x. \<forall>r \<in> set us. \<not> clash x r) (tbl w1) @ rs2"
    using forM_updates [OF upd cong euclid us1 sorted [OF dist(2)], where msg = m2] by blast
  have "\<not> clash r u" if r: "r \<in> set rs1" and u: "u \<in> set us" for r u
  proof
    assume ru: "clash r u"
    obtain c where "c \<in> set cs" "eq r c" using list_all2_set1 [OF w1(2) r] by blast
    moreover obtain x where "x \<in> set (tbl w)" "clash x u" using us u by blast
    ultimately show False using ru clash_key eq_key [of r c] cs by metis
  qed
  then have "filter (\<lambda>x. \<forall>r \<in> set us. \<not> clash x r) rs1 = rs1" by (simp add: filter_id_conv)
  then have "tbl w2 = filter (\<lambda>x. \<forall>r \<in> set us. \<not> clash x r) (tbl w) @ rs1 @ rs2"
    using w1(3) w2(3) by simp
  moreover have "bindM (forM (\<lambda>r. wrapM m1 (callM (add r))) cs)
      (\<lambda>_. bindM (forM (\<lambda>r. wrapM m2 (callM (upd r))) us) f) w = f () w2" for f :: "unit \<Rightarrow> (_, unit) io"
    by (simp add: bind_forM_Ret [OF w1(1)] bind_forM_Ret [OF w2(1)])
  ultimately show thesis using that w1(2) w2(2) by blast
qed

text \<open>
  Creating what is missing, updating what differs and deleting what is not expected, in this
  order, gives the expected table, when an entry that exists under the key of an expected one
  is the entry that the update call addresses.
\<close>

lemma create_update_remove:
  assumes add: "adds_entry tbl accept clash eq add" and upd: "updates_entry tbl accept clash eq upd"
    and del: "dels_entry tbl del"
    and cong: "\<And>a b r. eq a b \<Longrightarrow> clash a r = clash b r" "\<And>a b r. eq a b \<Longrightarrow> clash r a = clash r b"
    and euclid: "\<forall>x a b. clash x a \<longrightarrow> clash x b \<longrightarrow> clash a b"
    and clash_key: "\<And>a b. clash a b \<Longrightarrow> key a = key b"
    and total: "\<And>a. key a \<noteq> None"
    and T: "distinct_on key (tbl w)" and es: "distinct_on key es" "\<forall>e \<in> set es. accept e"
    and ident: "\<forall>x \<in> set (tbl w). \<forall>e \<in> set es. key x = key e \<longrightarrow> clash x e"
    and cs: "mset cs = mset (filter (\<lambda>e. \<forall>x \<in> set (tbl w). key x \<noteq> key e) es)"
    and us: "mset us = mset (filter (\<lambda>e. \<exists>x \<in> set (tbl w). key x = key e \<and> \<not> eq x e) es)"
    and us': "list_all2 eq us' us" "\<forall>u \<in> set us'. accept u"
    and rm: "mset rm = mset (filter (\<lambda>x. \<forall>e \<in> set es. key e \<noteq> key x) (tbl w))"
  shows "\<exists>w'. bindM (forM (\<lambda>r. wrapM m1 (callM (add r))) cs)
      (\<lambda>_. bindM (forM (\<lambda>r. wrapM m2 (callM (upd r))) us')
        (\<lambda>_. forM (\<lambda>r. wrapM m3 (callM (del r))) rm)) w = (Ret (), w') \<and>
    installed eq key (\<lambda>_. True) es (tbl w')"
proof -
  have set_cs: "set cs = {e \<in> set es. \<forall>x \<in> set (tbl w). key x \<noteq> key e}" using mset_eq_setD [OF cs] by simp
  have set_us: "set us = {e \<in> set es. \<exists>x \<in> set (tbl w). key x = key e \<and> \<not> eq x e}" using mset_eq_setD [OF us] by simp
  have set_rm: "set rm = {x \<in> set (tbl w). \<forall>e \<in> set es. key e \<noteq> key x}" using mset_eq_setD [OF rm] by simp
  note C = missing_split [OF total T es(1) cs us]
  have dist: "distinct_on key cs" "distinct_on key us'"
    using C(2) distinct_on_list_all2 [OF us'(1)] by (simp_all add: distinct_on_append)
  have clash_key': "\<forall>a b. clash a b \<longrightarrow> key a \<noteq> None \<and> key a = key b" using clash_key total by blast
  have from_us: "\<exists>v \<in> set es. key v = key u \<and> (\<exists>x \<in> set (tbl w). clash x u)" if u: "u \<in> set us'" for u
  proof -
    obtain v where v: "v \<in> set us" "eq u v" using list_all2_set1 [OF us'(1) u] by blast
    then obtain x where "v \<in> set es" "x \<in> set (tbl w)" "key x = key v" using set_us by blast
    then have "clash x u" using ident cong(2) [OF v(2)] by blast
    then show ?thesis using eq_key [OF v(2)] \<open>v \<in> set es\<close> \<open>x \<in> set (tbl w)\<close> by auto
  qed
  have cs_ok: "\<forall>c \<in> set cs. accept c \<and> (\<forall>x \<in> set (tbl w). key x \<noteq> key c)" using set_cs es(2) by simp
  have us_ok: "\<forall>u \<in> set us'. accept u \<and> (\<exists>x \<in> set (tbl w). clash x u)" using from_us us'(2) by blast
  obtain w2 rs1 rs2 where run2: "\<And>f :: unit \<Rightarrow> (_, unit) io. bindM (forM (\<lambda>r. wrapM m1 (callM (add r))) cs)
      (\<lambda>_. bindM (forM (\<lambda>r. wrapM m2 (callM (upd r))) us') f) w = f () w2"
    and t2: "tbl w2 = filter (\<lambda>x. \<forall>r \<in> set us'. \<not> clash x r) (tbl w) @ rs1 @ rs2"
    and rs: "list_all2 eq rs1 cs" "list_all2 eq rs2 us'"
    using create_update_run [OF add upd cong(1) euclid clash_key' dist cs_ok us_ok, where ?m1.0 = m1 and ?m2.0 = m2] by blast
  have "x \<in> set (tbl w2)" if "x \<in> set rm" for x
    using that set_rm t2 from_us clash_key [of x] by fastforce
  then have "set rm \<subseteq> set (tbl w2)" by blast
  moreover have "distinct rm" unfolding mset_eq_imp_distinct_iff [OF rm]
    using distinct_on_distinct [OF T] total by simp
  ultimately obtain w3 where w3: "forM (\<lambda>r. wrapM m3 (callM (del r))) rm w2 = (Ret (), w3)"
    "tbl w3 = filter (\<lambda>x. x \<notin> set rm) (tbl w2)" using forM_dels [OF del, of rm w2 m3] by blast
  let ?R = "{a \<in> set (filter (\<lambda>_. True) (tbl w)). key a \<noteq> None \<and> \<not> (\<exists>e \<in> set es. eq a e)}"
  have kept: "x \<notin> set rm \<and> (\<forall>r \<in> set us'. \<not> clash x r) \<longleftrightarrow> x \<notin> ?R" if "x \<in> set (tbl w)" for x
    using kept_iff [OF total T es(1) clash_key cong(2) ident set_us us'(1) that] that set_rm total by auto
  have "\<exists>e \<in> set es. key x = key e" if "x \<in> set (rs1 @ rs2)" for x
    using that list_all2_set1 [OF rs(1), of x] list_all2_set1 [OF rs(2), of x] set_cs from_us eq_key [of x] by fastforce
  then have "x \<notin> set rm" if "x \<in> set (rs1 @ rs2)" for x using set_rm that by (metis (mono_tags, lifting) mem_Collect_eq)
  then have "filter (\<lambda>x. x \<notin> set rm) (rs1 @ rs2) = rs1 @ rs2" by (simp add: filter_id_conv)
  then have t3: "tbl w3 = filter (\<lambda>x. x \<notin> ?R) (tbl w) @ (rs1 @ rs2)"
    unfolding w3(2) t2 using kept by (auto intro!: filter_cong)
  have "list_all2 eq (rs1 @ rs2) (cs @ us)"
    using rs(1) list_all2_eq_trans [OF rs(2) us'(1)] by (rule list_all2_appendI)
  then have "installed eq key (\<lambda>_. True) es (tbl w3)" unfolding t3
    using C T total by (intro replaced_installed [OF es(1)]) auto
  moreover have "bindM (forM (\<lambda>r. wrapM m1 (callM (add r))) cs) (\<lambda>_. bindM (forM (\<lambda>r. wrapM m2 (callM (upd r))) us')
        (\<lambda>_. forM (\<lambda>r. wrapM m3 (callM (del r))) rm)) w = (Ret (), w3)"
    using run2 [of "\<lambda>_. forM (\<lambda>r. wrapM m3 (callM (del r))) rm"] w3(1) by simp
  ultimately show ?thesis by blast
qed

text \<open>A table that is as expected needs no additions, updates or deletions.\<close>

lemma installed_settled:
  assumes "installed eq key (\<lambda>_. True) es T" and total: "\<And>a. key a \<noteq> None"
  shows "filter (\<lambda>e. \<forall>x \<in> set T. key x \<noteq> key e) es = []"
    and "filter (\<lambda>e. \<exists>x \<in> set T. key x = key e \<and> \<not> eq x e) es = []"
    and "filter (\<lambda>x. \<forall>e \<in> set es. key e \<noteq> key x) T = []"
proof -
  have present: "\<exists>r \<in> set T. eq r e" if "e \<in> set es" for e using assms(1) that by (auto simp: installed_def)
  have T: "distinct_on key T" using assms(1) by (simp add: installed_def)
  have "\<exists>x \<in> set T. key x = key e" if "e \<in> set es" for e using present [OF that] eq_key by blast
  then show "filter (\<lambda>e. \<forall>x \<in> set T. key x \<noteq> key e) es = []" by (auto simp: filter_empty_conv)
  have "eq x e" if e: "e \<in> set es" and x: "x \<in> set T" "key x = key e" for x e
  proof -
    obtain r where r: "r \<in> set T" "eq r e" using present [OF e] by blast
    then have "x = r" using distinct_on_same [OF T x(1) r(1) _ total] eq_key [OF r(2)] x(2) by simp
    then show ?thesis using r by simp
  qed
  then show "filter (\<lambda>e. \<exists>x \<in> set T. key x = key e \<and> \<not> eq x e) es = []" by (auto simp: filter_empty_conv)
  have "\<exists>e \<in> set es. key e = key x" if "x \<in> set T" for x
    using assms(1) that total eq_key unfolding installed_def by metis
  then show "filter (\<lambda>x. \<forall>e \<in> set es. key e \<noteq> key x) T = []" by (auto simp: filter_empty_conv)
qed

end

end
