(* ===== verification/Ref_Kernel.thy ===== *)
theory Ref_Kernel
  imports Kernel_Tables
begin

text \<open>
  A small executable kernel: a world that holds the tables as lists, and the netlink calls on
  it.  It is not part of the program; it shows that what the properties assume of the kernel
  can hold, and it is the kernel on which the examples run.
\<close>

record ref_world =
  rw_links :: "link list"
  rw_addrs :: "addr list"
  rw_routes :: "route list"
  rw_neighs :: "neigh list"
  rw_states :: "xfrmState list"
  rw_policies :: "xfrmPolicy list"

definition ref_list :: "('w \<Rightarrow> 'a list) \<Rightarrow> ('w, 'a list) ext" where
  "ref_list get w = (Inr (get w), w)"

definition ref_add ::
  "('w \<Rightarrow> 'a list) \<Rightarrow> ('a list \<Rightarrow> 'w \<Rightarrow> 'w) \<Rightarrow> ('a \<Rightarrow> 'a \<Rightarrow> bool) \<Rightarrow> 'a \<Rightarrow> ('w, unit) ext"
where
  "ref_add get put clash r w =
     (if list_ex (\<lambda>x. clash x r) (get w) then (Inl (ExtErr ''file exists''), w)
      else (Inr (), put (get w @ [r]) w))"

definition ref_set ::
  "('w \<Rightarrow> 'a list) \<Rightarrow> ('a list \<Rightarrow> 'w \<Rightarrow> 'w) \<Rightarrow> ('a \<Rightarrow> 'a \<Rightarrow> bool) \<Rightarrow> 'a \<Rightarrow> ('w, unit) ext"
where
  "ref_set get put clash r w = (Inr (), put (filter (\<lambda>x. \<not> clash x r) (get w) @ [r]) w)"

definition ref_del :: "('w \<Rightarrow> 'a list) \<Rightarrow> ('a list \<Rightarrow> 'w \<Rightarrow> 'w) \<Rightarrow> 'a \<Rightarrow> ('w, unit) ext" where
  "ref_del get put r w =
     (if r \<in> set (get w) then (Inr (), put (removeAll r (get w)) w)
      else (Inl (ExtErr ''no such entry''), w))"

definition ref_update :: "('w \<Rightarrow> 'a list) \<Rightarrow> ('a list \<Rightarrow> 'w \<Rightarrow> 'w) \<Rightarrow> ('a \<Rightarrow> 'a \<Rightarrow> bool) \<Rightarrow> ('a \<Rightarrow> 'a) \<Rightarrow> 'a \<Rightarrow> ('w, unit) ext" where
  "ref_update get put same f r w = (Inr (), put (map (\<lambda>x. if same x r then f x else x) (get w)) w)"

abbreviation same_name :: "link \<Rightarrow> link \<Rightarrow> bool" where
  "same_name a b \<equiv> lk_Name a = lk_Name b"

definition ref_LinkAdd :: "link \<Rightarrow> (ref_world, link) ext" where
  "ref_LinkAdd l w =
     (if list_ex (\<lambda>x. same_name x l) (rw_links w) then (Inl (ExtErr ''file exists''), w)
      else (let l' = l\<lparr>lk_Index := 1 + foldr max (map lk_Index (rw_links w)) 0\<rparr>
            in (Inr l', w\<lparr>rw_links := rw_links w @ [l']\<rparr>)))"

definition ref_LinkByName :: "string \<Rightarrow> (ref_world, link option) ext" where
  "ref_LinkByName n w =
     (case find (\<lambda>l. lk_Name l = n) (rw_links w) of
        None \<Rightarrow> (Inl (LinkNotFoundErr ''link not found''), w)
      | Some l \<Rightarrow> (Inr (Some l), w))"

definition ref_netlink :: "ref_world netlink" where
  "ref_netlink =
     \<lparr>nl_LinkType = (\<lambda>l. case lk_Kind l of Gretun _ _ _ \<Rightarrow> ''gre'' | Vxlan _ _ _ _ _ \<Rightarrow> ''vxlan'' | OtherLink t \<Rightarrow> t),
      nl_LinkList = ref_list rw_links,
      nl_LinkByName = ref_LinkByName,
      nl_LinkAdd = ref_LinkAdd,
      nl_LinkDel = ref_del rw_links (\<lambda>xs. rw_links_update (\<lambda>_. xs)),
      nl_LinkSetUp = ref_update rw_links (\<lambda>xs. rw_links_update (\<lambda>_. xs)) same_name (lk_Flags_update (\<lambda>f. or f FlagUp)),
      nl_LinkSetMTU = (\<lambda>l m. ref_update rw_links (\<lambda>xs. rw_links_update (\<lambda>_. xs)) same_name (lk_MTU_update (\<lambda>_. m)) l),
      nl_LinkSetHardwareAddr =
        (\<lambda>l a. ref_update rw_links (\<lambda>xs. rw_links_update (\<lambda>_. xs)) same_name (lk_HardwareAddr_update (\<lambda>_. a)) l),
      nl_AddrList = (\<lambda>_. ref_list rw_addrs),
      nl_AddrAdd = (\<lambda>_. ref_add rw_addrs (\<lambda>xs. rw_addrs_update (\<lambda>_. xs)) addr_clash),
      nl_AddrDel = (\<lambda>_. ref_del rw_addrs (\<lambda>xs. rw_addrs_update (\<lambda>_. xs))),
      nl_RouteList = (\<lambda>l w. (Inr (filter (\<lambda>r. case l of None \<Rightarrow> True | Some lk \<Rightarrow> rt_LinkIndex r = lk_Index lk) (rw_routes w)), w)),
      nl_RouteAdd = ref_add rw_routes (\<lambda>xs. rw_routes_update (\<lambda>_. xs)) route_clash,
      nl_RouteDel = ref_del rw_routes (\<lambda>xs. rw_routes_update (\<lambda>_. xs)),
      nl_RouteSetFlag = (\<lambda>r f. r\<lparr>rt_Flags := or (rt_Flags r) f\<rparr>),
      nl_NeighList = (\<lambda>i w. (Inr (filter (\<lambda>n. ng_LinkIndex n = i) (rw_neighs w)), w)),
      nl_NeighSet = ref_set rw_neighs (\<lambda>xs. rw_neighs_update (\<lambda>_. xs)) neigh_clash,
      nl_XfrmStateList = ref_list rw_states,
      nl_XfrmStateAdd = ref_add rw_states (\<lambda>xs. rw_states_update (\<lambda>_. xs)) state_clash,
      nl_XfrmStateUpdate = ref_set rw_states (\<lambda>xs. rw_states_update (\<lambda>_. xs)) state_clash,
      nl_XfrmStateDel = ref_del rw_states (\<lambda>xs. rw_states_update (\<lambda>_. xs)),
      nl_XfrmStateFlush = (\<lambda>w. (Inr (), w\<lparr>rw_states := []\<rparr>)),
      nl_XfrmPolicyList = ref_list rw_policies,
      nl_XfrmPolicyAdd = ref_add rw_policies (\<lambda>xs. rw_policies_update (\<lambda>_. xs)) policy_clash,
      nl_XfrmPolicyUpdate = ref_set rw_policies (\<lambda>xs. rw_policies_update (\<lambda>_. xs)) policy_clash,
      nl_XfrmPolicyDel = ref_del rw_policies (\<lambda>xs. rw_policies_update (\<lambda>_. xs)),
      nl_XfrmPolicyFlush = (\<lambda>w. (Inr (), w\<lparr>rw_policies := []\<rparr>))\<rparr>"

text \<open>The calls, one by one, for evaluation.\<close>

lemma ref_calls:
  "nl_LinkType ref_netlink = (\<lambda>l. case lk_Kind l of Gretun _ _ _ \<Rightarrow> ''gre'' | Vxlan _ _ _ _ _ \<Rightarrow> ''vxlan'' | OtherLink t \<Rightarrow> t)"
  "nl_LinkList ref_netlink = ref_list rw_links"
  "nl_LinkByName ref_netlink = ref_LinkByName"
  "nl_LinkAdd ref_netlink = ref_LinkAdd"
  "nl_LinkDel ref_netlink = ref_del rw_links (\<lambda>xs. rw_links_update (\<lambda>_. xs))"
  "nl_LinkSetUp ref_netlink = ref_update rw_links (\<lambda>xs. rw_links_update (\<lambda>_. xs)) same_name (lk_Flags_update (\<lambda>f. or f FlagUp))"
  "nl_LinkSetMTU ref_netlink = (\<lambda>l m. ref_update rw_links (\<lambda>xs. rw_links_update (\<lambda>_. xs)) same_name (lk_MTU_update (\<lambda>_. m)) l)"
  "nl_LinkSetHardwareAddr ref_netlink = (\<lambda>l a. ref_update rw_links (\<lambda>xs. rw_links_update (\<lambda>_. xs)) same_name (lk_HardwareAddr_update (\<lambda>_. a)) l)"
  "nl_AddrList ref_netlink = (\<lambda>_. ref_list rw_addrs)"
  "nl_AddrAdd ref_netlink = (\<lambda>_. ref_add rw_addrs (\<lambda>xs. rw_addrs_update (\<lambda>_. xs)) addr_clash)"
  "nl_AddrDel ref_netlink = (\<lambda>_. ref_del rw_addrs (\<lambda>xs. rw_addrs_update (\<lambda>_. xs)))"
  "nl_RouteList ref_netlink = (\<lambda>l w. (Inr (filter (\<lambda>r. case l of None \<Rightarrow> True | Some lk \<Rightarrow> rt_LinkIndex r = lk_Index lk) (rw_routes w)), w))"
  "nl_RouteAdd ref_netlink = ref_add rw_routes (\<lambda>xs. rw_routes_update (\<lambda>_. xs)) route_clash"
  "nl_RouteDel ref_netlink = ref_del rw_routes (\<lambda>xs. rw_routes_update (\<lambda>_. xs))"
  "nl_RouteSetFlag ref_netlink = (\<lambda>r f. r\<lparr>rt_Flags := or (rt_Flags r) f\<rparr>)"
  "nl_NeighList ref_netlink = (\<lambda>i w. (Inr (filter (\<lambda>n. ng_LinkIndex n = i) (rw_neighs w)), w))"
  "nl_NeighSet ref_netlink = ref_set rw_neighs (\<lambda>xs. rw_neighs_update (\<lambda>_. xs)) neigh_clash"
  "nl_XfrmStateList ref_netlink = ref_list rw_states"
  "nl_XfrmStateAdd ref_netlink = ref_add rw_states (\<lambda>xs. rw_states_update (\<lambda>_. xs)) state_clash"
  "nl_XfrmStateUpdate ref_netlink = ref_set rw_states (\<lambda>xs. rw_states_update (\<lambda>_. xs)) state_clash"
  "nl_XfrmStateDel ref_netlink = ref_del rw_states (\<lambda>xs. rw_states_update (\<lambda>_. xs))"
  "nl_XfrmStateFlush ref_netlink = (\<lambda>w. (Inr (), w\<lparr>rw_states := []\<rparr>))"
  "nl_XfrmPolicyList ref_netlink = ref_list rw_policies"
  "nl_XfrmPolicyAdd ref_netlink = ref_add rw_policies (\<lambda>xs. rw_policies_update (\<lambda>_. xs)) policy_clash"
  "nl_XfrmPolicyUpdate ref_netlink = ref_set rw_policies (\<lambda>xs. rw_policies_update (\<lambda>_. xs)) policy_clash"
  "nl_XfrmPolicyDel ref_netlink = ref_del rw_policies (\<lambda>xs. rw_policies_update (\<lambda>_. xs))"
  "nl_XfrmPolicyFlush ref_netlink = (\<lambda>w. (Inr (), w\<lparr>rw_policies := []\<rparr>))"
  by (simp_all add: ref_netlink_def)

definition empty_world :: ref_world where
  "empty_world = \<lparr>rw_links = [], rw_addrs = [], rw_routes = [], rw_neighs = [], rw_states = [], rw_policies = []\<rparr>"

section \<open>The laws of a table hold\<close>

lemma ref_adds_entry:
  assumes "\<And>xs w. get (put xs w) = xs" and "\<And>r. eq r r"
  shows "adds_entry get accept clash eq (ref_add get put clash)"
  unfolding adds_entry_def ref_add_def using assms by (auto simp: list_ex_iff)

lemma ref_refuses_clash: "refuses_clash get clash (ref_add get put clash)"
  by (auto simp: refuses_clash_def ref_add_def list_ex_iff)

lemma ref_dels_entry:
  assumes "\<And>xs w. get (put xs w) = xs"
  shows "dels_entry get (ref_del get put)"
  unfolding dels_entry_def ref_del_def using assms by auto

lemma ref_sets_entry:
  assumes "\<And>xs w. get (put xs w) = xs" and "\<And>r. eq r r"
  shows "sets_entry get accept clash eq (ref_set get put clash)"
  unfolding sets_entry_def ref_set_def using assms by blast

lemmas ref_eval = ref_calls ref_list_def ref_add_def ref_set_def ref_del_def ref_update_def ref_LinkAdd_def ref_LinkByName_def
  empty_world_def bindM_def tryM_def wrapM_def callM_def Let_def

end
