(* ===== verification/Route_Table.thy ===== *)
theory Route_Table
  imports Ref_Kernel
begin

text \<open>
  \<^verbatim>\<open>RouteTable.Ensure\<close> of \<^verbatim>\<open>src/pkg/routing/netutil/route_table.go\<close>: bring the kernel's
  routes in line with the expected ones.  \<open>route_diff\<close> is the loop over the expected routes
  (which indexes them and decides what to create and what to remove) and \<open>RouteTable_Ensure\<close>
  the whole method.

  \<open>route_kernel\<close> states what the kernel documents about its main table: listing, adding
  (which fails when a route of the same identity exists) and deleting.  Under it the method
  with \<^verbatim>\<open>deleteExtraRoutes\<close> is shown to make the table of the link exactly the expected one,
  and without it to be unable to replace a route that changed.
\<close>

section \<open>The code\<close>

definition nexthopInfoEqual :: "nexthopInfo \<Rightarrow> nexthopInfo \<Rightarrow> bool" where
  "nexthopInfoEqual a e =
     (if nh_LinkIndex a \<noteq> nh_LinkIndex e \<or> nh_Hops a \<noteq> nh_Hops e then False
      else if \<not> ipEqual (nh_Gw a) (nh_Gw e) then False
      else True)"

definition routeEqual :: "route \<Rightarrow> route \<Rightarrow> bool" where
  "routeEqual a e =
     (if rt_LinkIndex a \<noteq> rt_LinkIndex e \<or> rt_ILinkIndex a \<noteq> rt_ILinkIndex e
         \<or> rt_Scope a \<noteq> rt_Scope e \<or> rt_Protocol a \<noteq> rt_Protocol e \<or> rt_Priority a \<noteq> rt_Priority e
         \<or> rt_Table a \<noteq> rt_Table e \<or> rt_Type a \<noteq> rt_Type e \<or> rt_Tos a \<noteq> rt_Tos e
         \<or> rt_Flags a \<noteq> rt_Flags e then False
      else if \<not> ipnetEqual (rt_Dst a) (rt_Dst e) then False
      else if \<not> ipEqual (rt_Src a) (rt_Src e) then False
      else if \<not> ipEqual (rt_Gw a) (rt_Gw e) then False
      else if length (rt_MultiPath a) \<noteq> length (rt_MultiPath e) then False
      else list_all (\<lambda>(x, y). nexthopInfoEqual x y) (zip (rt_MultiPath a) (rt_MultiPath e)))"

definition route_key :: "route \<Rightarrow> string option" where
  "route_key r = (case rt_Dst r of None \<Rightarrow> None | Some d \<Rightarrow> Some (IPNet_String (Some d)))"

fun route_diff ::
  "(string, route) gomap \<Rightarrow> route list \<Rightarrow> (string, route) gomap \<Rightarrow> route list \<Rightarrow> route list \<Rightarrow>
   gerr + ((string, route) gomap \<times> route list \<times> route list)"
where
  "route_diff actualMap [] expectedMap create remove = Inr (expectedMap, create, remove)"
| "route_diff actualMap (e # es) expectedMap create remove =
     (case rt_Dst e of
        None \<Rightarrow> Inl (Errorf ''expected route did not have dst: %v'' None)
      | Some d \<Rightarrow>
          (let k = IPNet_String (Some d); expectedMap' = AList.update k e expectedMap in
           case map_of actualMap k of
             None \<Rightarrow> route_diff actualMap es expectedMap' (create @ [e]) remove
           | Some a \<Rightarrow>
               if \<not> routeEqual a e
               then route_diff actualMap es expectedMap' (create @ [e]) (remove @ [a])
               else route_diff actualMap es expectedMap' create remove))"

definition RouteTable_Ensure ::
  "'w netlink \<Rightarrow> (string \<times> route) order \<Rightarrow> link option \<Rightarrow> route list \<Rightarrow> bool \<Rightarrow> ('w, unit) io"
where
  "RouteTable_Ensure nl ord link expected deleteExtraRoutes =
     bindM (wrapM ''error doing ip route show: %v'' (callM (nl_RouteList nl link))) (\<lambda>actualList.
       let actualMap = indexBy route_key actualList in
       case route_diff actualMap expected [] [] [] of
         Inl e \<Rightarrow> throwM e
       | Inr (expectedMap, create, remove) \<Rightarrow>
           bindM
             (if deleteExtraRoutes then
                (let remove' = remove @
                       map snd (filter (\<lambda>(k, a). map_of expectedMap k = None) (ord actualMap))
                 in forM (\<lambda>r. wrapM ''error removing route: %v'' (callM (nl_RouteDel nl r))) remove')
              else retM ())
             (\<lambda>_. forM (\<lambda>r. wrapM ''error creating route %v: %v'' (callM (nl_RouteAdd nl r))) create))"

section \<open>The kernel's main routing table\<close>

definition on_link :: "link option \<Rightarrow> route \<Rightarrow> bool" where
  "on_link l r = (case l of None \<Rightarrow> True | Some lk \<Rightarrow> rt_LinkIndex r = lk_Index lk)"

text \<open>
  \<open>tbl w\<close> are the routes of the main table; \<open>accept\<close> are the routes whose gateway and device the
  kernel accepts.  A route that was added is listed as an equal route.
\<close>

definition route_kernel :: "'w netlink \<Rightarrow> ('w \<Rightarrow> route list) \<Rightarrow> (route \<Rightarrow> bool) \<Rightarrow> bool" where
  "route_kernel nl tbl accept \<longleftrightarrow>
     (\<forall>l w. nl_RouteList nl l w = (Inr (filter (on_link l) (tbl w)), w)) \<and>
     adds_entry tbl accept route_clash routeEqual (nl_RouteAdd nl) \<and>
     refuses_clash tbl route_clash (nl_RouteAdd nl) \<and>
     dels_entry tbl (nl_RouteDel nl)"

section \<open>The comparison\<close>

lemma nexthopInfoEqual_iff:
  "nexthopInfoEqual a e \<longleftrightarrow>
     nh_LinkIndex a = nh_LinkIndex e \<and> nh_Hops a = nh_Hops e \<and> ipEqual (nh_Gw a) (nh_Gw e)"
  by (auto simp: nexthopInfoEqual_def)

interpretation nexthop_eq: equality_check nexthopInfoEqual
proof unfold_locales
  show "nexthopInfoEqual a a" for a by (simp add: nexthopInfoEqual_iff)
  show "nexthopInfoEqual a e \<Longrightarrow> nexthopInfoEqual e a" for a e
    by (simp add: nexthopInfoEqual_iff ip_eq.eq_sym)
  show "nexthopInfoEqual a b \<Longrightarrow> nexthopInfoEqual b c \<Longrightarrow> nexthopInfoEqual a c" for a b c
    unfolding nexthopInfoEqual_iff using ip_eq.eq_trans by metis
qed

lemma routeEqual_iff:
  "routeEqual a e \<longleftrightarrow>
     rt_LinkIndex a = rt_LinkIndex e \<and> rt_ILinkIndex a = rt_ILinkIndex e \<and> rt_Scope a = rt_Scope e \<and>
     rt_Protocol a = rt_Protocol e \<and> rt_Priority a = rt_Priority e \<and> rt_Table a = rt_Table e \<and>
     rt_Type a = rt_Type e \<and> rt_Tos a = rt_Tos e \<and> rt_Flags a = rt_Flags e \<and>
     ipnetEqual (rt_Dst a) (rt_Dst e) \<and> ipEqual (rt_Src a) (rt_Src e) \<and> ipEqual (rt_Gw a) (rt_Gw e) \<and>
     list_all2 nexthopInfoEqual (rt_MultiPath a) (rt_MultiPath e)"
  by (auto simp: routeEqual_def list_all2_iff list_all_iff)

lemma route_key_ipnet: "route_key r = ipnet_key (rt_Dst r)"
  by (simp add: route_key_def ipnet_key_def split: option.split)

lemma routeEqual_refl [simp]: "routeEqual a a"
  by (simp add: routeEqual_iff nexthop_eq.list_all2_eq_refl)

lemma routeEqual_sym: "routeEqual a e \<Longrightarrow> routeEqual e a"
  by (simp add: routeEqual_iff ip_eq.eq_sym ipnet_eq.eq_sym nexthop_eq.list_all2_eq_sym)

lemma routeEqual_trans: "routeEqual a b \<Longrightarrow> routeEqual b c \<Longrightarrow> routeEqual a c"
  unfolding routeEqual_iff
  using ip_eq.eq_trans ipnet_eq.eq_trans nexthop_eq.list_all2_eq_trans by metis

interpretation route_eq: keyed_equality routeEqual route_key
proof unfold_locales
  show "routeEqual a e \<Longrightarrow> route_key a = route_key e" for a e
    by (simp add: route_key_ipnet routeEqual_iff ipnet_eq.eq_key)
qed (simp, erule routeEqual_sym, erule (1) routeEqual_trans)

section \<open>What the loop over the expected routes decides\<close>

lemma route_diff_Inr:
  assumes "\<forall>e \<in> set es. rt_Dst e \<noteq> None"
  shows "route_diff am es em cr rm =
     Inr (fold (\<lambda>e m. AList.update (the (route_key e)) e m) es em,
          cr @ filter (diff_missing routeEqual route_key am) es,
          rm @ diff_stale routeEqual route_key am es)"
  using assms
proof (induction es arbitrary: em cr rm)
  case (Cons e es)
  then obtain d where d: "rt_Dst e = Some d" by auto
  then have k: "route_key e = Some (IPNet_String (Some d))" by (simp add: route_key_def)
  show ?case using Cons d
    by (simp add: k diff_missing_def diff_stale_Cons Let_def split: option.split)
qed simp

lemma route_diff_Inl:
  "\<exists>e \<in> set es. rt_Dst e = None \<Longrightarrow>
   route_diff am es em cr rm = Inl (Errorf ''expected route did not have dst: %v'' None)"
proof (induction es arbitrary: em cr rm)
  case (Cons e es)
  then show ?case by (auto simp: Let_def split: option.split)
qed simp

lemma expected_index_None:
  "map_of (fold (\<lambda>e m. AList.update (the (route_key e)) e m) es em) k = None \<longleftrightarrow>
   map_of em k = None \<and> (\<forall>e \<in> set es. the (route_key e) \<noteq> k)"
  by (induction es arbitrary: em) (auto simp: update_conv')

lemma route_key_None [simp]: "route_key e = None \<longleftrightarrow> rt_Dst e = None"
  by (simp add: route_key_def split: option.split)

text \<open>The method when every expected route has a destination.\<close>

lemma RouteTable_Ensure_unfold:
  assumes list: "nl_RouteList nl link w = (Inr actual, w1)"
    and dst: "\<forall>e \<in> set es. rt_Dst e \<noteq> None"
  shows "RouteTable_Ensure nl ord link es flag w =
     bindM
       (if flag then
          forM (\<lambda>r. wrapM ''error removing route: %v'' (callM (nl_RouteDel nl r)))
            (diff_stale routeEqual route_key (indexBy route_key actual) es
             @ diff_extra route_key es (ord (indexBy route_key actual)))
        else retM ())
       (\<lambda>_. forM (\<lambda>r. wrapM ''error creating route %v: %v'' (callM (nl_RouteAdd nl r)))
              (filter (diff_missing routeEqual route_key (indexBy route_key actual)) es)) w1"
proof -
  have "(\<forall>e \<in> set es. the (route_key e) \<noteq> k) \<longleftrightarrow> (\<forall>e \<in> set es. route_key e \<noteq> Some k)" for k
    using dst by (metis option.collapse option.sel route_key_None)
  then show ?thesis
    by (simp add: RouteTable_Ensure_def bind_call_Inr [of "nl_RouteList nl link", OF list]
        route_diff_Inr [OF dst] expected_index_None diff_extra_def Let_def)
qed

section \<open>Properties\<close>

lemma route_clash_key: "route_clash a b \<Longrightarrow> route_key a \<noteq> None \<and> route_key a = route_key b"
  by (auto simp: route_clash_def route_key_ipnet ipnet_key_def split: option.splits)

lemma route_clash_cong: "routeEqual a b \<Longrightarrow> route_clash a r = route_clash b r"
  using ipnet_eq.eq_key [of "rt_Dst a" "rt_Dst b"] ipnetEqual_None [of "rt_Dst a" "rt_Dst b"]
  by (simp add: route_clash_def routeEqual_iff)

lemma on_link_cong: "routeEqual a b \<Longrightarrow> on_link l a = on_link l b"
  by (simp add: on_link_def routeEqual_iff split: option.split)

lemma route_kernel_list:
  "route_kernel nl tbl accept \<Longrightarrow> nl_RouteList nl l w = (Inr (filter (on_link l) (tbl w)), w)"
  by (simp add: route_kernel_def)

lemma route_kernel_adds:
  assumes "route_kernel nl tbl accept"
  shows "adds_entry tbl accept route_clash routeEqual (nl_RouteAdd nl)"
    and "refuses_clash tbl route_clash (nl_RouteAdd nl)"
  using assms by (simp_all add: route_kernel_def)

text \<open>The removals, and the additions after them, do what they should.\<close>

lemma Ensure_removes:
  fixes ord link es nl tbl w
  defines "T \<equiv> filter (on_link link) (tbl w)"
  defines "R \<equiv> diff_stale routeEqual route_key (indexBy route_key T) es
      @ diff_extra route_key es (ord (indexBy route_key T))"
  assumes del: "dels_entry tbl (nl_RouteDel nl)" and ord: "range_order ord"
    and T: "distinct_on route_key T" and es: "distinct_on route_key es"
  shows "set R = {a \<in> set T. route_key a \<noteq> None \<and> \<not> (\<exists>e \<in> set es. routeEqual a e)}"
    and "\<exists>w'. forM (\<lambda>r. wrapM msg (callM (nl_RouteDel nl r))) R w = (Ret (), w') \<and>
      tbl w' = filter (\<lambda>x. x \<notin> set R) (tbl w)"
proof -
  show R: "set R = {a \<in> set T. route_key a \<noteq> None \<and> \<not> (\<exists>e \<in> set es. routeEqual a e)}"
    using route_eq.set_stale_extra [OF T es] by (simp add: R_def set_diff_extra [OF ord])
  then have "set R \<subseteq> set (tbl w)" by (auto simp: T_def)
  moreover have "distinct R"
    unfolding R_def distinct_diff_extra [OF ord] by (rule route_eq.distinct_stale_extra [OF es])
  ultimately show "\<exists>w'. forM (\<lambda>r. wrapM msg (callM (nl_RouteDel nl r))) R w = (Ret (), w') \<and>
      tbl w' = filter (\<lambda>x. x \<notin> set R) (tbl w)" using forM_dels [OF del] by blast
qed

lemma removed_no_clash:
  assumes R: "R = {a \<in> set (filter (on_link link) T). route_key a \<noteq> None \<and> \<not> (\<exists>e \<in> set es. routeEqual a e)}"
    and es: "distinct_on route_key es" "\<forall>e \<in> set es. rt_Dst e \<noteq> None"
    and foreign: "\<forall>x \<in> set T. \<not> on_link link x \<longrightarrow> (\<forall>e \<in> set es. \<not> route_clash x e)"
    and x: "x \<in> set T" "x \<notin> R" and c: "c \<in> set es" "\<not> (\<exists>a \<in> set (filter (on_link link) T). routeEqual a c)"
  shows "\<not> route_clash x c"
proof
  assume clash: "route_clash x c"
  then have link: "on_link link x" using foreign x(1) c(1) by blast
  have key: "route_key x \<noteq> None" "route_key x = route_key c" using route_clash_key [OF clash] by blast+
  obtain e where "e \<in> set es" "routeEqual x e"
    using R x link key(1) by (auto simp del: route_key_None)
  then show False
    using route_eq.kept_created_keys [of es x T "on_link link" e c] es x(1) c key link by simp
qed

lemma Ensure_installs:
  assumes ker: "route_kernel nl tbl accept" and ord: "range_order ord"
    and T: "distinct_on route_key (filter (on_link link) (tbl w))"
    and es: "\<forall>e \<in> set es. rt_Dst e \<noteq> None \<and> accept e \<and> on_link link e" "distinct_on route_key es"
    and foreign: "\<forall>x \<in> set (tbl w). \<not> on_link link x \<longrightarrow> (\<forall>e \<in> set es. \<not> route_clash x e)"
  shows "\<exists>w'. RouteTable_Ensure nl ord link es True w = (Ret (), w') \<and>
    installed routeEqual route_key (on_link link) es (tbl w') \<and>
    filter (\<lambda>r. \<not> on_link link r \<or> route_key r = None) (tbl w') =
    filter (\<lambda>r. \<not> on_link link r \<or> route_key r = None) (tbl w)"
proof -
  let ?T = "filter (on_link link) (tbl w)"
  let ?R = "diff_stale routeEqual route_key (indexBy route_key ?T) es
      @ diff_extra route_key es (ord (indexBy route_key ?T))"
  let ?C = "filter (diff_missing routeEqual route_key (indexBy route_key ?T)) es"
  have dst: "\<forall>e \<in> set es. rt_Dst e \<noteq> None" using es by simp
  have del: "dels_entry tbl (nl_RouteDel nl)"
    and add: "adds_entry tbl accept route_clash routeEqual (nl_RouteAdd nl)"
    using ker by (simp_all add: route_kernel_def)
  note R = Ensure_removes(1) [OF del ord T es(2)]
  obtain w1 where w1: "forM (\<lambda>r. wrapM ''error removing route: %v'' (callM (nl_RouteDel nl r))) ?R w = (Ret (), w1)"
    "tbl w1 = filter (\<lambda>x. x \<notin> set ?R) (tbl w)" using Ensure_removes(2) [OF del ord T es(2)] by blast
  have C: "set ?C = {e \<in> set es. \<not> (\<exists>a \<in> set ?T. routeEqual a e)}" "distinct_on route_key ?C"
    using route_eq.set_missing [OF T] dst distinct_on_filter [OF es(2)] by simp_all
  have "\<forall>x \<in> set (tbl w1). \<forall>c \<in> set ?C. \<not> route_clash x c"
    using removed_no_clash [OF R es(2) dst foreign] C(1) w1(2) by simp
  moreover have "\<forall>r \<in> set ?C. accept r" using es by simp
  ultimately obtain w2 rs where w2:
    "forM (\<lambda>r. wrapM ''error creating route %v: %v'' (callM (nl_RouteAdd nl r))) ?C w1 = (Ret (), w2)"
    "list_all2 routeEqual rs ?C" "tbl w2 = tbl w1 @ rs"
    using forM_adds [OF add route_clash_cong _ _ sorted_wrt_no_clash [OF C(2) route_clash_key]] by blast
  have "RouteTable_Ensure nl ord link es True w = (Ret (), w2)"
    by (simp add: RouteTable_Ensure_unfold [OF route_kernel_list [OF ker] dst] bind_forM_Ret [OF w1(1)] w2)
  moreover have "installed routeEqual route_key (on_link link) es (tbl w2)"
    unfolding w2(3) w1(2) using es
    by (intro route_eq.replaced_installed [OF es(2) _ T on_link_cong _ R C w2(2)]) auto
  moreover have "filter (\<lambda>r. \<not> on_link link r \<or> route_key r = None) (tbl w2) =
      filter (\<lambda>r. \<not> on_link link r \<or> route_key r = None) (tbl w)"
    unfolding w2(3) w1(2) using es R
    by (intro route_eq.replaced_frame [OF on_link_cong _ _ w2(2), where es = es]) auto
  ultimately show ?thesis by blast
qed

lemma Ensure_installed_noop:
  assumes ker: "route_kernel nl tbl accept" and ord: "range_order ord"
    and es: "distinct_on route_key es" "\<forall>e \<in> set es. rt_Dst e \<noteq> None"
    and inst: "installed routeEqual route_key (on_link link) es (tbl w)"
  shows "RouteTable_Ensure nl ord link es flag w = (Ret (), w)"
  using route_eq.installed_no_diff [OF inst es(1) _ ord] es(2)
  by (simp add: RouteTable_Ensure_unfold [OF route_kernel_list [OF ker] es(2)])

text \<open>Without removals: the missing routes are appended when no existing route excludes them.\<close>

lemma Ensure_adds_missing:
  assumes ker: "route_kernel nl tbl accept"
    and T: "distinct_on route_key (filter (on_link link) (tbl w))"
    and es: "\<forall>e \<in> set es. rt_Dst e \<noteq> None \<and> accept e" "distinct_on route_key es"
    and same: "\<forall>x \<in> set (tbl w). \<forall>e \<in> set es. route_clash x e \<longrightarrow> on_link link x \<and> routeEqual x e"
  shows "\<exists>w' rs. RouteTable_Ensure nl ord link es False w = (Ret (), w') \<and> tbl w' = tbl w @ rs \<and>
    (\<forall>e \<in> set es. \<exists>r \<in> set (tbl w'). routeEqual r e) \<and> (\<forall>r \<in> set rs. \<exists>e \<in> set es. routeEqual r e)"
proof -
  let ?T = "filter (on_link link) (tbl w)"
  let ?C = "filter (diff_missing routeEqual route_key (indexBy route_key ?T)) es"
  have dst: "\<forall>e \<in> set es. rt_Dst e \<noteq> None" using es by simp
  have C: "set ?C = {e \<in> set es. \<not> (\<exists>a \<in> set ?T. routeEqual a e)}" "distinct_on route_key ?C"
    using route_eq.set_missing [OF T] dst distinct_on_filter [OF es(2)] by simp_all
  have nc: "\<forall>x \<in> set (tbl w). \<forall>c \<in> set ?C. \<not> route_clash x c" using same C(1) by auto
  have acc: "\<forall>c \<in> set ?C. accept c" using es by simp
  obtain w' rs where w': "forM (\<lambda>r. wrapM ''error creating route %v: %v'' (callM (nl_RouteAdd nl r))) ?C w = (Ret (), w')"
    "list_all2 routeEqual rs ?C" "tbl w' = tbl w @ rs"
    using forM_adds [OF route_kernel_adds(1) [OF ker] route_clash_cong acc nc
        sorted_wrt_no_clash [OF C(2) route_clash_key]] by blast
  have "\<exists>r \<in> set (tbl w'). routeEqual r e" if "e \<in> set es" for e
  proof (cases "e \<in> set ?C")
    case True
    then show ?thesis using list_all2_set2 [OF w'(2) True] w'(3) by auto
  next
    case False
    then show ?thesis using that C(1) w'(3) by auto
  qed
  moreover have "\<exists>e \<in> set es. routeEqual r e" if "r \<in> set rs" for r
    using list_all2_set1 [OF w'(2) that] by auto
  ultimately show ?thesis
    using w' by (auto simp: RouteTable_Ensure_unfold [OF route_kernel_list [OF ker] dst])
qed

section \<open>A routing table to try it on\<close>

definition eth_link :: link where
  "eth_link = \<lparr>lk_Kind = OtherLink ''device'', lk_Name = ''eth0'', lk_Index = 2, lk_MTU = 1500,
     lk_HardwareAddr = [], lk_Flags = FlagUp\<rparr>"

definition pod_route :: "byte \<Rightarrow> byte \<Rightarrow> route" where
  "pod_route n gw = zero_route\<lparr>rt_LinkIndex := 2, rt_Dst := Some (pod_net n),
     rt_Gw := Some [192, 168, 0, gw], rt_Protocol := RTPROT_BOOT, rt_Table := RT_TABLE_MAIN,
     rt_Type := RTN_UNICAST\<rparr>"

lemma ref_route_kernel: "route_kernel ref_netlink rw_routes (\<lambda>_. True)"
  unfolding route_kernel_def ref_netlink_def
  by (simp add: ref_adds_entry ref_refuses_clash ref_dels_entry on_link_def [abs_def])

lemmas sample_route_simps = pod_route_def pod_net_def zero_route_def route_key_def on_link_def
  eth_link_def net_eval IPNet_String_def



text \<open>
  Without deleteExtraRoutes, RouteTable.Ensure never deletes a route: what it does and
  returns does not depend on the delete call at all, in any state and on every path.
\<close>

lemma RouteTable_Ensure_keeps_routes:
  "RouteTable_Ensure (nl\<lparr>nl_RouteDel := d\<rparr>) ord link es False = RouteTable_Ensure nl ord link es False"
  by (simp add: RouteTable_Ensure_def Let_def cong: sum.case_cong)

text \<open>
  C37: Without deleteExtraRoutes, RouteTable.Ensure cannot replace a route.  When the table
  holds a route to the destination of an expected one that differs from it (another gateway or
  device, say), the list of routes to remove is computed and then ignored; the kernel refuses
  the new route as a duplicate, the call returns an error, and the outdated route stays.
\<close>

theorem RouteTable_Ensure_changed_route_stuck:
  assumes ker: "route_kernel nl tbl accept"
    and T: "distinct_on route_key (filter (on_link link) (tbl w))"
    and es: "\<forall>e \<in> set es. rt_Dst e \<noteq> None \<and> accept e"
    and a: "a \<in> set (tbl w)" "on_link link a" and e: "e \<in> set es"
    and changed: "route_clash a e" "\<not> routeEqual a e"
  shows "\<exists>err w'. RouteTable_Ensure nl ord link es False w = (Err err, w') \<and> a \<in> set (tbl w')"
proof -
  let ?T = "filter (on_link link) (tbl w)"
  have dst: "\<forall>e \<in> set es. rt_Dst e \<noteq> None" using es by simp
  obtain k where k: "route_key e = Some k" using dst e by (metis option.exhaust route_key_None)
  then have "map_of (indexBy route_key ?T) k = Some a"
    using indexBy_distinct_on [OF T, of a k] a route_clash_key [OF changed(1)] by simp
  then have "e \<in> set (filter (diff_missing routeEqual route_key (indexBy route_key ?T)) es)"
    using e changed by (simp add: diff_missing_def k)
  then show ?thesis
    using forM_adds_clash [OF route_kernel_adds [OF ker] _ _ a(1) changed(1),
        of "filter (diff_missing routeEqual route_key (indexBy route_key ?T)) es"] es
    by (simp add: RouteTable_Ensure_unfold [OF route_kernel_list [OF ker] dst])
qed

theorem RouteTable_Ensure_changed_route_stuck_witness:
  "\<exists>err w'. RouteTable_Ensure ref_netlink (\<lambda>xs. xs) None [pod_route 1 10] False
      (empty_world\<lparr>rw_routes := [pod_route 1 11]\<rparr>) = (Err err, w') \<and> pod_route 1 11 \<in> set (rw_routes w')"
proof -
  have "route_clash (pod_route 1 11) (pod_route 1 10)" "\<not> routeEqual (pod_route 1 11) (pod_route 1 10)"
    by (simp_all add: route_clash_def routeEqual_iff pod_route_def zero_route_def ipEqual_length16)
  then show ?thesis
    using RouteTable_Ensure_changed_route_stuck [OF ref_route_kernel, of None
        "empty_world\<lparr>rw_routes := [pod_route 1 11]\<rparr>" "[pod_route 1 10]" "pod_route 1 11" "pod_route 1 10"]
    by (simp add: distinct_on_Cons on_link_def pod_route_def zero_route_def)
qed

text \<open>
  An expected route without a destination is reported before anything is changed: once
  the listing has succeeded, the call returns that error and the state is the one the listing
  left, whatever the other expected routes are.
\<close>

lemma RouteTable_Ensure_rejects_nil_dst:
  assumes "nl_RouteList nl link w = (Inr actual, w1)" and "\<exists>e \<in> set es. rt_Dst e = None"
  shows "RouteTable_Ensure nl ord link es flag w =
    (Err (Errorf ''expected route did not have dst: %v'' None), w1)"
  using assms(2)
  by (simp add: RouteTable_Ensure_def bind_call_Inr [of "nl_RouteList nl link", OF assms(1)] route_diff_Inl)

lemma RouteTable_Ensure_rejects_nil_dst_example:
  "RouteTable_Ensure ref_netlink rev None [pod_route 1 10, zero_route] True empty_world =
    (Err (Errorf ''expected route did not have dst: %v'' None), empty_world)"
  by (rule RouteTable_Ensure_rejects_nil_dst [of _ _ _ "[]"])
    (simp_all add: ref_netlink_def empty_world_def zero_route_def)

end
