(* ===== verification/Layer2.thy ===== *)
theory Layer2
  imports Provider Route_Table
begin

text \<open>
  The layer 2 provider (\<^verbatim>\<open>src/pkg/routing/layer2/provider.go\<close>): a route to the pod network of every
  remote node, through the node's address on the underlying link.
\<close>

section \<open>The code\<close>

record Layer2RoutingProvider =
  l2_lastVersionApplied :: "64 word"
  l2_underlyingLink :: link

definition NewLayer2RoutingProvider :: "'w netlink \<Rightarrow> string \<Rightarrow> ('w, Layer2RoutingProvider) io" where
  "NewLayer2RoutingProvider nl deviceName =
     bindM (wrapM ''error fetching target link %q: %v'' (callM (nl_LinkByName nl deviceName))) (\<lambda>underlyingLink.
       case underlyingLink of
         None \<Rightarrow> throwM (Errorf ''target link not found %q'' None)
       | Some link \<Rightarrow> retM \<lparr>l2_lastVersionApplied = 0, l2_underlyingLink = link\<rparr>)"

definition layer2_route :: "int \<Rightarrow> NodeInfo \<Rightarrow> route" where
  "layer2_route underlyingLinkIndex remote =
     zero_route\<lparr>rt_LinkIndex := underlyingLinkIndex, rt_Dst := ni_PodCIDR remote, rt_Gw := ni_Address remote,
       rt_Protocol := RTPROT_BOOT, rt_Table := RT_TABLE_MAIN, rt_Type := RTN_UNICAST\<rparr>"

definition layer2_routes :: "Layer2RoutingProvider \<Rightarrow> NodeInfo \<Rightarrow> NodeInfo list \<Rightarrow> route list" where
  "layer2_routes p me allNodes =
     map (layer2_route (lk_Index (l2_underlyingLink p))) (remotes me allNodes)"

definition Layer2_EnsureCIDRs ::
  "'w netlink \<Rightarrow> (string \<times> nat) order \<Rightarrow> (string \<times> route) order \<Rightarrow> NodeMap \<Rightarrow>
   (Layer2RoutingProvider \<times> 'w, unit) io"
where
  "Layer2_EnsureCIDRs nl ordS ordR nodeMap =
     bindM getP (\<lambda>p.
       if up_to_date (l2_lastVersionApplied p) nodeMap then retM ()
       else case Snapshot ordS nodeMap of
         (None, allNodes, version) \<Rightarrow> throwM no_local_node
       | (Some me, allNodes, version) \<Rightarrow>
           bindM (wrapM ''error applying route table: %v''
               (liftW (RouteTable_Ensure nl ordR None (layer2_routes p me allNodes) False)))
             (\<lambda>_. bindM getP (\<lambda>p. putP (p\<lparr>l2_lastVersionApplied := version\<rparr>))))"

definition Layer2_Close :: "(Layer2RoutingProvider \<times> 'w, unit) io" where
  "Layer2_Close = retM ()"

section \<open>Properties\<close>

definition layer2_action ::
  "'w netlink \<Rightarrow> (string \<times> route) order \<Rightarrow> NodeInfo \<Rightarrow> NodeInfo list \<Rightarrow> (Layer2RoutingProvider \<times> 'w, unit) io"
where
  "layer2_action nl ordR me allNodes = bindM getP (\<lambda>p. wrapM ''error applying route table: %v''
     (liftW (RouteTable_Ensure nl ordR None (layer2_routes p me allNodes) False)))"

lemma Layer2_steps:
  "Layer2_EnsureCIDRs nl ordS ordR =
   ensure_steps l2_lastVersionApplied (\<lambda>v. l2_lastVersionApplied_update (\<lambda>_. v)) (layer2_action nl ordR) ordS"
  by (auto simp: fun_eq_iff Layer2_EnsureCIDRs_def ensure_steps_def layer2_action_def bindM_assoc
      split: prod.split option.split)

interpretation layer2: routing_provider "Layer2_EnsureCIDRs nl ordS ordR" l2_lastVersionApplied
  for nl :: "'w netlink" and ordS ordR
  unfolding Layer2_steps
  by (rule routing_provider_steps) (auto simp: layer2_action_def intro!: keeps_intros)

lemma in_layer2_routes:
  "layer2_route (lk_Index (l2_underlyingLink p)) r \<in> set (layer2_routes p me nodes)" if "r \<in> set (remotes me nodes)"
  using that by (simp add: layer2_routes_def)

text \<open>
  EnsureCIDRs of the layer 2 provider installs, for every remote node of the snapshot that
  has an address and a pod network, a route to that network through that address on the
  underlying link; it keeps every route that was there, adds none but these, and records the
  version of the snapshot.  The pod networks are distinct and no existing route to one of them
  differs from the expected one.
\<close>

lemma Layer2_installs:
  assumes ker: "route_kernel nl tbl accept" and snap: "Snapshot ordS nm = (Some me, nodes, v)"
    and stale: "\<not> up_to_date (l2_lastVersionApplied p) nm"
    and T: "distinct_on route_key (tbl w)"
    and es: "distinct_on route_key (layer2_routes p me nodes)" "\<forall>e \<in> set (layer2_routes p me nodes). accept e"
    and same: "\<forall>x \<in> set (tbl w). \<forall>e \<in> set (layer2_routes p me nodes). route_clash x e \<longrightarrow> routeEqual x e"
  shows "\<exists>w' rs. Layer2_EnsureCIDRs nl ordS ordR nm (p, w) = (Ret (), (p\<lparr>l2_lastVersionApplied := v\<rparr>, w')) \<and>
    tbl w' = tbl w @ rs \<and>
    (\<forall>r \<in> set nodes. ni_Name r \<noteq> ni_Name me \<and> ni_Address r \<noteq> None \<and> ni_PodCIDR r \<noteq> None \<longrightarrow>
       (\<exists>x \<in> set (tbl w'). routeEqual x (layer2_route (lk_Index (l2_underlyingLink p)) r))) \<and>
    (\<forall>x \<in> set rs. \<exists>r \<in> set nodes. ni_Name r \<noteq> ni_Name me \<and>
       routeEqual x (layer2_route (lk_Index (l2_underlyingLink p)) r))"
proof -
  let ?es = "layer2_routes p me nodes"
  have dst: "\<forall>e \<in> set ?es. rt_Dst e \<noteq> None \<and> accept e"
    using es(2) by (auto simp: layer2_routes_def layer2_route_def in_remotes)
  obtain w' rs where w': "RouteTable_Ensure nl ordR None ?es False w = (Ret (), w')" "tbl w' = tbl w @ rs"
    "\<forall>e \<in> set ?es. \<exists>r \<in> set (tbl w'). routeEqual r e" "\<forall>r \<in> set rs. \<exists>e \<in> set ?es. routeEqual r e"
    using Ensure_adds_missing [OF ker _ dst es(1), of None w ordR] T same by (auto simp: on_link_def)
  have "Layer2_EnsureCIDRs nl ordS ordR nm (p, w) = (Ret (), (p\<lparr>l2_lastVersionApplied := v\<rparr>, w'))"
    unfolding Layer2_steps
    by (simp add: ensure_steps_run [of l2_lastVersionApplied, OF stale snap] layer2_action_def bindM_assoc
        bind_liftW_Ret [of "RouteTable_Ensure nl ordR None ?es False", OF w'(1)])
  moreover have "\<exists>x \<in> set (tbl w'). routeEqual x (layer2_route (lk_Index (l2_underlyingLink p)) r)"
    if "r \<in> set nodes" "ni_Name r \<noteq> ni_Name me \<and> ni_Address r \<noteq> None \<and> ni_PodCIDR r \<noteq> None" for r
    using w'(3) that in_layer2_routes [of r me nodes p] by (simp add: in_remotes)
  moreover have "\<exists>r \<in> set nodes. ni_Name r \<noteq> ni_Name me \<and>
       routeEqual x (layer2_route (lk_Index (l2_underlyingLink p)) r)" if x: "x \<in> set rs" for x
  proof -
    obtain e where "e \<in> set ?es" "routeEqual x e" using w'(4) x by blast
    then show ?thesis by (auto simp: layer2_routes_def in_remotes)
  qed
  ultimately show ?thesis using w'(2) by blast
qed

definition l2_sample :: Layer2RoutingProvider where
  "l2_sample = \<lparr>l2_lastVersionApplied = 0, l2_underlyingLink = eth_link\<rparr>"

lemma l2_sample_routes:
  "layer2_routes l2_sample (ni_sample ''a'' 1) [ni_sample ''b'' 2, ni_sample ''a'' 1] = [layer2_route 2 (ni_sample ''b'' 2)]"
  by (simp add: layer2_routes_def remotes_def ni_sample_def l2_sample_def eth_link_def)

lemma Layer2_installs_example:
  "\<exists>w' rs. Layer2_EnsureCIDRs ref_netlink rev rev nm_sample (l2_sample, empty_world) =
      (Ret (), (l2_sample\<lparr>l2_lastVersionApplied := 2\<rparr>, w')) \<and>
    (\<exists>x \<in> set (rw_routes w'). routeEqual x (layer2_route 2 (ni_sample ''b'' 2)))"
  using Layer2_installs [OF ref_route_kernel nm_sample_snapshot, of l2_sample empty_world rev]
  unfolding l2_sample_routes
  by (simp add: up_to_date_def l2_sample_def empty_world_def distinct_on_Cons ni_sample_def eth_link_def) blast



end
