(* ===== verification/Links.thy ===== *)
theory Links
  imports Ref_Kernel
begin

text \<open>
  \<^verbatim>\<open>Links.Ensure\<close> of \<^verbatim>\<open>src/pkg/routing/netutil/links.go\<close>: creates the expected links, removes the
  links whose name has the prefix and is not expected, and returns the links by name.  A link
  that exists is returned as it is; the source marks reconfiguration as not implemented.
\<close>

section \<open>The code\<close>

definition linkEqual :: "'w netlink \<Rightarrow> link \<Rightarrow> link \<Rightarrow> bool" where
  "linkEqual nl a e =
     (if nl_LinkType nl a \<noteq> nl_LinkType nl e then False
      else if lk_Name a \<noteq> lk_Name e then False
      else True)"

definition link_actual_key :: "string \<Rightarrow> link \<Rightarrow> string option" where
  "link_actual_key pre l = (if HasPrefix (lk_Name l) pre then Some (lk_Name l) else None)"

definition link_key :: "link \<Rightarrow> string option" where
  "link_key l = Some (lk_Name l)"

text \<open>
  The loop over the expected links: those to create, and the existing ones to return.  The
  comparison decides only whether a warning is logged.
\<close>

fun links_diff ::
  "'w netlink \<Rightarrow> (string, link) gomap \<Rightarrow> (string \<times> link) list \<Rightarrow> (string, link) gomap \<Rightarrow> link list \<Rightarrow>
   (string, link) gomap \<times> link list"
where
  "links_diff nl actualMap [] retMap create = (retMap, create)"
| "links_diff nl actualMap ((k, e) # kes) retMap create =
     (case map_of actualMap k of
        None \<Rightarrow> links_diff nl actualMap kes retMap (create @ [e])
      | Some a \<Rightarrow>
          (if \<not> linkEqual nl a e
           then \<comment> \<open>logs that a change is not implemented\<close>
             links_diff nl actualMap kes (AList.update k a retMap) create
           else links_diff nl actualMap kes (AList.update k a retMap) create))"

fun links_create :: "'w netlink \<Rightarrow> link list \<Rightarrow> (string, link) gomap \<Rightarrow> ('w, (string, link) gomap) io" where
  "links_create nl [] retMap = retM retMap"
| "links_create nl (l # ls) retMap =
     bindM (wrapM ''error creating link %v: %v'' (callM (nl_LinkAdd nl l)))
       (\<lambda>l'. links_create nl ls (AList.update (lk_Name l') l' retMap))"

definition Links_Ensure ::
  "'w netlink \<Rightarrow> (string \<times> link) order \<Rightarrow> (string \<times> link) order \<Rightarrow> link list \<Rightarrow> string \<Rightarrow>
   ('w, (string, link) gomap) io"
where
  "Links_Ensure nl ordE ordA expected pre =
     bindM (wrapM ''error doing ip route show: %v'' (callM (nl_LinkList nl))) (\<lambda>allLinks.
       let actualMap = indexBy (link_actual_key pre) allLinks;
           expectedMap = indexBy link_key expected;
           (retMap, create) = links_diff nl actualMap (ordE expectedMap) [] [];
           remove = map snd (filter (\<lambda>(k, a). map_of expectedMap k = None) (ordA actualMap))
       in bindM (forM (\<lambda>l. wrapM ''error removing link: %v'' (callM (nl_LinkDel nl l))) remove)
            (\<lambda>_. links_create nl create retMap))"

section \<open>The kernel's links\<close>

text \<open>
  Names are unique.  A created link is listed under the name, the index and the kind of the
  object that was created; other attributes are the kernel's.
\<close>

definition link_kernel :: "'w netlink \<Rightarrow> ('w \<Rightarrow> link list) \<Rightarrow> (link \<Rightarrow> bool) \<Rightarrow> bool" where
  "link_kernel nl tbl accept \<longleftrightarrow>
     (\<forall>w. nl_LinkList nl w = (Inr (tbl w), w)) \<and>
     (\<forall>l w. accept l \<and> (\<forall>x \<in> set (tbl w). \<not> same_name x l) \<longrightarrow>
        (\<exists>w' l' l''. nl_LinkAdd nl l w = (Inr l', w') \<and> tbl w' = tbl w @ [l''] \<and> same_name l' l \<and>
           same_name l'' l \<and> lk_Index l'' = lk_Index l' \<and> lk_Kind l'' = lk_Kind l)) \<and>
     dels_entry tbl (nl_LinkDel nl)"

section \<open>Properties\<close>

interpretation link_eq: keyed_equality same_name link_key
  by unfold_locales (auto simp: link_key_def)

lemma link_key_not_None [simp]: "link_key l \<noteq> None"
  by (simp add: link_key_def)

lemma distinct_on_link_key: "distinct_on link_key ls \<longleftrightarrow> distinct (map lk_Name ls)"
  by (induction ls) (auto simp: distinct_on_Cons link_key_def)

lemma links_diff_eq:
  "links_diff nl am kes ret cr =
     (fold (\<lambda>(k, e) m. case map_of am k of None \<Rightarrow> m | Some a \<Rightarrow> AList.update k a m) kes ret,
      cr @ map snd (filter (\<lambda>(k, e). map_of am k = None) kes))"
  by (induction nl am kes ret cr rule: links_diff.induct) (auto split: option.splits)

lemma map_of_returned:
  "map_of (fold (\<lambda>(k, e) m. case map_of am k of None \<Rightarrow> m | Some a \<Rightarrow> AList.update k a m) kes ret) n =
   (if n \<in> fst ` set kes \<and> map_of am n \<noteq> None then map_of am n else map_of ret n)"
  by (induction kes arbitrary: ret) (auto simp: update_conv' split: option.splits)

lemma links_create_spec:
  assumes ker: "link_kernel nl tbl accept" and "\<forall>l \<in> set ls. accept l"
    and "distinct_on link_key ls" and "\<forall>x \<in> set (tbl w). \<forall>l \<in> set ls. \<not> same_name x l"
  shows "\<exists>w' ret' rs. links_create nl ls ret w = (Ret ret', w') \<and> tbl w' = tbl w @ rs \<and>
    list_all2 (\<lambda>r l. same_name r l \<and> lk_Kind r = lk_Kind l \<and>
       (\<exists>l'. map_of ret' (lk_Name l) = Some l' \<and> same_name l' l \<and> lk_Index l' = lk_Index r)) rs ls \<and>
    (\<forall>n. n \<notin> lk_Name ` set ls \<longrightarrow> map_of ret' n = map_of ret n)"
  using assms(2-)
proof (induction ls arbitrary: w ret)
  case (Cons l ls)
  obtain w1 l' l'' where add: "nl_LinkAdd nl l w = (Inr l', w1)" and w1: "tbl w1 = tbl w @ [l'']"
    "same_name l' l" "same_name l'' l" "lk_Index l'' = lk_Index l'" "lk_Kind l'' = lk_Kind l"
    using ker Cons.prems unfolding link_kernel_def by (metis list.set_intros(1))
  have fresh: "lk_Name l \<notin> lk_Name ` set ls" "distinct_on link_key ls"
    using Cons.prems(2) by (simp_all add: distinct_on_link_key)
  have "lk_Name l'' \<noteq> lk_Name m" if "m \<in> set ls" for m using that fresh(1) w1(3) by (metis imageI)
  then have "\<forall>x \<in> set (tbl w1). \<forall>l \<in> set ls. \<not> same_name x l" using w1(1) Cons.prems(3) by simp
  then obtain w' ret' rs where IH: "links_create nl ls (AList.update (lk_Name l') l' ret) w1 = (Ret ret', w')"
    "tbl w' = tbl w1 @ rs"
    "list_all2 (\<lambda>r l. same_name r l \<and> lk_Kind r = lk_Kind l \<and>
       (\<exists>l'. map_of ret' (lk_Name l) = Some l' \<and> same_name l' l \<and> lk_Index l' = lk_Index r)) rs ls"
    "\<forall>n. n \<notin> lk_Name ` set ls \<longrightarrow> map_of ret' n = map_of (AList.update (lk_Name l') l' ret) n"
    using Cons.IH [of w1 "AList.update (lk_Name l') l' ret"] Cons.prems fresh(2) by auto
  show ?case
  proof (intro exI conjI)
    show "links_create nl (l # ls) ret w = (Ret ret', w')"
      using IH(1) by (simp add: bind_call_Inr [of "nl_LinkAdd nl l", OF add])
    show "tbl w' = tbl w @ (l'' # rs)" using IH(2) w1(1) by simp
    show "list_all2 (\<lambda>r l. same_name r l \<and> lk_Kind r = lk_Kind l \<and>
       (\<exists>l'. map_of ret' (lk_Name l) = Some l' \<and> same_name l' l \<and> lk_Index l' = lk_Index r)) (l'' # rs) (l # ls)"
      using IH(3,4) fresh(1) w1 by (auto simp: update_conv')
    show "\<forall>n. n \<notin> lk_Name ` set (l # ls) \<longrightarrow> map_of ret' n = map_of ret n"
      using IH(4) w1(2) by (simp add: update_conv')
  qed
qed simp

text \<open>The managed links are those with the prefix.\<close>

lemma indexBy_link_actual_key:
  "indexBy (link_actual_key pre) ls = indexBy link_key (filter (\<lambda>l. HasPrefix (lk_Name l) pre) ls)"
proof -
  have "link_actual_key pre = (\<lambda>l. if HasPrefix (lk_Name l) pre then link_key l else None)"
    by (simp add: fun_eq_iff link_actual_key_def link_key_def)
  then show ?thesis by (simp add: indexBy_filter)
qed

lemma Links_Ensure_unfold:
  assumes ord: "range_order ordE" and list: "nl_LinkList nl w = (Inr actual, w1)"
    and es: "distinct (map lk_Name es)"
  shows "\<exists>cs ret. let am = indexBy link_key (filter (\<lambda>l. HasPrefix (lk_Name l) pre) actual) in
    mset cs = mset (filter (diff_missing same_name link_key am) es) \<and>
    (\<forall>n. map_of ret n = (if n \<in> lk_Name ` set es then map_of am n else None)) \<and>
    Links_Ensure nl ordE ordA es pre w =
      bindM (forM (\<lambda>l. wrapM ''error removing link: %v'' (callM (nl_LinkDel nl l))) (diff_extra link_key es (ordA am)))
        (\<lambda>_. links_create nl cs ret) w1"
proof -
  let ?am = "indexBy link_key (filter (\<lambda>l. HasPrefix (lk_Name l) pre) actual)"
  let ?kes = "ordE (indexBy link_key es)"
  have ds: "distinct_on link_key es" "\<forall>e \<in> set es. link_key e \<noteq> None"
    using es by (simp_all add: distinct_on_link_key)
  have dm: "diff_missing same_name link_key ?am e \<longleftrightarrow> map_of ?am (the (link_key e)) = None" for e
    using indexBy_SomeD [of link_key _ "lk_Name e"]
    by (auto simp: diff_missing_def link_key_def split: option.splits)
  have "fst ` set ?kes = lk_Name ` set es"
    unfolding range_order_set [OF ord] indexBy_eq_map [OF ds] by (force simp: link_key_def)
  then have ret: "\<forall>n. map_of (fold (\<lambda>(k, e) m. case map_of ?am k of None \<Rightarrow> m | Some a \<Rightarrow> AList.update k a m) ?kes []) n =
      (if n \<in> lk_Name ` set es then map_of ?am n else None)" by (auto simp: map_of_returned)
  have extra: "map snd (filter (\<lambda>(k, a). map_of (indexBy link_key es) k = None) (ordA ?am)) = diff_extra link_key es (ordA ?am)"
    by (simp add: diff_extra_def indexBy_None_iff)
  show ?thesis unfolding Let_def
    by (intro exI conjI, subst dm [abs_def], rule range_indexBy [OF ord ds, of "\<lambda>k e. map_of ?am k = None"], rule ret)
      (simp add: Links_Ensure_def bind_call_Inr [of "nl_LinkList nl", OF list] indexBy_link_actual_key links_diff_eq extra Let_def)
qed

text \<open>The run of the method: what is removed, what is created, and what is returned.\<close>

lemma Links_Ensure_run:
  assumes ker: "link_kernel nl tbl accept" and ord: "range_order ordE" "range_order ordA"
    and names: "distinct (map lk_Name (tbl w))"
    and es: "distinct (map lk_Name es)" "\<forall>e \<in> set es. HasPrefix (lk_Name e) pre \<and> accept e"
  obtains R cs rs ret' w2 where "Links_Ensure nl ordE ordA es pre w = (Ret ret', w2)"
    and "tbl w2 = filter (\<lambda>x. x \<notin> R) (tbl w) @ rs"
    and "R = {a \<in> set (filter (\<lambda>l. HasPrefix (lk_Name l) pre) (tbl w)). link_key a \<noteq> None \<and> \<not> (\<exists>e \<in> set es. same_name a e)}"
    and "set cs = {e \<in> set es. \<not> (\<exists>a \<in> set (filter (\<lambda>l. HasPrefix (lk_Name l) pre) (tbl w)). same_name a e)}"
    and "distinct_on link_key cs"
    and "list_all2 (\<lambda>r l. same_name r l \<and> lk_Kind r = lk_Kind l \<and>
       (\<exists>l'. map_of ret' (lk_Name l) = Some l' \<and> same_name l' l \<and> lk_Index l' = lk_Index r)) rs cs"
    and "\<forall>n. n \<notin> lk_Name ` set cs \<longrightarrow> map_of ret' n =
       (if n \<in> lk_Name ` set es then map_of (indexBy link_key (filter (\<lambda>l. HasPrefix (lk_Name l) pre) (tbl w))) n else None)"
proof -
  let ?mine = "\<lambda>l. HasPrefix (lk_Name l) pre"
  let ?T = "filter ?mine (tbl w)"
  let ?am = "indexBy link_key ?T"
  let ?R = "diff_extra link_key es (ordA ?am)"
  have T: "distinct_on link_key ?T" using names by (simp add: distinct_on_link_key distinct_map_filter)
  have ds: "distinct_on link_key es" "\<forall>e \<in> set es. link_key e \<noteq> None" using es by (simp_all add: distinct_on_link_key)
  have list: "nl_LinkList nl w = (Inr (tbl w), w)" and del: "dels_entry tbl (nl_LinkDel nl)"
    using ker by (simp_all add: link_kernel_def)
  obtain cs ret where cs: "mset cs = mset (filter (diff_missing same_name link_key ?am) es)"
    and ret: "\<forall>n. map_of ret n = (if n \<in> lk_Name ` set es then map_of ?am n else None)"
    and run: "Links_Ensure nl ordE ordA es pre w =
      bindM (forM (\<lambda>l. wrapM ''error removing link: %v'' (callM (nl_LinkDel nl l))) ?R)
        (\<lambda>_. links_create nl cs ret) w"
    using Links_Ensure_unfold [OF ord(1) list es(1), where ordA = ordA and pre = pre] by (auto simp: Let_def)
  have C: "set cs = {e \<in> set es. \<not> (\<exists>a \<in> set ?T. same_name a e)}"
    using link_eq.set_missing [OF T ds(2)] cs by (metis set_mset_mset)
  have dC: "distinct_on link_key cs" unfolding mset_distinct_on [OF cs] by (rule distinct_on_filter [OF ds(1)])
  have "same_name a e" if "link_key e = Some k" "map_of ?am k = Some a" for e k a
    using indexBy_SomeD [OF that(2)] that(1) by (simp add: link_key_def)
  then have "diff_stale same_name link_key ?am es = []" by (rule diff_stale_same)
  then have R: "set ?R = {a \<in> set ?T. link_key a \<noteq> None \<and> \<not> (\<exists>e \<in> set es. same_name a e)}"
    using link_eq.set_stale_extra [OF T ds(1)] by (simp add: set_diff_extra [OF ord(2)])
  have dR: "distinct ?R" using link_eq.distinct_extra distinct_diff_extra [OF ord(2), of "[]"] by simp
  have "set ?R \<subseteq> set (tbl w)" using R by auto
  then obtain w1 where w1: "forM (\<lambda>l. wrapM ''error removing link: %v'' (callM (nl_LinkDel nl l))) ?R w = (Ret (), w1)"
    "tbl w1 = filter (\<lambda>x. x \<notin> set ?R) (tbl w)" using forM_dels [OF del dR] by blast
  have nc: "\<forall>x \<in> set (tbl w1). \<forall>l \<in> set cs. \<not> same_name x l"
  proof (intro ballI notI)
    fix x l assume x: "x \<in> set (tbl w1)" and l: "l \<in> set cs" and same: "same_name x l"
    then have "HasPrefix (lk_Name x) pre" using C es by auto
    then have "x \<in> set ?T" using x w1(2) by simp
    then show False using C l same by blast
  qed
  have acc: "\<forall>l \<in> set cs. accept l" using C es by auto
  obtain w2 ret' rs where w2: "links_create nl cs ret w1 = (Ret ret', w2)" "tbl w2 = tbl w1 @ rs"
    and rs: "list_all2 (\<lambda>r l. same_name r l \<and> lk_Kind r = lk_Kind l \<and>
       (\<exists>l'. map_of ret' (lk_Name l) = Some l' \<and> same_name l' l \<and> lk_Index l' = lk_Index r)) rs cs"
    and ret': "\<forall>n. n \<notin> lk_Name ` set cs \<longrightarrow> map_of ret' n = map_of ret n"
    using links_create_spec [OF ker acc dC nc] by blast
  have "Links_Ensure nl ordE ordA es pre w = (Ret ret', w2)"
    unfolding run by (simp add: bind_forM_Ret [OF w1(1)] w2(1))
  moreover have "tbl w2 = filter (\<lambda>x. x \<notin> set ?R) (tbl w) @ rs" using w2(2) w1(2) by simp
  ultimately show thesis using that R C dC rs ret' unfolding ret [rule_format] by blast
qed

lemma Links_Ensure_spec:
  assumes ker: "link_kernel nl tbl accept" and ord: "range_order ordE" "range_order ordA"
    and names: "distinct (map lk_Name (tbl w))"
    and es: "distinct (map lk_Name es)" "\<forall>e \<in> set es. HasPrefix (lk_Name e) pre \<and> accept e"
  shows "\<exists>ret w'. Links_Ensure nl ordE ordA es pre w = (Ret ret, w') \<and>
    lk_Name ` {l \<in> set (tbl w'). HasPrefix (lk_Name l) pre} = lk_Name ` set es \<and>
    filter (\<lambda>l. \<not> HasPrefix (lk_Name l) pre) (tbl w') = filter (\<lambda>l. \<not> HasPrefix (lk_Name l) pre) (tbl w) \<and>
    dom (map_of ret) = lk_Name ` set es \<and>
    (\<forall>n l. map_of ret n = Some l \<longrightarrow> (\<exists>k \<in> set (tbl w'). lk_Name l = n \<and> lk_Name k = n \<and> lk_Index k = lk_Index l))"
proof -
  let ?mine = "\<lambda>l. HasPrefix (lk_Name l) pre"
  let ?T = "filter ?mine (tbl w)"
  have T: "distinct_on link_key ?T" using names by (simp add: distinct_on_link_key distinct_map_filter)
  have ds: "distinct_on link_key es" "\<forall>e \<in> set es. link_key e \<noteq> None" using es by (simp_all add: distinct_on_link_key)
  obtain R cs rs ret' w2 where run: "Links_Ensure nl ordE ordA es pre w = (Ret ret', w2)"
    and w2: "tbl w2 = filter (\<lambda>x. x \<notin> R) (tbl w) @ rs"
    and R: "R = {a \<in> set ?T. link_key a \<noteq> None \<and> \<not> (\<exists>e \<in> set es. same_name a e)}"
    and C: "set cs = {e \<in> set es. \<not> (\<exists>a \<in> set ?T. same_name a e)}" and dC: "distinct_on link_key cs"
    and rs: "list_all2 (\<lambda>r l. same_name r l \<and> lk_Kind r = lk_Kind l \<and>
       (\<exists>l'. map_of ret' (lk_Name l) = Some l' \<and> same_name l' l \<and> lk_Index l' = lk_Index r)) rs cs"
    and ret': "\<forall>n. n \<notin> lk_Name ` set cs \<longrightarrow> map_of ret' n =
       (if n \<in> lk_Name ` set es then map_of (indexBy link_key ?T) n else None)"
    using Links_Ensure_run [OF assms] .
  have rs': "list_all2 same_name rs cs" by (rule list_all2_mono [OF rs]) simp
  have inst: "installed same_name link_key ?mine es (tbl w2)" unfolding w2
    using es rs' by (intro link_eq.replaced_installed [OF ds T _ _ R C dC]) auto
  have found: "\<exists>l. map_of ret' n = Some l \<and> (\<exists>k \<in> set (tbl w2). lk_Name l = n \<and> lk_Name k = n \<and> lk_Index k = lk_Index l)"
    if n: "n \<in> lk_Name ` set es" for n
  proof (cases "n \<in> lk_Name ` set cs")
    case True
    then obtain c where "c \<in> set cs" "n = lk_Name c" by auto
    then show ?thesis using list_all2_set2 [OF rs, of c] w2 by auto
  next
    case False
    obtain e where e: "e \<in> set es" "lk_Name e = n" using n by blast
    then have "e \<notin> set cs" using False by blast
    then obtain a where a: "a \<in> set ?T" "lk_Name a = n" using e C by auto
    then have "map_of ret' n = Some a"
      using False n ret' indexBy_distinct_on [OF T a(1)] by (simp add: link_key_def)
    moreover have "a \<in> set (tbl w2)" using a n R w2 by auto
    ultimately show ?thesis using a by auto
  qed
  have "lk_Name ` {l \<in> set (tbl w2). ?mine l} = lk_Name ` set es"
  proof (intro equalityI image_subsetI)
    show "lk_Name l \<in> lk_Name ` set es" if "l \<in> {l \<in> set (tbl w2). ?mine l}" for l
      using inst that by (auto simp: installed_def)
    show "lk_Name e \<in> lk_Name ` {l \<in> set (tbl w2). ?mine l}" if e: "e \<in> set es" for e
    proof -
      obtain r where "r \<in> set (tbl w2)" "?mine r" "same_name r e" using inst e by (auto simp: installed_def)
      then show ?thesis by (metis (mono_tags, lifting) imageI mem_Collect_eq)
    qed
  qed
  moreover have "filter (\<lambda>l. \<not> ?mine l) (tbl w2) = filter (\<lambda>l. \<not> ?mine l) (tbl w)"
  proof -
    have "filter (\<lambda>l. \<not> ?mine l \<or> link_key l = None) (tbl w2) = filter (\<lambda>l. \<not> ?mine l \<or> link_key l = None) (tbl w)"
      unfolding w2 using es C R by (intro link_eq.replaced_frame [OF _ _ _ rs', where es = es]) auto
    then show ?thesis by simp
  qed
  moreover have none: "map_of ret' n = None" if "n \<notin> lk_Name ` set es" for n
  proof -
    have "n \<notin> lk_Name ` set cs" using that C by auto
    then show ?thesis using ret' that by simp
  qed
  have dom: "dom (map_of ret') = lk_Name ` set es"
  proof (intro set_eqI iffI)
    show "n \<in> lk_Name ` set es" if "n \<in> dom (map_of ret')" for n using none [of n] that by blast
    show "n \<in> dom (map_of ret')" if "n \<in> lk_Name ` set es" for n using found [OF that] by blast
  qed
  moreover have "\<exists>k \<in> set (tbl w2). lk_Name l = n \<and> lk_Name k = n \<and> lk_Index k = lk_Index l"
    if "map_of ret' n = Some l" for n l
    using found [of n] that dom by (metis domI option.inject)
  ultimately show ?thesis using run by blast
qed

text \<open>
  C21: Links.Ensure returns a link for every expected name and for no other.  It returns
  without an error; afterwards the links with the prefix have exactly the expected names, links
  without the prefix are untouched, and the returned map sends each expected name to an object
  with the name and index of the kernel's link.
\<close>

theorem Links_Ensure_correct:
  assumes ker: "link_kernel nl tbl accept" and ord: "range_order ordE" "range_order ordA"
    and names: "distinct (map lk_Name (tbl w))"
    and es: "distinct (map lk_Name es)" "\<forall>e \<in> set es. HasPrefix (lk_Name e) pre \<and> accept e"
  shows "\<exists>ret w'. Links_Ensure nl ordE ordA es pre w = (Ret ret, w') \<and>
    lk_Name ` {l \<in> set (tbl w'). HasPrefix (lk_Name l) pre} = lk_Name ` set es \<and>
    filter (\<lambda>l. \<not> HasPrefix (lk_Name l) pre) (tbl w') = filter (\<lambda>l. \<not> HasPrefix (lk_Name l) pre) (tbl w) \<and>
    dom (map_of ret) = lk_Name ` set es \<and>
    (\<forall>n l. map_of ret n = Some l \<longrightarrow> (\<exists>k \<in> set (tbl w'). lk_Name l = n \<and> lk_Name k = n \<and> lk_Index k = lk_Index l))"
  using assms by (rule Links_Ensure_spec)

text \<open>
  Links.Ensure never reconfigures a link.  A link that already has an expected name is
  kept and returned as it is, whatever its kind, endpoints or other attributes are (so a GRE
  tunnel whose remote address changed keeps the old one).
\<close>

lemma Links_Ensure_keeps_existing:
  assumes "link_kernel nl tbl accept" and "range_order ordE" and "range_order ordA"
    and "distinct (map lk_Name (tbl w))"
    and "distinct (map lk_Name es)" and "\<forall>e \<in> set es. HasPrefix (lk_Name e) pre \<and> accept e"
    and a: "a \<in> set (tbl w)" and e: "e \<in> set es" "lk_Name a = lk_Name e"
    and run: "Links_Ensure nl ordE ordA es pre w = (Ret ret, w')"
  shows "map_of ret (lk_Name e) = Some a \<and> a \<in> set (tbl w')"
proof -
  let ?T = "filter (\<lambda>l. HasPrefix (lk_Name l) pre) (tbl w)"
  obtain R cs rs ret' w2 where run': "Links_Ensure nl ordE ordA es pre w = (Ret ret', w2)"
    and w2: "tbl w2 = filter (\<lambda>x. x \<notin> R) (tbl w) @ rs"
    and R: "R = {a \<in> set ?T. link_key a \<noteq> None \<and> \<not> (\<exists>e \<in> set es. same_name a e)}"
    and C: "set cs = {e \<in> set es. \<not> (\<exists>a \<in> set ?T. same_name a e)}"
    and ret': "\<forall>n. n \<notin> lk_Name ` set cs \<longrightarrow> map_of ret' n =
       (if n \<in> lk_Name ` set es then map_of (indexBy link_key ?T) n else None)"
    using Links_Ensure_run [OF assms(1-6)] .
  have T: "distinct_on link_key ?T" "a \<in> set ?T"
    using assms(4,6) a e by (auto simp: distinct_on_link_key distinct_map_filter)
  have "lk_Name e \<notin> lk_Name ` set cs"
  proof
    assume "lk_Name e \<in> lk_Name ` set cs"
    then obtain c where c: "c \<in> set cs" "lk_Name e = lk_Name c" by (rule imageE) simp
    then show False using C T(2) e(2) by (metis (mono_tags, lifting) mem_Collect_eq)
  qed
  then have "map_of ret' (lk_Name e) = Some a"
    using ret' e indexBy_distinct_on [OF T] by (simp add: link_key_def)
  moreover have "a \<in> set (tbl w2)" using w2 R a e by auto
  ultimately show ?thesis using run run' by simp
qed

lemma ref_link_kernel: "link_kernel ref_netlink rw_links (\<lambda>_. True)"
proof -
  have "dels_entry rw_links (ref_del rw_links (\<lambda>xs. rw_links_update (\<lambda>_. xs)))" by (rule ref_dels_entry) simp
  then show ?thesis
    by (auto simp: link_kernel_def ref_netlink_def ref_list_def ref_LinkAdd_def list_ex_iff Let_def)
qed

definition sample_tunnel :: "string \<Rightarrow> byte \<Rightarrow> link" where
  "sample_tunnel name n = \<lparr>lk_Kind = Gretun (Some [10, 1, 0, 1]) (Some [10, 1, 0, n]) 255, lk_Name = name, lk_Index = 0,
     lk_MTU = 0, lk_HardwareAddr = [], lk_Flags = 0\<rparr>"

theorem Links_Ensure_correct_witness:
  "\<exists>ret w'. Links_Ensure ref_netlink rev rev [sample_tunnel ''k8s-b'' 2] ''k8s-''
      (empty_world\<lparr>rw_links := [sample_tunnel ''k8s-a'' 3]\<rparr>) = (Ret ret, w') \<and> dom (map_of ret) = {''k8s-b''}"
  using Links_Ensure_correct [OF ref_link_kernel range_order_rev range_order_rev,
      of "empty_world\<lparr>rw_links := [sample_tunnel ''k8s-a'' 3]\<rparr>" "[sample_tunnel ''k8s-b'' 2]" "''k8s-''"]
  by (auto simp: sample_tunnel_def HasPrefix_def)

lemma Links_Ensure_keeps_existing_example:
  "\<exists>ret w'. Links_Ensure ref_netlink rev rev [sample_tunnel ''k8s-b'' 2] ''k8s-''
      (empty_world\<lparr>rw_links := [sample_tunnel ''k8s-b'' 3]\<rparr>) = (Ret ret, w') \<and> map_of ret ''k8s-b'' = Some (sample_tunnel ''k8s-b'' 3)"
proof -
  have "Links_Ensure ref_netlink rev rev [sample_tunnel ''k8s-b'' 2] ''k8s-'' (empty_world\<lparr>rw_links := [sample_tunnel ''k8s-b'' 3]\<rparr>) =
      (Ret [(''k8s-b'', sample_tunnel ''k8s-b'' 3)], empty_world\<lparr>rw_links := [sample_tunnel ''k8s-b'' 3]\<rparr>)"
    by (simp add: Links_Ensure_def ref_netlink_def ref_list_def bindM_def wrapM_def callM_def indexBy_def
        link_actual_key_def link_key_def sample_tunnel_def HasPrefix_def)
  from Links_Ensure_keeps_existing [OF ref_link_kernel range_order_rev range_order_rev _ _ _ _ _ _ this,
      of "sample_tunnel ''k8s-b'' 3" "sample_tunnel ''k8s-b'' 2"] this
  show ?thesis by (auto simp: sample_tunnel_def HasPrefix_def)
qed

end
