(* ===== verification/Gre.thy ===== *)
theory Gre
  imports Provider Route_Table Links
begin

text \<open>
  The GRE provider (\<^verbatim>\<open>src/pkg/routing/gre/provider.go\<close>): a GRE tunnel per remote node, named after
  its pod network, and a route to that network through the tunnel.
\<close>

section \<open>The code\<close>

definition tunnelTTL :: "8 word" where "tunnelTTL = 255"
definition greLinkNamePrefix :: string where "greLinkNamePrefix = ''k8s-''"
definition greLinkNameMaxLength :: nat where "greLinkNameMaxLength = 15"

record GreRoutingProvider =
  gre_lastVersionApplied :: "64 word"

definition NewGreRoutingProvider :: "('w, GreRoutingProvider) io" where
  "NewGreRoutingProvider = retM \<lparr>gre_lastVersionApplied = 0\<rparr>"

definition Gre_Close :: "(GreRoutingProvider \<times> 'w, unit) io" where
  "Gre_Close = retM ()"

definition buildTunnelName :: "ip \<Rightarrow> string" where
  "buildTunnelName ip =
     (case To4 ip of
        None \<Rightarrow> ''''
      | Some ip4 \<Rightarrow>
          (let name = ''k8s-'' @ hex2 (ip4 ! 0) @ ''-'' @ hex2 (ip4 ! 1) @ ''-'' @ hex2 (ip4 ! 2) @ ''-'' @ hex2 (ip4 ! 3)
           in if length name > greLinkNameMaxLength then '''' else name))"

definition tunnel_of :: "NodeInfo \<Rightarrow> string" where
  "tunnel_of remote = buildTunnelName (case ni_PodCIDR remote of None \<Rightarrow> None | Some cidr \<Rightarrow> ipn_IP cidr)"

definition gre_tunnel :: "NodeInfo \<Rightarrow> NodeInfo \<Rightarrow> link" where
  "gre_tunnel me remote =
     \<lparr>lk_Kind = Gretun (ni_Address me) (ni_Address remote) tunnelTTL, lk_Name = tunnel_of remote,
      lk_Index = 0, lk_MTU = 0, lk_HardwareAddr = [], lk_Flags = 0\<rparr>"

definition gre_tunnels :: "NodeInfo \<Rightarrow> NodeInfo list \<Rightarrow> link list" where
  "gre_tunnels me allNodes =
     map (gre_tunnel me) (filter (\<lambda>remote. tunnel_of remote \<noteq> '''') (remotes me allNodes))"

definition gre_route :: "int \<Rightarrow> NodeInfo \<Rightarrow> route" where
  "gre_route linkIndex remote =
     zero_route\<lparr>rt_LinkIndex := linkIndex, rt_Dst := ni_PodCIDR remote, rt_Protocol := RTPROT_BOOT,
       rt_Table := RT_TABLE_MAIN, rt_Type := RTN_UNICAST\<rparr>"

fun gre_routes :: "(string, link) gomap \<Rightarrow> NodeInfo list \<Rightarrow> route list \<Rightarrow> gerr + route list" where
  "gre_routes tunnelMap [] routes = Inr routes"
| "gre_routes tunnelMap (remote # rs) routes =
     (if tunnel_of remote = '''' then gre_routes tunnelMap rs routes
      else case map_of tunnelMap (tunnel_of remote) of
        None \<Rightarrow> Inl (Errorf ''tunnel not found after being created: %q'' None)
      | Some tunnel \<Rightarrow> gre_routes tunnelMap rs (routes @ [gre_route (lk_Index tunnel) remote]))"

definition gre_setUp :: "'w netlink \<Rightarrow> string \<times> link \<Rightarrow> ('w, unit) io" where
  "gre_setUp nl = (\<lambda>(name, l).
     if and (lk_Flags l) FlagUp \<noteq> 0 then retM ()
     else wrapM ''error from ip link set %s up: %v'' (callM (nl_LinkSetUp nl l)))"

definition Gre_EnsureCIDRs ::
  "'w netlink \<Rightarrow> (string \<times> nat) order \<Rightarrow> (string \<times> link) order \<Rightarrow> (string \<times> link) order \<Rightarrow>
   (string \<times> link) order \<Rightarrow> (string \<times> route) order \<Rightarrow> NodeMap \<Rightarrow> (GreRoutingProvider \<times> 'w, unit) io"
where
  "Gre_EnsureCIDRs nl ordS ordE ordA ordT ordR nodeMap =
     bindM getP (\<lambda>p.
       if up_to_date (gre_lastVersionApplied p) nodeMap then retM ()
       else case Snapshot ordS nodeMap of
         (None, allNodes, version) \<Rightarrow> throwM no_local_node
       | (Some me, allNodes, version) \<Rightarrow>
           bindM (liftW (
             bindM (wrapM ''error configuring tunnels: %v''
                 (Links_Ensure nl ordE ordA (gre_tunnels me allNodes) greLinkNamePrefix)) (\<lambda>tunnelMap.
               bindM (forM (gre_setUp nl) (ordT tunnelMap)) (\<lambda>_.
                 case gre_routes tunnelMap (remotes me allNodes) [] of
                   Inl e \<Rightarrow> throwM e
                 | Inr routes \<Rightarrow> wrapM ''error applying route table: %v''
                     (RouteTable_Ensure nl ordR None routes False)))))
             (\<lambda>_. bindM getP (\<lambda>p. putP (p\<lparr>gre_lastVersionApplied := version\<rparr>))))"

section \<open>The provider contract\<close>

definition gre_action ::
  "'w netlink \<Rightarrow> (string \<times> link) order \<Rightarrow> (string \<times> link) order \<Rightarrow> (string \<times> link) order \<Rightarrow>
   (string \<times> route) order \<Rightarrow> NodeInfo \<Rightarrow> NodeInfo list \<Rightarrow> ('w, unit) io"
where
  "gre_action nl ordE ordA ordT ordR me allNodes =
     bindM (wrapM ''error configuring tunnels: %v''
         (Links_Ensure nl ordE ordA (gre_tunnels me allNodes) greLinkNamePrefix)) (\<lambda>tunnelMap.
       bindM (forM (gre_setUp nl) (ordT tunnelMap)) (\<lambda>_.
         case gre_routes tunnelMap (remotes me allNodes) [] of
           Inl e \<Rightarrow> throwM e
         | Inr routes \<Rightarrow> wrapM ''error applying route table: %v''
             (RouteTable_Ensure nl ordR None routes False)))"

lemma Gre_steps:
  "Gre_EnsureCIDRs nl ordS ordE ordA ordT ordR =
   ensure_steps gre_lastVersionApplied (\<lambda>v. gre_lastVersionApplied_update (\<lambda>_. v))
     (\<lambda>me nodes. liftW (gre_action nl ordE ordA ordT ordR me nodes)) ordS"
  by (auto simp: fun_eq_iff Gre_EnsureCIDRs_def ensure_steps_def gre_action_def split: prod.split option.split)

interpretation gre: routing_provider "Gre_EnsureCIDRs nl ordS ordE ordA ordT ordR" gre_lastVersionApplied
  for nl :: "'w netlink" and ordS ordE ordA ordT ordR
  unfolding Gre_steps by (rule routing_provider_steps) (auto intro!: keeps_intros)

section \<open>Tunnel names\<close>

lemma hex_char_inj: "hex_char m = hex_char n \<Longrightarrow> m < 16 \<Longrightarrow> n < 16 \<Longrightarrow> m = n"
proof -
  assume lt: "m < 16" "n < 16" and eq: "hex_char m = hex_char n"
  have "of_char (hex_char k) = (if k < 10 then 48 + k else 87 + k)" if "k < 16" for k
    using that by (simp add: hex_char_def)
  then have "(if m < 10 then 48 + m else 87 + m) = (if n < 10 then 48 + n else 87 + n)"
    using eq lt by metis
  then show "m = n" using lt by (simp split: if_splits)
qed

lemma hex2_inj: "hex2 a = hex2 b \<Longrightarrow> a = b"
proof -
  assume "hex2 a = hex2 b"
  then have "hex_char (unat a div 16) = hex_char (unat b div 16)" "hex_char (unat a mod 16) = hex_char (unat b mod 16)"
    by (simp_all add: hex2_def)
  moreover have "unat a < 256" "unat b < 256" using unsigned_less [of a] unsigned_less [of b] by simp_all
  ultimately have "unat a div 16 = unat b div 16" "unat a mod 16 = unat b mod 16"
    using hex_char_inj by (simp_all add: less_mult_imp_div_less)
  then have "unat a = unat b" by (metis div_mult_mod_eq)
  then show "a = b" by (rule unsigned_word_eqI)
qed

lemma buildTunnelName_Some:
  assumes "To4 ip = Some [a, b, c, d]"
  shows "buildTunnelName ip = ''k8s-'' @ hex2 a @ ''-'' @ hex2 b @ ''-'' @ hex2 c @ ''-'' @ hex2 d"
  using assms by (simp add: buildTunnelName_def greLinkNameMaxLength_def hex2_def)

text \<open>
  C28: The name of a GRE tunnel identifies the pod network: the name is empty exactly when the
  address is not IPv4; otherwise it has the prefix k8s- and exactly the 15 characters that the
  kernel allows, and two addresses have the same name only when they are equal.
\<close>

theorem buildTunnelName_identifies:
  "(buildTunnelName a = '''' \<longleftrightarrow> To4 a = None) \<and>
   (To4 a \<noteq> None \<longrightarrow> length (buildTunnelName a) = greLinkNameMaxLength \<and>
      HasPrefix (buildTunnelName a) greLinkNamePrefix) \<and>
   (To4 a \<noteq> None \<and> buildTunnelName a = buildTunnelName b \<longrightarrow> IP_Equal a b)"
proof (cases "To4 a")
  case None
  then show ?thesis by (simp add: buildTunnelName_def)
next
  case (Some as)
  then obtain a0 a1 a2 a3 where as: "To4 a = Some [a0, a1, a2, a3]" using To4_bytes by blast
  have "IP_Equal a b" if eq: "buildTunnelName a = buildTunnelName b"
  proof (cases "To4 b")
    case None
    then have "buildTunnelName b = ''''" by (simp add: buildTunnelName_def)
    then show ?thesis using eq by (simp add: buildTunnelName_Some [OF as])
  next
    case (Some bs)
    then obtain b0 b1 b2 b3 where bs: "To4 b = Some [b0, b1, b2, b3]" using To4_bytes by blast
    then have "To4 a = To4 b" using eq hex2_inj
      by (simp add: buildTunnelName_Some [OF as] buildTunnelName_Some [OF bs] as bs hex2_def)
    then show ?thesis using To4_SomeD [OF as] To4_SomeD [OF bs] as bs by (simp add: IP_Equal_iff)
  qed
  then show ?thesis
    by (simp add: as buildTunnelName_Some [OF as] hex2_def greLinkNameMaxLength_def greLinkNamePrefix_def HasPrefix_def)
qed

theorem buildTunnelName_identifies_witness:
  "buildTunnelName (Some [100, 96, 1, 0]) = ''k8s-64-60-01-00'' \<and>
   length (buildTunnelName (Some [100, 96, 1, 0])) = greLinkNameMaxLength"
proof -
  have "To4 (Some [100, 96, 1, 0]) = Some [100, 96, 1, 0]" by (simp add: To4_def ip_bytes_def)
  then show ?thesis
    using buildTunnelName_identifies [of "Some [100, 96, 1, 0]"] by (simp add: buildTunnelName_Some hex2_def)
qed

section \<open>What EnsureCIDRs installs\<close>

text \<open>
  The kernel as the provider needs it: deleting a link may take its routes away, and no other call
  on links touches routes; bringing a link up changes neither its name nor its index.
\<close>

definition link_ids :: "link list \<Rightarrow> (string \<times> int) list" where
  "link_ids = map (\<lambda>l. (lk_Name l, lk_Index l))"

definition gre_kernel ::
  "'w netlink \<Rightarrow> ('w \<Rightarrow> link list) \<Rightarrow> ('w \<Rightarrow> route list) \<Rightarrow> (link \<Rightarrow> bool) \<Rightarrow> (route \<Rightarrow> bool) \<Rightarrow> bool"
where
  "gre_kernel nl links routes acceptL acceptR \<longleftrightarrow>
     link_kernel nl links acceptL \<and> route_kernel nl routes acceptR \<and>
     (\<forall>l w. \<exists>P. routes (snd (nl_LinkDel nl l w)) = filter P (routes w)) \<and>
     (\<forall>l. keeps_ext routes (nl_LinkAdd nl l)) \<and>
     (\<forall>l w. \<exists>w'. nl_LinkSetUp nl l w = (Inr (), w') \<and> routes w' = routes w \<and> link_ids (links w') = link_ids (links w)) \<and>
     (\<forall>r. keeps_ext links (nl_RouteAdd nl r))"

definition routes_within :: "route list \<Rightarrow> route list \<Rightarrow> bool" where
  "routes_within T T' \<longleftrightarrow> set T' \<subseteq> set T \<and> (distinct_on route_key T \<longrightarrow> distinct_on route_key T')"

lemma Links_Ensure_preserves:
  assumes "preserves_ext P (nl_LinkList nl)" and "\<And>l. preserves_ext P (nl_LinkDel nl l)"
    and "\<And>l. preserves_ext P (nl_LinkAdd nl l)"
  shows "preserves P (Links_Ensure nl ordE ordA es pre)"
proof -
  have "preserves P (links_create nl ls ret)" for ls ret
    using assms(3) by (induction ls arbitrary: ret) (auto intro!: preserves_intros)
  then show ?thesis using assms(1,2)
    by (auto simp: Links_Ensure_def Let_def split: prod.split intro!: preserves_intros)
qed

lemma Links_Ensure_routes:
  assumes "gre_kernel nl links routes acceptL acceptR"
  shows "routes_within (routes w) (routes (snd (Links_Ensure nl ordE ordA es pre w)))"
proof -
  let ?P = "\<lambda>w'. routes_within (routes w) (routes w')"
  have la: "preserves_ext ?P (nl_LinkList nl)" "\<And>l. preserves_ext ?P (nl_LinkAdd nl l)"
    using assms by (simp_all add: preserves_ext_def gre_kernel_def link_kernel_def keeps_ext_def)
  have "preserves_ext ?P (nl_LinkDel nl l)" for l
    unfolding preserves_ext_def
  proof (intro allI impI)
    fix w' assume w': "?P w'"
    obtain Q where "routes (snd (nl_LinkDel nl l w')) = filter Q (routes w')"
      using assms unfolding gre_kernel_def by meson
    then show "?P (snd (nl_LinkDel nl l w'))"
      using w' by (auto simp: routes_within_def distinct_on_filter)
  qed
  then have "preserves ?P (Links_Ensure nl ordE ordA es pre)" by (rule Links_Ensure_preserves [OF la(1) _ la(2)])
  then show ?thesis by (simp add: preserves_def routes_within_def)
qed

lemma gre_setUp_loop:
  assumes "gre_kernel nl links routes acceptL acceptR"
  shows "\<exists>w'. forM (gre_setUp nl) ls w = (Ret (), w') \<and> routes w' = routes w \<and> link_ids (links w') = link_ids (links w)"
proof (rule forM_invariant)
  fix ys zs v and x :: "string \<times> link" assume I: "routes v = routes w \<and> link_ids (links v) = link_ids (links w)"
  obtain name l where x: "x = (name, l)" by (cases x)
  obtain v' where "nl_LinkSetUp nl l v = (Inr (), v')" "routes v' = routes v" "link_ids (links v') = link_ids (links v)"
    using assms unfolding gre_kernel_def by meson
  then show "\<exists>w'. gre_setUp nl x v = (Ret (), w') \<and> routes w' = routes w \<and> link_ids (links w') = link_ids (links w)"
    using I by (simp add: gre_setUp_def x wrapM_def callM_def)
qed simp

lemma gre_routes_found:
  assumes "\<forall>r \<in> set rs. tunnel_of r \<noteq> '''' \<longrightarrow> map_of tm (tunnel_of r) \<noteq> None"
  shows "gre_routes tm rs acc =
    Inr (acc @ map (\<lambda>r. gre_route (lk_Index (the (map_of tm (tunnel_of r)))) r) (filter (\<lambda>r. tunnel_of r \<noteq> '''') rs))"
  using assms
proof (induction rs arbitrary: acc)
  case (Cons r rs)
  then show ?case by (cases "map_of tm (tunnel_of r)") auto
qed simp

lemma RouteTable_Ensure_keeps_links:
  assumes "route_kernel nl routes accept" and "\<And>r. keeps_ext links (nl_RouteAdd nl r)"
  shows "links (snd (RouteTable_Ensure nl ordR link es False w)) = links w"
proof -
  have "keeps_ext links (nl_RouteList nl link)" using assms(1) by (simp add: keeps_ext_def route_kernel_def)
  then have "keeps links (RouteTable_Ensure nl ordR link es False)"
    using assms(2) by (auto simp: RouteTable_Ensure_def Let_def split: sum.split prod.split intro!: keeps_intros)
  then show ?thesis by (rule keeps_snd)
qed

lemma gre_tunnels_prefix: "l \<in> set (gre_tunnels me nodes) \<Longrightarrow> HasPrefix (lk_Name l) greLinkNamePrefix"
proof -
  assume "l \<in> set (gre_tunnels me nodes)"
  then obtain r where r: "lk_Name l = tunnel_of r" "tunnel_of r \<noteq> []"
    by (auto simp: gre_tunnels_def gre_tunnel_def)
  define a where "a = (case ni_PodCIDR r of None \<Rightarrow> None | Some cidr \<Rightarrow> ipn_IP cidr)"
  have "To4 a \<noteq> None"
  proof
    assume "To4 a = None"
    then have "tunnel_of r = []" by (simp add: tunnel_of_def a_def [symmetric] buildTunnelName_def)
    then show False using r by simp
  qed
  then obtain a0 a1 a2 a3 where "To4 a = Some [a0, a1, a2, a3]" using To4_bytes by blast
  then show ?thesis using r(1)
    by (simp add: tunnel_of_def a_def [symmetric] buildTunnelName_Some greLinkNamePrefix_def HasPrefix_def)
qed

text \<open>The first half: the tunnels exist, are up, and are known by name and index.\<close>

lemma gre_tunnels_run:
  assumes ker: "gre_kernel nl links routes acceptL acceptR" and ord: "range_order ordE" "range_order ordA"
    and names: "distinct (map lk_Name (links w))"
    and tunnels: "distinct (map lk_Name (gre_tunnels me nodes))" "\<forall>l \<in> set (gre_tunnels me nodes). acceptL l"
  obtains tm w2 where "\<And>f :: _ \<Rightarrow> (_, unit) io. bindM (wrapM msg (Links_Ensure nl ordE ordA (gre_tunnels me nodes) greLinkNamePrefix))
      (\<lambda>tm. bindM (forM (gre_setUp nl) (ordT tm)) (\<lambda>_. f tm)) w = f tm w2"
    and "routes_within (routes w) (routes w2)"
    and "\<forall>r \<in> set (remotes me nodes). tunnel_of r \<noteq> '''' \<longrightarrow> map_of tm (tunnel_of r) \<noteq> None \<and>
      (tunnel_of r, lk_Index (the (map_of tm (tunnel_of r)))) \<in> set (link_ids (links w2))"
proof -
  let ?es = "gre_tunnels me nodes"
  have lk: "link_kernel nl links acceptL" using ker by (simp add: gre_kernel_def)
  have pre: "\<forall>l \<in> set ?es. HasPrefix (lk_Name l) greLinkNamePrefix \<and> acceptL l"
    using tunnels(2) gre_tunnels_prefix by blast
  obtain tm w1 where 1: "Links_Ensure nl ordE ordA ?es greLinkNamePrefix w = (Ret tm, w1)"
    "dom (map_of tm) = lk_Name ` set ?es"
    "\<forall>n l. map_of tm n = Some l \<longrightarrow> (\<exists>k \<in> set (links w1). lk_Name l = n \<and> lk_Name k = n \<and> lk_Index k = lk_Index l)"
    using Links_Ensure_spec [OF lk ord names tunnels(1) pre] by (elim exE conjE) (rule that; assumption)
  obtain w2 where 2: "forM (gre_setUp nl) (ordT tm) w1 = (Ret (), w2)" "routes w2 = routes w1" "link_ids (links w2) = link_ids (links w1)"
    using gre_setUp_loop [OF ker] by blast
  have "routes_within (routes w) (routes w2)"
    using Links_Ensure_routes [OF ker, of w ordE ordA ?es greLinkNamePrefix] 1(1) 2(2) by simp
  moreover have "map_of tm (tunnel_of r) \<noteq> None \<and>
      (tunnel_of r, lk_Index (the (map_of tm (tunnel_of r)))) \<in> set (link_ids (links w2))"
    if r: "r \<in> set (remotes me nodes)" "tunnel_of r \<noteq> ''''" for r
  proof -
    have "gre_tunnel me r \<in> set ?es" using r by (simp add: gre_tunnels_def)
    then have "tunnel_of r \<in> lk_Name ` set ?es" by (force simp: gre_tunnel_def)
    then obtain l where l: "map_of tm (tunnel_of r) = Some l" using 1(2) by blast
    then obtain k where "k \<in> set (links w1)" "lk_Name k = tunnel_of r" "lk_Index k = lk_Index l" using 1(3) by blast
    then show ?thesis using l unfolding 2(3) by (auto simp: link_ids_def intro!: image_eqI [of _ _ k])
  qed
  moreover have "bindM (wrapM msg (Links_Ensure nl ordE ordA ?es greLinkNamePrefix))
      (\<lambda>tm. bindM (forM (gre_setUp nl) (ordT tm)) (\<lambda>_. f tm)) w = f tm w2" for f :: "_ \<Rightarrow> (_, unit) io"
    by (simp add: bindM_Ret [of _ w tm w1] wrapM_Ret [of _ w tm w1] 1(1) bind_forM_Ret [OF 2(1)])
  ultimately show thesis using that by blast
qed


lemma ref_gre_kernel: "gre_kernel ref_netlink rw_links rw_routes (\<lambda>_. True) (\<lambda>_. True)"
  unfolding gre_kernel_def
proof (intro conjI allI)
  show "link_kernel ref_netlink rw_links (\<lambda>_. True)" by (rule ref_link_kernel)
  show "route_kernel ref_netlink rw_routes (\<lambda>_. True)" by (rule ref_route_kernel)
  show "\<exists>P. rw_routes (snd (nl_LinkDel ref_netlink l w)) = filter P (rw_routes w)" for l w
    by (rule exI [of _ "\<lambda>_. True"]) (simp add: ref_netlink_def ref_del_def)
  show "keeps_ext rw_routes (nl_LinkAdd ref_netlink l)" for l
    by (simp add: ref_netlink_def ref_LinkAdd_def keeps_ext_def Let_def)
  show "\<exists>w'. nl_LinkSetUp ref_netlink l w = (Inr (), w') \<and> rw_routes w' = rw_routes w \<and>
    link_ids (rw_links w') = link_ids (rw_links w)" for l w
    by (auto simp: ref_netlink_def ref_update_def link_ids_def o_def)
  show "keeps_ext rw_links (nl_RouteAdd ref_netlink r)" for r
    by (simp add: ref_netlink_def ref_add_def keeps_ext_def)
qed


end
