(* ===== verification/Neigh_Table.thy ===== *)
theory Neigh_Table
  imports Ref_Kernel
begin

text \<open>
  \<^verbatim>\<open>NeighTable.Ensure\<close> of \<^verbatim>\<open>src/pkg/routing/netutil/neigh_table.go\<close>: entries that are missing or
  differ are set, none is removed.  The kernel's side is \<open>neigh_kernel\<close>: a listing shows some of
  the link's entries (\<open>shown\<close>; a dump of all families need not contain a bridge's forwarding
  entries), and setting an entry replaces the one it identifies.
\<close>

section \<open>The code\<close>

definition neighEqual :: "neigh \<Rightarrow> neigh \<Rightarrow> bool" where
  "neighEqual a e =
     (if ng_Type a \<noteq> ng_Type e \<or> ng_Family a \<noteq> ng_Family e \<or> ng_Flags a \<noteq> ng_Flags e
         \<or> ng_LinkIndex a \<noteq> ng_LinkIndex e \<or> ng_State a \<noteq> ng_State e then False
      else if \<not> IP_Equal (ng_IP a) (ng_IP e) then False
      else if hw_bytes (ng_HardwareAddr a) \<noteq> hw_bytes (ng_HardwareAddr e) then False
      else True)"

definition neigh_key :: "neigh \<Rightarrow> string option" where
  "neigh_key n = (case ng_IP n of None \<Rightarrow> None | Some _ \<Rightarrow> Some (IP_String (ng_IP n)))"

definition neigh_upsert :: "(string, neigh) gomap \<Rightarrow> string \<Rightarrow> neigh \<Rightarrow> bool" where
  "neigh_upsert actualMap k e =
     (case map_of actualMap k of None \<Rightarrow> True | Some a \<Rightarrow> \<not> neighEqual a e)"

definition NeighTable_Ensure ::
  "'w netlink \<Rightarrow> (string \<times> neigh) order \<Rightarrow> link \<Rightarrow> neigh list \<Rightarrow> ('w, unit) io"
where
  "NeighTable_Ensure nl ord link expected =
     bindM (wrapM ''error listing layer2 config: %v'' (callM (nl_NeighList nl (lk_Index link)))) (\<lambda>actualList.
       let actualMap = indexBy neigh_key actualList;
           expectedMap = indexBy neigh_key expected;
           upsert = map snd (filter (\<lambda>(k, e). neigh_upsert actualMap k e) (ord expectedMap))
       in forM (\<lambda>r. wrapM ''error doing ip neigh replace to %s lladdr %s dev %d: %v'' (callM (nl_NeighSet nl r))) upsert)"

section \<open>The kernel's neighbour tables\<close>

definition neigh_kernel ::
  "'w netlink \<Rightarrow> ('w \<Rightarrow> neigh list) \<Rightarrow> (neigh \<Rightarrow> bool) \<Rightarrow> (neigh \<Rightarrow> bool) \<Rightarrow> bool"
where
  "neigh_kernel nl tbl shown accept \<longleftrightarrow>
     (\<forall>i w. nl_NeighList nl i w = (Inr (filter (\<lambda>n. ng_LinkIndex n = i \<and> shown n) (tbl w)), w)) \<and>
     sets_entry tbl accept neigh_clash neighEqual (nl_NeighSet nl)"

section \<open>Properties\<close>

lemma neighEqual_iff:
  "neighEqual a e \<longleftrightarrow>
     ng_Type a = ng_Type e \<and> ng_Family a = ng_Family e \<and> ng_Flags a = ng_Flags e \<and>
     ng_LinkIndex a = ng_LinkIndex e \<and> ng_State a = ng_State e \<and> IP_Equal (ng_IP a) (ng_IP e) \<and>
     hw_bytes (ng_HardwareAddr a) = hw_bytes (ng_HardwareAddr e)"
  by (auto simp: neighEqual_def)

interpretation neigh_eq: equality_check neighEqual
  by unfold_locales (auto simp: neighEqual_iff IP_Equal_iff)

lemma neigh_clash_cong: "neighEqual a b \<Longrightarrow> neigh_clash a r = neigh_clash b r"
  by (auto simp: neigh_clash_def neighEqual_iff IP_Equal_iff)

lemma neigh_key_None [simp]: "neigh_key n = None \<longleftrightarrow> ng_IP n = None"
  by (simp add: neigh_key_def split: option.split)

definition neigh_todo :: "(string, neigh) gomap \<Rightarrow> neigh list \<Rightarrow> neigh list" where
  "neigh_todo am es = filter (\<lambda>e. neigh_upsert am (the (neigh_key e)) e) es"

text \<open>The loop sets the entries that are missing or differ, in some order.\<close>

lemma NeighTable_Ensure_unfold:
  assumes ord: "range_order ord" and list: "nl_NeighList nl (lk_Index link) w = (Inr actual, w1)"
    and es: "distinct_on neigh_key es" "\<forall>e \<in> set es. ng_IP e \<noteq> None"
  shows "\<exists>us. mset us = mset (neigh_todo (indexBy neigh_key actual) es) \<and>
    NeighTable_Ensure nl ord link es w =
      forM (\<lambda>r. wrapM ''error doing ip neigh replace to %s lladdr %s dev %d: %v'' (callM (nl_NeighSet nl r))) us w1"
  using range_indexBy [OF ord es(1), of "neigh_upsert (indexBy neigh_key actual)"] es(2)
  by (intro exI [of _ "map snd (filter (\<lambda>(k, e). neigh_upsert (indexBy neigh_key actual) k e) (ord (indexBy neigh_key es)))"])
    (simp add: NeighTable_Ensure_def bind_call_Inr [of "nl_NeighList nl (lk_Index link)", OF list] neigh_todo_def Let_def)

definition no_neigh_clash :: "neigh list \<Rightarrow> bool" where
  "no_neigh_clash es \<longleftrightarrow> (\<forall>a \<in> set es. \<forall>b \<in> set es. a \<noteq> b \<longrightarrow> \<not> neigh_clash a b)"

lemma no_neigh_clash_sorted:
  assumes "no_neigh_clash es" and "set us \<subseteq> set es" and "distinct us"
  shows "sorted_wrt (\<lambda>a b. \<not> neigh_clash a b) us"
  using assms(2,3)
proof (induction us)
  case (Cons u us)
  have "\<not> neigh_clash u x" if "x \<in> set us" for x
    using assms(1) Cons.prems that unfolding no_neigh_clash_def by (metis distinct.simps(2) list.set_intros subsetD)
  then show ?case using Cons by simp
qed simp

lemma NeighTable_sets:
  assumes ker: "neigh_kernel nl tbl shown accept" and ord: "range_order ord"
    and es: "distinct_on neigh_key es" "\<forall>e \<in> set es. ng_IP e \<noteq> None \<and> accept e" "no_neigh_clash es"
  shows "\<exists>w'. NeighTable_Ensure nl ord link es w = (Ret (), w') \<and>
    (\<forall>e \<in> set es. \<exists>n \<in> set (tbl w'). neighEqual n e) \<and>
    (\<forall>n \<in> set (tbl w). (\<forall>e \<in> set es. \<not> neigh_clash n e) \<longrightarrow> n \<in> set (tbl w'))"
proof -
  let ?T = "filter (\<lambda>n. ng_LinkIndex n = lk_Index link \<and> shown n) (tbl w)"
  let ?todo = "neigh_todo (indexBy neigh_key ?T) es"
  have list: "nl_NeighList nl (lk_Index link) w = (Inr ?T, w)"
    and st: "sets_entry tbl accept neigh_clash neighEqual (nl_NeighSet nl)"
    using ker by (simp_all add: neigh_kernel_def)
  have ip: "\<forall>e \<in> set es. ng_IP e \<noteq> None" using es by simp
  obtain us where us: "mset us = mset ?todo" and run: "NeighTable_Ensure nl ord link es w =
      forM (\<lambda>r. wrapM ''error doing ip neigh replace to %s lladdr %s dev %d: %v'' (callM (nl_NeighSet nl r))) us w"
    using NeighTable_Ensure_unfold [OF ord list es(1) ip] by blast
  have set_us: "set us = set ?todo" using us by (metis set_mset_mset)
  then have sub: "set us \<subseteq> set es" by (auto simp: neigh_todo_def)
  have "distinct es" using distinct_on_distinct [OF es(1)] ip by simp
  then have "distinct us" using us by (metis distinct_filter mset_eq_imp_distinct_iff neigh_todo_def)
  moreover have "\<forall>r \<in> set us. accept r" using es(2) sub by auto
  ultimately obtain w' rs where w': "NeighTable_Ensure nl ord link es w = (Ret (), w')"
    "list_all2 neighEqual rs us" "tbl w' = filter (\<lambda>x. \<forall>r \<in> set us. \<not> neigh_clash x r) (tbl w) @ rs"
    unfolding run using forM_sets [OF st neigh_clash_cong _ no_neigh_clash_sorted [OF es(3) sub]] by blast
  have "\<exists>n \<in> set (tbl w'). neighEqual n e" if e: "e \<in> set es" for e
  proof (cases "e \<in> set us")
    case True
    then show ?thesis using list_all2_set2 [OF w'(2)] w'(3) by auto
  next
    case False
    then obtain a where a: "map_of (indexBy neigh_key ?T) (the (neigh_key e)) = Some a" "neighEqual a e"
      using e set_us by (auto simp: neigh_todo_def neigh_upsert_def split: option.splits)
    then have "a \<in> set (tbl w)" using indexBy_SomeD [OF a(1)] by simp
    moreover have "\<not> neigh_clash a r" if r: "r \<in> set us" for r
    proof -
      have "r \<in> set es" "e \<noteq> r" using r sub False by auto
      then have "\<not> neigh_clash e r" using es(3) e by (simp add: no_neigh_clash_def)
      then show ?thesis using neigh_clash_cong [OF a(2)] by simp
    qed
    ultimately show ?thesis using a w'(3) by auto
  qed
  then show ?thesis using w' sub by auto
qed


definition sample_neigh :: "byte \<Rightarrow> neigh" where
  "sample_neigh n = zero_neigh\<lparr>ng_LinkIndex := 2, ng_State := NUD_PERMANENT, ng_Family := AF_BRIDGE,
     ng_IP := Some [192, 168, 0, n], ng_HardwareAddr := Some [0, 0x53, 10, 0, n, 0]\<rparr>"

lemma ref_neigh_kernel: "neigh_kernel ref_netlink rw_neighs (\<lambda>_. True) (\<lambda>_. True)"
  unfolding neigh_kernel_def ref_netlink_def by (simp add: ref_sets_entry neigh_eq.eq_refl)

definition sample_link :: link where
  "sample_link = \<lparr>lk_Kind = OtherLink ''vxlan'', lk_Name = ''vxlan1'', lk_Index = 2, lk_MTU = 1400,
     lk_HardwareAddr = [], lk_Flags = FlagUp\<rparr>"


end
