(* ===== verification/Link_Addresses.thy ===== *)
theory Link_Addresses
  imports Ref_Kernel
begin

text \<open>
  \<^verbatim>\<open>EnsureLinkAddresses\<close> of \<^verbatim>\<open>src/pkg/routing/netutil/link_addresses.go\<close>: the addresses of a link
  become the expected ones; link-local addresses are ignored.  New addresses are added before
  old ones are removed.
\<close>

section \<open>The code\<close>

definition addrEqual :: "addr \<Rightarrow> addr \<Rightarrow> bool" where
  "addrEqual a e =
     (if ad_Label a \<noteq> ad_Label e \<or> ad_Flags a \<noteq> ad_Flags e \<or> ad_Scope a \<noteq> ad_Scope e then False
      else if \<not> ipnetEqual (ad_IPNet a) (ad_IPNet e) then False
      else True)"

definition addr_expected_key :: "addr \<Rightarrow> string option" where
  "addr_expected_key e =
     (case ad_IPNet e of None \<Rightarrow> None | Some n \<Rightarrow> Some (IPNet_String (Some n)))"

definition addr_actual_key :: "addr \<Rightarrow> string option" where
  "addr_actual_key a =
     (case ad_IPNet a of
        None \<Rightarrow> None
      | Some n \<Rightarrow> if IsLinkLocalUnicast (ipn_IP n) then None else Some (IPNet_String (Some n)))"

definition addr_create :: "(string, addr) gomap \<Rightarrow> string \<Rightarrow> addr \<Rightarrow> bool" where
  "addr_create actualMap k e = (case map_of actualMap k of None \<Rightarrow> True | Some a \<Rightarrow> \<not> addrEqual a e)"

definition addr_replaced :: "(string, addr) gomap \<Rightarrow> string \<times> addr \<Rightarrow> addr option" where
  "addr_replaced actualMap = (\<lambda>(k, e).
     case map_of actualMap k of None \<Rightarrow> None | Some a \<Rightarrow> if \<not> addrEqual a e then Some a else None)"

definition EnsureLinkAddresses ::
  "'w netlink \<Rightarrow> (string \<times> addr) order \<Rightarrow> (string \<times> addr) order \<Rightarrow> link \<Rightarrow> addr list \<Rightarrow> ('w, unit) io"
where
  "EnsureLinkAddresses nl ordE ordA link expected =
     bindM (wrapM ''error listing link addresses: %v'' (callM (nl_AddrList nl link))) (\<lambda>actualList.
       let actualMap = indexBy addr_actual_key actualList;
           expectedMap = indexBy addr_expected_key expected;
           create = map snd (filter (\<lambda>(k, e). addr_create actualMap k e) (ordE expectedMap));
           remove = List.map_filter (addr_replaced actualMap) (ordE expectedMap)
             @ map snd (filter (\<lambda>(k, a). map_of expectedMap k = None) (ordA actualMap))
       in bindM (forM (\<lambda>r. wrapM ''error doing ip addr add %s dev link %s: %v'' (callM (nl_AddrAdd nl link r))) create)
            (\<lambda>_. forM (\<lambda>r. wrapM ''error doing ip addr del %s dev link %s address: %v'' (callM (nl_AddrDel nl link r))) remove))"

section \<open>The kernel's addresses of a link\<close>

definition addr_kernel :: "'w netlink \<Rightarrow> link \<Rightarrow> ('w \<Rightarrow> addr list) \<Rightarrow> (addr \<Rightarrow> bool) \<Rightarrow> bool" where
  "addr_kernel nl link tbl accept \<longleftrightarrow>
     (\<forall>w. nl_AddrList nl link w = (Inr (tbl w), w)) \<and>
     adds_entry tbl accept addr_clash addrEqual (nl_AddrAdd nl link) \<and>
     refuses_clash tbl addr_clash (nl_AddrAdd nl link) \<and>
     dels_entry tbl (nl_AddrDel nl link)"

section \<open>The comparison\<close>

lemma addrEqual_iff:
  "addrEqual a e \<longleftrightarrow> ad_Label a = ad_Label e \<and> ad_Flags a = ad_Flags e \<and> ad_Scope a = ad_Scope e \<and>
     ipnetEqual (ad_IPNet a) (ad_IPNet e)"
  by (auto simp: addrEqual_def)

lemma addr_expected_key_ipnet: "addr_expected_key a = ipnet_key (ad_IPNet a)"
  by (simp add: addr_expected_key_def ipnet_key_def split: option.split)

interpretation addr_eq: keyed_equality addrEqual addr_expected_key
proof unfold_locales
  show "addrEqual a a" for a by (simp add: addrEqual_iff)
  show "addrEqual a e \<Longrightarrow> addrEqual e a" for a e by (simp add: addrEqual_iff ipnet_eq.eq_sym)
  show "addrEqual a b \<Longrightarrow> addrEqual b c \<Longrightarrow> addrEqual a c" for a b c
    unfolding addrEqual_iff using ipnet_eq.eq_trans by metis
  show "addrEqual a e \<Longrightarrow> addr_expected_key a = addr_expected_key e" for a e
    by (simp add: addr_expected_key_ipnet addrEqual_iff ipnet_eq.eq_key)
qed

definition managed_addr :: "addr \<Rightarrow> bool" where
  "managed_addr a = (case ad_IPNet a of None \<Rightarrow> True | Some n \<Rightarrow> \<not> IsLinkLocalUnicast (ipn_IP n))"

lemma addr_actual_key_eq: "addr_actual_key = (\<lambda>a. if managed_addr a then addr_expected_key a else None)"
  by (auto simp: fun_eq_iff addr_actual_key_def managed_addr_def addr_expected_key_def split: option.split)

lemma managed_addr_cong: "addrEqual a b \<Longrightarrow> managed_addr a = managed_addr b"
  by (auto simp: addrEqual_iff managed_addr_def ipnetEqual_iff IsLinkLocalUnicast_cong dest: ipEqual_IP_Equal)

lemma addr_clash_key: "addr_clash a b \<longleftrightarrow> addr_expected_key a \<noteq> None \<and> addr_expected_key a = addr_expected_key b"
  by (auto simp: addr_clash_def addr_expected_key_ipnet ipnet_key_def split: option.splits)

lemma addr_clash_cong: "addrEqual a b \<Longrightarrow> addr_clash a r = addr_clash b r"
  by (simp add: addr_clash_key addr_eq.eq_key)

section \<open>Properties\<close>

lemma addr_expected_key_None [simp]: "addr_expected_key e = None \<longleftrightarrow> ad_IPNet e = None"
  by (simp add: addr_expected_key_def split: option.split)

text \<open>The additions and the removals, in terms of the differences.\<close>

lemma EnsureLinkAddresses_unfold:
  assumes ordE: "range_order ordE" and list: "nl_AddrList nl link w = (Inr actual, w1)"
    and es: "distinct_on addr_expected_key es" "\<forall>e \<in> set es. ad_IPNet e \<noteq> None"
  shows "\<exists>cs ss. let am = indexBy addr_expected_key (filter managed_addr actual) in
    mset cs = mset (filter (diff_missing addrEqual addr_expected_key am) es) \<and>
    mset ss = mset (diff_stale addrEqual addr_expected_key am es) \<and>
    EnsureLinkAddresses nl ordE ordA link es w =
      bindM (forM (\<lambda>r. wrapM ''error doing ip addr add %s dev link %s: %v'' (callM (nl_AddrAdd nl link r))) cs)
        (\<lambda>_. forM (\<lambda>r. wrapM ''error doing ip addr del %s dev link %s address: %v'' (callM (nl_AddrDel nl link r)))
          (ss @ diff_extra addr_expected_key es (ordA am))) w1"
proof -
  define am where "am = indexBy addr_expected_key (filter managed_addr actual)"
  define em where "em = indexBy addr_expected_key es"
  have keys: "\<forall>e \<in> set es. addr_expected_key e \<noteq> None" using es(2) by simp
  have am': "indexBy addr_actual_key actual = am"
    unfolding am_def addr_actual_key_eq by (rule indexBy_filter)
  have "diff_missing addrEqual addr_expected_key am e = addr_create am (the (addr_expected_key e)) e"
    if "e \<in> set es" for e
    using keys that by (auto simp: diff_missing_def addr_create_def simp del: addr_expected_key_None split: option.splits)
  then have cs: "mset (map snd (filter (\<lambda>(k, e). addr_create am k e) (ordE em))) =
      mset (filter (diff_missing addrEqual addr_expected_key am) es)"
    unfolding em_def range_indexBy [OF ordE es(1) keys] by (metis (mono_tags, lifting) filter_cong)
  have "mset (List.map_filter (addr_replaced am) (ordE em)) = mset (List.map_filter (addr_replaced am) em)"
    using ordE by (simp add: map_filter_def range_order_def)
  also have "List.map_filter (addr_replaced am) em = diff_stale addrEqual addr_expected_key am es"
    using keys unfolding em_def indexBy_eq_map [OF es(1) keys]
    by (induction es) (auto simp: diff_stale_Cons map_filter_simps addr_replaced_def simp del: addr_expected_key_None split: option.splits)
  finally have ss: "mset (List.map_filter (addr_replaced am) (ordE em)) = mset (diff_stale addrEqual addr_expected_key am es)" .
  have extra: "map snd (filter (\<lambda>(k, a). map_of em k = None) (ordA am)) = diff_extra addr_expected_key es (ordA am)"
    by (simp add: em_def diff_extra_def indexBy_None_iff)
  show ?thesis unfolding am_def [symmetric] Let_def
    by (intro exI conjI, rule cs, rule ss)
      (simp add: EnsureLinkAddresses_def bind_call_Inr [of "nl_AddrList nl link", OF list] am' em_def [symmetric] extra Let_def)
qed

lemma addr_kernelD:
  assumes "addr_kernel nl link tbl accept"
  shows "nl_AddrList nl link w = (Inr (tbl w), w)"
    and "adds_entry tbl accept addr_clash addrEqual (nl_AddrAdd nl link)"
    and "refuses_clash tbl addr_clash (nl_AddrAdd nl link)"
    and "dels_entry tbl (nl_AddrDel nl link)"
  using assms by (simp_all add: addr_kernel_def)

text \<open>Adding the missing addresses first and deleting the others then gives the expected table.\<close>

lemma addrs_add_then_delete:
  assumes ker: "addr_kernel nl link tbl accept"
    and R: "set R = {a \<in> set (filter managed_addr (tbl w)). addr_expected_key a \<noteq> None \<and> \<not> (\<exists>e \<in> set es. addrEqual a e)}"
      "distinct R"
    and C: "set C \<subseteq> set es" "distinct_on addr_expected_key C" "\<forall>x \<in> set (tbl w). \<forall>c \<in> set C. \<not> addr_clash x c"
    and acc: "\<forall>c \<in> set C. accept c"
  shows "\<exists>w' rs. bindM (forM (\<lambda>r. wrapM m1 (callM (nl_AddrAdd nl link r))) C)
      (\<lambda>_. forM (\<lambda>r. wrapM m2 (callM (nl_AddrDel nl link r))) R) w = (Ret (), w') \<and>
    list_all2 addrEqual rs C \<and> tbl w' = filter (\<lambda>x. x \<notin> set R) (tbl w) @ rs"
proof -
  have "sorted_wrt (\<lambda>a b. \<not> addr_clash a b) C"
    using sorted_wrt_no_clash [OF C(2), of addr_clash] addr_clash_key by blast
  then obtain w1 rs where w1: "forM (\<lambda>r. wrapM m1 (callM (nl_AddrAdd nl link r))) C w = (Ret (), w1)"
    "list_all2 addrEqual rs C" "tbl w1 = tbl w @ rs"
    using forM_adds [OF addr_kernelD(2) [OF ker] addr_clash_cong acc C(3)] by blast
  have "set R \<subseteq> set (tbl w1)" using w1(3) R(1) by auto
  then obtain w2 where w2: "forM (\<lambda>r. wrapM m2 (callM (nl_AddrDel nl link r))) R w1 = (Ret (), w2)"
    "tbl w2 = filter (\<lambda>x. x \<notin> set R) (tbl w1)" using forM_dels [OF addr_kernelD(4) [OF ker] R(2)] by blast
  have "r \<notin> set R" if "r \<in> set rs" for r using list_all2_set1 [OF w1(2) that] C(1) R(1) by auto
  then have "filter (\<lambda>x. x \<notin> set R) rs = rs" by (simp add: filter_id_conv)
  then show ?thesis using w1 w2 by (simp add: bind_forM_Ret [OF w1(1)])
qed

lemma no_stale_addrs:
  assumes "\<forall>x \<in> set T. \<forall>e \<in> set es. addr_clash x e \<longrightarrow> addrEqual x e"
  shows "diff_stale addrEqual addr_expected_key (indexBy addr_expected_key (filter managed_addr T)) es = []"
  by (rule diff_stale_same) (use assms in \<open>auto simp: addr_clash_key simp del: addr_expected_key_None dest!: indexBy_SomeD\<close>)

lemma EnsureLinkAddresses_sets:
  assumes ker: "addr_kernel nl link tbl accept" and ord: "range_order ordE" "range_order ordA"
    and T: "distinct_on addr_expected_key (filter managed_addr (tbl w))"
    and es: "distinct_on addr_expected_key es" "\<forall>e \<in> set es. ad_IPNet e \<noteq> None \<and> managed_addr e \<and> accept e"
    and same: "\<forall>x \<in> set (tbl w). \<forall>e \<in> set es. addr_clash x e \<longrightarrow> addrEqual x e"
  shows "\<exists>w'. EnsureLinkAddresses nl ordE ordA link es w = (Ret (), w') \<and>
    installed addrEqual addr_expected_key managed_addr es (tbl w') \<and>
    filter (\<lambda>a. \<not> managed_addr a \<or> addr_expected_key a = None) (tbl w') =
    filter (\<lambda>a. \<not> managed_addr a \<or> addr_expected_key a = None) (tbl w)"
proof -
  let ?am = "indexBy addr_expected_key (filter managed_addr (tbl w))"
  let ?R = "diff_extra addr_expected_key es (ordA ?am)"
  have keys: "\<forall>e \<in> set es. ad_IPNet e \<noteq> None" "\<forall>e \<in> set es. addr_expected_key e \<noteq> None" using es by simp_all
  note stale = no_stale_addrs [OF same]
  obtain cs where cs: "mset cs = mset (filter (diff_missing addrEqual addr_expected_key ?am) es)" and
    run: "EnsureLinkAddresses nl ordE ordA link es w =
      bindM (forM (\<lambda>r. wrapM ''error doing ip addr add %s dev link %s: %v'' (callM (nl_AddrAdd nl link r))) cs)
        (\<lambda>_. forM (\<lambda>r. wrapM ''error doing ip addr del %s dev link %s address: %v'' (callM (nl_AddrDel nl link r))) ?R) w"
    using EnsureLinkAddresses_unfold [OF ord(1) addr_kernelD(1) [OF ker, of w] es(1) keys(1), where ordA = ordA]
    by (auto simp: Let_def stale)
  have R: "set ?R = {a \<in> set (filter managed_addr (tbl w)). addr_expected_key a \<noteq> None \<and> \<not> (\<exists>e \<in> set es. addrEqual a e)}"
    using addr_eq.set_stale_extra [OF T es(1)] by (simp add: stale set_diff_extra [OF ord(2)])
  have dR: "distinct ?R" using addr_eq.distinct_extra distinct_diff_extra [OF ord(2), of "[]"] by simp
  have "set cs = set (filter (diff_missing addrEqual addr_expected_key ?am) es)" using cs by (metis set_mset_mset)
  then have C: "set cs = {e \<in> set es. \<not> (\<exists>a \<in> set (filter managed_addr (tbl w)). addrEqual a e)}"
    using addr_eq.set_missing [OF T keys(2)] by simp
  have dC: "distinct_on addr_expected_key cs" unfolding mset_distinct_on [OF cs] by (rule distinct_on_filter [OF es(1)])
  have nc: "\<forall>x \<in> set (tbl w). \<forall>c \<in> set cs. \<not> addr_clash x c"
  proof (intro ballI notI)
    fix x c assume x: "x \<in> set (tbl w)" and c: "c \<in> set cs" and "addr_clash x c"
    then have "addrEqual x c" using same C by auto
    then show False using managed_addr_cong [of x c] es(2) C x c by auto
  qed
  have sub: "set cs \<subseteq> set es" "\<forall>c \<in> set cs. accept c" using C es by auto
  obtain w' rs where w': "EnsureLinkAddresses nl ordE ordA link es w = (Ret (), w')"
    "list_all2 addrEqual rs cs" "tbl w' = filter (\<lambda>x. x \<notin> set ?R) (tbl w) @ rs"
    unfolding run using addrs_add_then_delete [OF ker R dR sub(1) dC nc sub(2)] by blast
  have "installed addrEqual addr_expected_key managed_addr es (tbl w')" unfolding w'(3)
    using es by (intro addr_eq.replaced_installed [OF es(1) keys(2) T managed_addr_cong _ R C dC w'(2)]) auto
  moreover have "filter (\<lambda>a. \<not> managed_addr a \<or> addr_expected_key a = None) (tbl w') =
    filter (\<lambda>a. \<not> managed_addr a \<or> addr_expected_key a = None) (tbl w)" unfolding w'(3)
    using es R by (intro addr_eq.replaced_frame [OF managed_addr_cong _ _ w'(2) sub(1)]) auto
  ultimately show ?thesis using w'(1) by blast
qed


text \<open>
  EnsureLinkAddresses cannot change the label, flags or scope of an address.  When the
  link has the network of an expected address with other attributes, the new address is added
  before the old one is removed; the kernel refuses it as a duplicate, the call returns an
  error, and the old address stays.
\<close>

lemma EnsureLinkAddresses_change_stuck:
  assumes ker: "addr_kernel nl link tbl accept" and ord: "range_order ordE"
    and T: "distinct_on addr_expected_key (filter managed_addr (tbl w))"
    and es: "distinct_on addr_expected_key es" "\<forall>e \<in> set es. ad_IPNet e \<noteq> None \<and> accept e"
    and a: "a \<in> set (tbl w)" "managed_addr a" and e: "e \<in> set es"
    and changed: "addr_clash a e" "\<not> addrEqual a e"
  shows "\<exists>err w'. EnsureLinkAddresses nl ordE ordA link es w = (Err err, w') \<and> a \<in> set (tbl w')"
proof -
  let ?am = "indexBy addr_expected_key (filter managed_addr (tbl w))"
  have keys: "\<forall>e \<in> set es. ad_IPNet e \<noteq> None" using es by simp
  obtain cs ss where cs: "mset cs = mset (filter (diff_missing addrEqual addr_expected_key ?am) es)" and
    run: "EnsureLinkAddresses nl ordE ordA link es w =
      bindM (forM (\<lambda>r. wrapM ''error doing ip addr add %s dev link %s: %v'' (callM (nl_AddrAdd nl link r))) cs)
        (\<lambda>_. forM (\<lambda>r. wrapM ''error doing ip addr del %s dev link %s address: %v'' (callM (nl_AddrDel nl link r)))
          (ss @ diff_extra addr_expected_key es (ordA ?am))) w"
    using EnsureLinkAddresses_unfold [OF ord addr_kernelD(1) [OF ker, of w] es(1) keys, where ordA = ordA] by (auto simp: Let_def)
  have set_cs: "set cs = set (filter (diff_missing addrEqual addr_expected_key ?am) es)" using cs by (metis set_mset_mset)
  obtain k where k: "addr_expected_key e = Some k" "addr_expected_key a = Some k"
    using changed(1) unfolding addr_clash_key by (metis option.exhaust)
  then have "map_of ?am k = Some a" using indexBy_distinct_on [OF T, of a k] a by simp
  then have "e \<in> set cs" using e changed(2) set_cs k(1) by (simp add: diff_missing_def)
  moreover have "\<forall>c \<in> set cs. accept c" using set_cs es by auto
  ultimately obtain err w' where "forM (\<lambda>r. wrapM ''error doing ip addr add %s dev link %s: %v'' (callM (nl_AddrAdd nl link r))) cs w = (Err err, w')"
    "a \<in> set (tbl w')" using forM_adds_clash [OF addr_kernelD(2,3) [OF ker] _ _ a(1) changed(1)] by blast
  then show ?thesis unfolding run by (simp add: bindM_def)
qed

definition sample_addr :: "string \<Rightarrow> byte \<Rightarrow> addr" where
  "sample_addr label n = \<lparr>ad_IPNet = Some \<lparr>ipn_IP = Some [10, 0, n, 0], ipn_Mask = [255, 255, 255, 255]\<rparr>,
     ad_Label = label, ad_Flags = 128, ad_Scope = 0\<rparr>"

definition any_link :: link where
  "any_link = \<lparr>lk_Kind = OtherLink ''vxlan'', lk_Name = ''vxlan1'', lk_Index = 2, lk_MTU = 1400,
     lk_HardwareAddr = [], lk_Flags = FlagUp\<rparr>"

lemma ref_addr_kernel: "addr_kernel ref_netlink link rw_addrs (\<lambda>_. True)"
  unfolding addr_kernel_def ref_netlink_def
  by (simp add: ref_list_def ref_adds_entry ref_refuses_clash ref_dels_entry addr_eq.eq_refl)

lemma sample_addr_key:
  "managed_addr (sample_addr l n)" "addr_expected_key (sample_addr l 1) = Some ''10.0.1.0/32''"
  "addr_expected_key (sample_addr l 2) = Some ''10.0.2.0/32''"
  by (simp_all add: managed_addr_def sample_addr_def IsLinkLocalUnicast_def To4_def addr_expected_key_def
      net_eval IPNet_String_def)


lemma EnsureLinkAddresses_change_stuck_example:
  "\<exists>err w'. EnsureLinkAddresses ref_netlink rev rev any_link [sample_addr ''vxlan1'' 2]
      (empty_world\<lparr>rw_addrs := [sample_addr '''' 2]\<rparr>) = (Err err, w') \<and> sample_addr '''' 2 \<in> set (rw_addrs w')"
  using EnsureLinkAddresses_change_stuck [OF ref_addr_kernel range_order_rev, where
      w = "empty_world\<lparr>rw_addrs := [sample_addr '''' 2]\<rparr>" and es = "[sample_addr ''vxlan1'' 2]" and
      a = "sample_addr '''' 2" and e = "sample_addr ''vxlan1'' 2" and link = any_link and ordA = rev]
  by (simp add: distinct_on_Cons sample_addr_key addr_clash_key addrEqual_iff) (simp add: sample_addr_def)

end
