(* ===== verification/Vxlan.thy ===== *)
theory Vxlan
  imports Provider Route_Table Neigh_Table Link_Addresses
begin

text \<open>
  The VXLAN provider with the ARP monitor (\<^verbatim>\<open>src/pkg/routing/vxlan/vxlanrouting.go\<close> and
  \<^verbatim>\<open>netlink_monitor.go\<close>): one VXLAN link whose hardware address is computed from the pod network,
  a forwarding entry per remote node, a route for the whole overlay network, and a monitor that
  answers the kernel's requests for hardware addresses.

  Writing the sysctl file and subscribing to netlink messages are parameters, as is the decoding
  of a message.  The fields \<^verbatim>\<open>routeTable\<close> and \<^verbatim>\<open>neighTable\<close> point to structs without fields and
  are left out.  A goroutine is started by \<^verbatim>\<open>monitor.Start\<close>; its loop is \<open>monitor_watch\<close>.
\<close>

section \<open>The code\<close>

text \<open>The format \<^verbatim>\<open>%d\<close> of an int.\<close>

definition fmt_d :: "int \<Rightarrow> string" where
  "fmt_d i = (if i < 0 then ''-'' @ itoa (nat (- i)) else itoa (nat i))"

definition mapToMAC :: "ip \<Rightarrow> ('w, byte list) io" where
  "mapToMAC ip =
     (case To4 ip of
        None \<Rightarrow> fatalM ''unexpected non-ipv4 IP: %v''
      | Some ip4 \<Rightarrow> retM [0x00, 0x53, ip4 ! 0, ip4 ! 1, ip4 ! 2, ip4 ! 3])"

record NetlinkMonitor =
  mon_socket :: "int option"
  mon_linkIndex :: int

definition NewNetlinkMonitor :: "int \<Rightarrow> ('w, NetlinkMonitor) io" where
  "NewNetlinkMonitor linkIndex = retM \<lparr>mon_socket = None, mon_linkIndex = linkIndex\<rparr>"

definition Monitor_Start :: "('w, int) ext \<Rightarrow> NetlinkMonitor \<Rightarrow> ('w, NetlinkMonitor) io" where
  "Monitor_Start Subscribe m =
     bindM (wrapM ''Failed to subscribe to (NETLINK_ROUTE,RTNLGRP_NEIGH): %v'' (callM Subscribe))
       (\<lambda>socket. retM (m\<lparr>mon_socket := Some socket\<rparr>))"

record netlinkMessage =
  msg_Type :: "16 word"
  msg_Data :: "byte list"

definition RTM_NEWNEIGH :: "16 word" where "RTM_NEWNEIGH = 28"
definition RTM_GETNEIGH :: "16 word" where "RTM_GETNEIGH = 30"

definition monitor_message ::
  "'w netlink \<Rightarrow> (byte list \<Rightarrow> gerr + neigh) \<Rightarrow> NetlinkMonitor \<Rightarrow> netlinkMessage \<Rightarrow> ('w, unit) io"
where
  "monitor_message nl NeighDeserialize m message =
     (case NeighDeserialize (msg_Data message) of
        Inl err \<Rightarrow> retM ()
      | Inr neigh \<Rightarrow>
          if ng_LinkIndex neigh \<noteq> mon_linkIndex m then retM ()
          else if msg_Type message \<noteq> RTM_GETNEIGH \<and> msg_Type message \<noteq> RTM_NEWNEIGH then retM ()
          else if and (ng_State neigh) NUD_REACHABLE \<noteq> 0 then retM ()
          else if ng_HardwareAddr neigh \<noteq> None \<or> ng_IP neigh = None then retM ()
          else case To4 (ng_IP neigh) of
            None \<Rightarrow> retM ()
          | Some ip4 \<Rightarrow>
              bindM (mapToMAC (IPv4 (ip4 ! 0) (ip4 ! 1) (ip4 ! 2) 0)) (\<lambda>mac.
                tryM (callM (nl_NeighSet nl (zero_neigh\<lparr>ng_LinkIndex := mon_linkIndex m, ng_State := NUD_REACHABLE,
                    ng_Type := RTN_UNICAST, ng_IP := Some ip4, ng_HardwareAddr := Some mac\<rparr>)))
                  (\<lambda>err. retM ()) (\<lambda>_. retM ())))"

text \<open>One iteration of the loop of \<^verbatim>\<open>watch\<close>, and its first \<open>n\<close> iterations.\<close>

definition monitor_iteration ::
  "'w netlink \<Rightarrow> (byte list \<Rightarrow> gerr + neigh) \<Rightarrow> ('w, netlinkMessage list) ext \<Rightarrow> NetlinkMonitor \<Rightarrow> ('w, unit) io"
where
  "monitor_iteration nl NeighDeserialize Receive m =
     tryM (callM Receive) (\<lambda>err. retM ()) (\<lambda>messages. forM (monitor_message nl NeighDeserialize m) messages)"

fun monitor_watch ::
  "nat \<Rightarrow> 'w netlink \<Rightarrow> (byte list \<Rightarrow> gerr + neigh) \<Rightarrow> ('w, netlinkMessage list) ext \<Rightarrow> NetlinkMonitor \<Rightarrow> ('w, unit) io"
where
  "monitor_watch 0 nl NeighDeserialize Receive m = retM ()"
| "monitor_watch (Suc n) nl NeighDeserialize Receive m =
     bindM (monitor_iteration nl NeighDeserialize Receive m) (\<lambda>_. monitor_watch n nl NeighDeserialize Receive m)"

record VxlanRoutingProvider =
  vx_overlayCIDR :: "ipnet option"
  vx_monitor :: "NetlinkMonitor option"
  vx_vxlanID :: int
  vx_vtepIndex :: int
  vx_vxlanPort :: int
  vx_mtu :: int
  vx_link :: "link option"
  vx_lastVersionApplied :: "64 word"

definition NewVxlanRoutingProvider ::
  "'w netlink \<Rightarrow> ipnet option \<Rightarrow> string \<Rightarrow> ('w, VxlanRoutingProvider) io"
where
  "NewVxlanRoutingProvider nl overlayCIDR deviceName =
     bindM (wrapM ''error fetching target link %q: %v'' (callM (nl_LinkByName nl deviceName))) (\<lambda>underlyingLink.
       case underlyingLink of
         None \<Rightarrow> throwM (Errorf ''target link not found %q'' None)
       | Some l \<Rightarrow>
           retM \<lparr>vx_overlayCIDR = overlayCIDR, vx_monitor = None, vx_vxlanID = 1, vx_vtepIndex = 0,
             vx_vxlanPort = 4789, vx_mtu = lk_MTU l - 100, vx_link = None, vx_lastVersionApplied = 0\<rparr>)"

definition Vxlan_Close :: "(VxlanRoutingProvider \<times> 'w, unit) io" where
  "Vxlan_Close = retM ()"

definition listenArp :: "(string \<Rightarrow> string \<Rightarrow> ('w, unit) ext) \<Rightarrow> link \<Rightarrow> ('w, unit) io" where
  "listenArp WriteFile l =
     wrapM ''error writing setting sysctl for ARP events: %v''
       (callM (WriteFile (''/proc/sys/net/ipv4/neigh/'' @ lk_Name l @ ''/app_solicit'') ''3''))"

definition nil_pointer :: string where
  "nil_pointer = ''invalid memory address or nil pointer dereference''"

text \<open>
  The object that \<^verbatim>\<open>LinkAdd\<close> fills in is used afterwards when the link could be created, and
  the object without an index, which the library then looks up by name, when it could not.
\<close>

definition Vxlan_EnsureLink ::
  "'w netlink \<Rightarrow> (string \<times> addr) order \<Rightarrow> (string \<times> addr) order \<Rightarrow> VxlanRoutingProvider \<Rightarrow> ip \<Rightarrow> ipnet \<Rightarrow> ('w, link) io"
where
  "Vxlan_EnsureLink nl ordE ordA p me cidr =
     bindM (mapToMAC (ipn_IP cidr)) (\<lambda>macAddress.
       let name = ''vxlan'' @ fmt_d (vx_vxlanID p);
           new = \<lparr>lk_Kind = Vxlan (vx_vxlanID p) (vx_vtepIndex p) me False (vx_vxlanPort p), lk_Name = name,
                  lk_Index = 0, lk_MTU = vx_mtu p, lk_HardwareAddr = macAddress, lk_Flags = 0\<rparr>
       in bindM (tryM (callM (nl_LinkAdd nl new)) (\<lambda>err. retM new)
              (\<lambda>added. bindM (wrapM ''failed to ip link set %s address %s: %v''
                  (callM (nl_LinkSetHardwareAddr nl added macAddress))) (\<lambda>_. retM added))) (\<lambda>l.
          bindM (wrapM ''error retrieving link %q: %v'' (callM (nl_LinkByName nl name))) (\<lambda>res.
            case res of
              None \<Rightarrow> panicM nil_pointer
            | Some found \<Rightarrow>
                bindM (if lk_MTU found \<noteq> vx_mtu p
                       then wrapM ''failed to ip link set %s mtu %d: %v'' (callM (nl_LinkSetMTU nl l (vx_mtu p)))
                       else retM ()) (\<lambda>_.
                  case vx_overlayCIDR p of
                    None \<Rightarrow> panicM nil_pointer
                  | Some overlay \<Rightarrow>
                      bindM (wrapM ''failed to ip addr add %s dev link %s: %v''
                          (EnsureLinkAddresses nl ordE ordA l
                            [zero_addr\<lparr>ad_IPNet := Some \<lparr>ipn_IP = ipn_IP cidr, ipn_Mask = ipn_Mask overlay\<rparr>,
                               ad_Label := name, ad_Flags := 128\<rparr>])) (\<lambda>_.
                        bindM (wrapM ''failed to ip link set %s up: %s'' (callM (nl_LinkSetUp nl l)))
                          (\<lambda>_. retM found))))))"

definition pod_ip :: "NodeInfo \<Rightarrow> ip" where
  "pod_ip n = (case ni_PodCIDR n of None \<Rightarrow> None | Some cidr \<Rightarrow> ipn_IP cidr)"

definition vxlan_fdb :: "int \<Rightarrow> NodeInfo \<Rightarrow> byte list \<Rightarrow> neigh" where
  "vxlan_fdb linkIndex remote remoteMAC =
     zero_neigh\<lparr>ng_LinkIndex := linkIndex, ng_State := NUD_PERMANENT, ng_Family := AF_BRIDGE, ng_Flags := NTF_SELF,
       ng_IP := ni_Address remote, ng_HardwareAddr := Some remoteMAC\<rparr>"

fun vxlan_neighs :: "int \<Rightarrow> NodeInfo list \<Rightarrow> neigh list \<Rightarrow> ('w, neigh list) io" where
  "vxlan_neighs linkIndex [] neighs = retM neighs"
| "vxlan_neighs linkIndex (remote # rs) neighs =
     bindM (mapToMAC (pod_ip remote)) (\<lambda>remoteMAC.
       vxlan_neighs linkIndex rs (neighs @ [vxlan_fdb linkIndex remote remoteMAC]))"

definition vxlan_route :: "int \<Rightarrow> ipnet option \<Rightarrow> route" where
  "vxlan_route linkIndex overlay =
     zero_route\<lparr>rt_LinkIndex := linkIndex, rt_Dst := overlay, rt_Protocol := RTPROT_BOOT,
       rt_Table := RT_TABLE_MAIN, rt_Type := RTN_UNICAST\<rparr>"

definition is_vxlan :: "link \<Rightarrow> bool" where
  "is_vxlan l = (case lk_Kind l of Vxlan _ _ _ _ _ \<Rightarrow> True | _ \<Rightarrow> False)"

text \<open>The block that runs once, under \<^verbatim>\<open>if p.link == nil\<close>.\<close>

definition vxlan_setUp ::
  "'w netlink \<Rightarrow> (string \<Rightarrow> string \<Rightarrow> ('w, unit) ext) \<Rightarrow> ('w, int) ext \<Rightarrow> (string \<times> addr) order \<Rightarrow>
   (string \<times> addr) order \<Rightarrow> ip \<Rightarrow> ipnet \<Rightarrow> (VxlanRoutingProvider \<times> 'w, unit) io"
where
  "vxlan_setUp nl WriteFile Subscribe ordE ordA addr cidr =
     bindM getP (\<lambda>p.
       bindM (liftW (Vxlan_EnsureLink nl ordE ordA p addr cidr)) (\<lambda>l.
         if \<not> is_vxlan l then panicM ''interface conversion: netlink.Link is not *netlink.Vxlan''
         else bindM (putP (p\<lparr>vx_link := Some l\<rparr>)) (\<lambda>_.
           bindM (liftW (bindM (listenArp WriteFile l) (\<lambda>_.
               bindM (NewNetlinkMonitor (lk_Index l)) (\<lambda>m. Monitor_Start Subscribe m)))) (\<lambda>m.
             bindM getP (\<lambda>p. putP (p\<lparr>vx_monitor := Some m\<rparr>))))))"

definition Vxlan_EnsureCIDRs ::
  "'w netlink \<Rightarrow> (string \<Rightarrow> string \<Rightarrow> ('w, unit) ext) \<Rightarrow> ('w, int) ext \<Rightarrow> (string \<times> nat) order \<Rightarrow>
   (string \<times> addr) order \<Rightarrow> (string \<times> addr) order \<Rightarrow> (string \<times> neigh) order \<Rightarrow> (string \<times> route) order \<Rightarrow>
   NodeMap \<Rightarrow> (VxlanRoutingProvider \<times> 'w, unit) io"
where
  "Vxlan_EnsureCIDRs nl WriteFile Subscribe ordS ordE ordA ordN ordR nodeMap =
     bindM getP (\<lambda>p.
       if up_to_date (vx_lastVersionApplied p) nodeMap then retM ()
       else case Snapshot ordS nodeMap of
         (None, allNodes, version) \<Rightarrow> throwM no_local_node
       | (Some me, allNodes, version) \<Rightarrow>
           (case ni_PodCIDR me of
              None \<Rightarrow> throwM (Errorf ''No CIDR assigned to local node; cannot configure tunnels'' None)
            | Some cidr \<Rightarrow>
                if ni_Address me = None
                then throwM (Errorf ''No Address assigned to local node; cannot configure tunnels'' None)
                else
                  bindM (if vx_link p = None then vxlan_setUp nl WriteFile Subscribe ordE ordA (ni_Address me) cidr
                         else retM ()) (\<lambda>_.
                    bindM getP (\<lambda>p.
                      case vx_link p of
                        None \<Rightarrow> panicM nil_pointer
                      | Some l \<Rightarrow>
                          bindM (liftW (
                              bindM (vxlan_neighs (lk_Index l) (remotes me allNodes) []) (\<lambda>neighs.
                                bindM (wrapM ''error applying neigh table: %v'' (NeighTable_Ensure nl ordN l neighs)) (\<lambda>_.
                                  wrapM ''error applying route table: %v''
                                    (RouteTable_Ensure nl ordR (Some l) [vxlan_route (lk_Index l) (vx_overlayCIDR p)] True)))))
                            (\<lambda>_. bindM getP (\<lambda>p. putP (p\<lparr>vx_lastVersionApplied := version\<rparr>)))))))"

section \<open>The provider contract\<close>

definition vxlan_action ::
  "'w netlink \<Rightarrow> (string \<Rightarrow> string \<Rightarrow> ('w, unit) ext) \<Rightarrow> ('w, int) ext \<Rightarrow>
   (string \<times> addr) order \<Rightarrow> (string \<times> addr) order \<Rightarrow> (string \<times> neigh) order \<Rightarrow> (string \<times> route) order \<Rightarrow>
   NodeInfo \<Rightarrow> NodeInfo list \<Rightarrow> (VxlanRoutingProvider \<times> 'w, unit) io"
where
  "vxlan_action nl WriteFile Subscribe ordE ordA ordN ordR me allNodes =
     (case ni_PodCIDR me of
        None \<Rightarrow> throwM (Errorf ''No CIDR assigned to local node; cannot configure tunnels'' None)
      | Some cidr \<Rightarrow>
          if ni_Address me = None
          then throwM (Errorf ''No Address assigned to local node; cannot configure tunnels'' None)
          else
            bindM (bindM getP (\<lambda>p. if vx_link p = None then vxlan_setUp nl WriteFile Subscribe ordE ordA (ni_Address me) cidr
                   else retM ())) (\<lambda>_.
              bindM getP (\<lambda>p.
                case vx_link p of
                  None \<Rightarrow> panicM nil_pointer
                | Some l \<Rightarrow> liftW (
                      bindM (vxlan_neighs (lk_Index l) (remotes me allNodes) []) (\<lambda>neighs.
                        bindM (wrapM ''error applying neigh table: %v'' (NeighTable_Ensure nl ordN l neighs)) (\<lambda>_.
                          wrapM ''error applying route table: %v''
                            (RouteTable_Ensure nl ordR (Some l) [vxlan_route (lk_Index l) (vx_overlayCIDR p)] True)))))))"

lemma Vxlan_steps:
  "Vxlan_EnsureCIDRs nl WF Sub ordS ordE ordA ordN ordR =
   ensure_steps vx_lastVersionApplied (\<lambda>v. vx_lastVersionApplied_update (\<lambda>_. v))
     (vxlan_action nl WF Sub ordE ordA ordN ordR) ordS"
proof (intro ext)
  fix nm and s :: "VxlanRoutingProvider \<times> 'a"
  obtain p w where s: "s = (p, w)" by (cases s)
  show "Vxlan_EnsureCIDRs nl WF Sub ordS ordE ordA ordN ordR nm s = ensure_steps vx_lastVersionApplied
     (\<lambda>v. vx_lastVersionApplied_update (\<lambda>_. v)) (vxlan_action nl WF Sub ordE ordA ordN ordR) ordS nm s"
    unfolding s Vxlan_EnsureCIDRs_def ensure_steps_def vxlan_action_def bindM_getP
    by (auto simp: bindM_assoc bindM_panicM bindM_case_option cong: option.case_cong split: prod.split option.split)
qed

lemma keeps_vxlan_setUp: "keeps (\<lambda>s. vx_lastVersionApplied (fst s)) (vxlan_setUp nl WF Sub ordE ordA a c)"
proof -
  have "vx_lastVersionApplied (fst (snd (vxlan_setUp nl WF Sub ordE ordA a c (p, w)))) = vx_lastVersionApplied p" for p w
    by (auto simp: vxlan_setUp_def bindM_def liftW_def getP_def putP_def panicM_def split: prod.splits outcome.splits)
  then show ?thesis by (auto simp: keeps_def)
qed

interpretation vxlan: routing_provider "Vxlan_EnsureCIDRs nl WF Sub ordS ordE ordA ordN ordR" vx_lastVersionApplied
  for nl :: "'w netlink" and WF Sub ordS ordE ordA ordN ordR
  unfolding Vxlan_steps
  by (rule routing_provider_steps)
    (auto simp: vxlan_action_def intro!: keeps_intros keeps_vxlan_setUp split: option.split)

section \<open>Hardware addresses\<close>

definition mac_of :: "ip \<Rightarrow> byte list" where
  "mac_of a = [0x00, 0x53] @ the (To4 a)"

lemma mapToMAC_run: "To4 a \<noteq> None \<Longrightarrow> mapToMAC a w = (Ret (mac_of a), w)"
proof -
  assume "To4 a \<noteq> None"
  then obtain b c d e where "To4 a = Some [b, c, d, e]" using To4_bytes by blast
  then show ?thesis by (simp add: mapToMAC_def mac_of_def)
qed

lemma mac_of_eq: "To4 a \<noteq> None \<Longrightarrow> To4 b \<noteq> None \<Longrightarrow> mac_of a = mac_of b \<longleftrightarrow> IP_Equal a b"
proof -
  assume "To4 a \<noteq> None" "To4 b \<noteq> None"
  then obtain x y where xy: "To4 a = Some x" "To4 b = Some y" by blast
  show ?thesis
  proof
    assume "mac_of a = mac_of b"
    then show "IP_Equal a b" using To4_SomeD [OF xy(1)] To4_SomeD [OF xy(2)] xy by (simp add: mac_of_def IP_Equal_iff)
  next
    assume "IP_Equal a b"
    then show "mac_of a = mac_of b" using To4_cong by (simp add: mac_of_def)
  qed
qed

text \<open>
  mapToMAC gives every IPv4 address a hardware address of six bytes in the range 00:53, and
  two addresses the same one only when they are equal; on any other address it ends the process.
  It reads and changes nothing else.
\<close>

lemma mapToMAC_identifies:
  "(To4 a = None \<longrightarrow> fst (mapToMAC a w) = Fatal ''unexpected non-ipv4 IP: %v'') \<and>
   (To4 a \<noteq> None \<longrightarrow> (\<exists>mac. mapToMAC a w = (Ret mac, w) \<and> length mac = 6 \<and> take 2 mac = [0, 0x53] \<and>
      (\<forall>b. mapToMAC b w = (Ret mac, w) \<longrightarrow> IP_Equal a b)))"
proof (cases "To4 a = None")
  case False
  have "IP_Equal a b" if "mapToMAC b w = (Ret (mac_of a), w)" for b
  proof -
    have "To4 b \<noteq> None" using that by (auto simp: mapToMAC_def split: option.splits)
    then show ?thesis using that mac_of_eq [OF False, of b] by (simp add: mapToMAC_run)
  qed
  then show ?thesis using False by (auto simp: mapToMAC_run mac_of_def dest: length_To4)
qed (simp add: mapToMAC_def)

lemma mapToMAC_identifies_example:
  "mapToMAC (Some [100, 96, 1, 0]) () = (Ret [0, 0x53, 100, 96, 1, 0], ()) \<and>
   \<not> IP_Equal (Some [100, 96, 1, 0]) (Some [100, 96, 2, 0]) \<and>
   mapToMAC (Some [100, 96, 2, 0]) () \<noteq> mapToMAC (Some [100, 96, 1, 0]) ()"
  using mapToMAC_identifies [of "Some [100, 96, 1, 0]" "()"] by (auto simp: mapToMAC_def To4_def IP_Equal_def)

section \<open>The monitor\<close>

lemma To4_IPv4 [simp]: "To4 (IPv4 a b c d) = Some [a, b, c, d]"
  by (simp add: To4_def IPv4_def)

lemma monitor_message_Ret: "fst (monitor_message nl deser m msg w) = Ret ()"
  by (auto simp: monitor_message_def mapToMAC_def tryM_def callM_def split: sum.split option.split prod.split)

lemma forM_always_Ret:
  assumes "\<And>x w. fst (f x w) = Ret ()"
  shows "fst (forM f xs w) = Ret ()"
  using assms by (induction xs arbitrary: w) (simp_all add: fst_bindM)

lemma monitor_iteration_Ret: "fst (monitor_iteration nl deser recv m w) = Ret ()"
proof (cases "recv w")
  case (Pair r w')
  then show ?thesis
    by (cases r) (simp_all add: monitor_iteration_def try_call_Inl [of recv] try_call_Inr [of recv]
        forM_always_Ret monitor_message_Ret)
qed


text \<open>
  The monitor answers a request for the hardware address of a pod with the address of the
  network a.b.c.0 it takes the pod to be in.  It is the address of the forwarding entry of the
  pod's node if and only if the node's pod network starts at a.b.c.0, so for a network whose
  first address does not end in 0 (a mask longer than /24) the answer names no forwarding entry.
\<close>

lemma monitor_answers:
  assumes "deser (msg_Data msg) = Inr n" and "ng_LinkIndex n = mon_linkIndex m"
    and "msg_Type msg = RTM_GETNEIGH \<or> msg_Type msg = RTM_NEWNEIGH"
    and "and (ng_State n) NUD_REACHABLE = 0" and "ng_HardwareAddr n = None"
    and pod: "To4 (ng_IP n) = Some [a, b, c, d]" and net: "To4 (pod_ip r) = Some [a, b, c, e]"
    and mac: "mapToMAC (pod_ip r) w = (Ret remoteMAC, w)"
  shows "\<exists>answer. monitor_message nl deser m msg w = (Ret (), snd (nl_NeighSet nl answer w)) \<and>
    ng_LinkIndex answer = mon_linkIndex m \<and> IP_Equal (ng_IP answer) (ng_IP n) \<and>
    (ng_HardwareAddr answer = ng_HardwareAddr (vxlan_fdb i r remoteMAC) \<longleftrightarrow> e = 0)"
proof -
  let ?ans = "zero_neigh\<lparr>ng_LinkIndex := mon_linkIndex m, ng_State := NUD_REACHABLE,
    ng_Type := RTN_UNICAST, ng_IP := Some [a, b, c, d], ng_HardwareAddr := Some [0, 0x53, a, b, c, 0]\<rparr>"
  have "ng_IP n \<noteq> None" using pod by (cases "ng_IP n") (auto simp: To4_def)
  then have "monitor_message nl deser m msg w = (Ret (), snd (nl_NeighSet nl ?ans w))"
    using assms(1-5) pod by (auto simp: monitor_message_def mapToMAC_def tryM_def callM_def split: prod.split sum.split)
  moreover have "IP_Equal (Some [a, b, c, d]) (ng_IP n)"
    using To4_SomeD [OF pod] by (simp add: IP_Equal_iff)
  moreover have "remoteMAC = [0, 0x53, a, b, c, e]" using mac net by (simp add: mapToMAC_def)
  ultimately show ?thesis by (intro exI [of _ ?ans]) (auto simp: vxlan_fdb_def)
qed

section \<open>Setting up the link\<close>

lemma Vxlan_EnsureCIDRs_link_kept:
  assumes "vx_link p = Some l" and "Vxlan_EnsureCIDRs nl WF Sub ordS ordE ordA ordN ordR nm (p, w) = (r, (p', w'))"
  shows "vx_link p' = Some l \<and> vx_monitor p' = vx_monitor p"
  using assms by (auto simp: Vxlan_EnsureCIDRs_def bindM_def liftW_def getP_def putP_def throwM_def
      split: prod.splits outcome.splits option.splits if_splits)

text \<open>
  When the kernel refuses the request for ARP events, EnsureCIDRs fails after it has stored
  the link, and no later call makes up for it: whatever the node map, the kernel and the file
  system do, every later call skips the whole block, so the events stay off and no monitor is
  ever started, although such a call can succeed and report that everything is applied.
\<close>

lemma Vxlan_setup_not_retried:
  assumes snap: "Snapshot ordS nm = (Some me, nodes, v)" and stale: "\<not> up_to_date (vx_lastVersionApplied p) nm"
    and me: "ni_PodCIDR me = Some cidr" "ni_Address me \<noteq> None"
    and p: "vx_link p = None" "vx_monitor p = None"
    and link: "Vxlan_EnsureLink (nl :: 'w netlink) ordE ordA p (ni_Address me) cidr w = (Ret l, w1)" "is_vxlan l"
    and refused: "WF (''/proc/sys/net/ipv4/neigh/'' @ lk_Name l @ ''/app_solicit'') ''3'' w1 = (Inl e, w2)"
  shows "\<exists>err. Vxlan_EnsureCIDRs nl WF Sub ordS ordE ordA ordN ordR nm (p, w) = (Err err, (p\<lparr>vx_link := Some l\<rparr>, w2)) \<and>
    (\<forall>(nl' :: 'w netlink) WF' Sub' nm' w3 r p' w4.
       Vxlan_EnsureCIDRs nl' WF' Sub' ordS ordE ordA ordN ordR nm' (p\<lparr>vx_link := Some l\<rparr>, w3) = (r, (p', w4)) \<longrightarrow>
       vx_link p' = Some l \<and> vx_monitor p' = None)"
proof -
  have "listenArp WF l w1 = (Err (Errorf ''error writing setting sysctl for ARP events: %v'' (Some e)), w2)"
    using refused by (simp add: listenArp_def wrapM_def callM_def)
  then have "vxlan_setUp nl WF Sub ordE ordA (ni_Address me) cidr (p, w) =
      (Err (Errorf ''error writing setting sysctl for ARP events: %v'' (Some e)), (p\<lparr>vx_link := Some l\<rparr>, w2))"
    using link by (simp add: vxlan_setUp_def bindM_def)
  then have "Vxlan_EnsureCIDRs nl WF Sub ordS ordE ordA ordN ordR nm (p, w) =
      (Err (Errorf ''error writing setting sysctl for ARP events: %v'' (Some e)), (p\<lparr>vx_link := Some l\<rparr>, w2))"
    using me p stale by (auto simp: Vxlan_EnsureCIDRs_def snap bindM_def)
  moreover have "vx_link p' = Some l \<and> vx_monitor p' = None"
    if "Vxlan_EnsureCIDRs nl' WF' Sub' ordS ordE ordA ordN ordR nm' (p\<lparr>vx_link := Some l\<rparr>, w3) = (r, (p', w4))"
    for nl' :: "'w netlink" and WF' Sub' nm' w3 r p' w4
    using Vxlan_EnsureCIDRs_link_kept [OF _ that] p by simp
  ultimately show ?thesis by blast
qed

section \<open>What EnsureCIDRs installs\<close>

text \<open>The neighbour table and the routes, and that a change of one leaves the other alone.\<close>

definition overlay_kernel ::
  "'w netlink \<Rightarrow> ('w \<Rightarrow> neigh list) \<Rightarrow> ('w \<Rightarrow> route list) \<Rightarrow> (neigh \<Rightarrow> bool) \<Rightarrow> (neigh \<Rightarrow> bool) \<Rightarrow> (route \<Rightarrow> bool) \<Rightarrow> bool"
where
  "overlay_kernel nl neighs routes shown acceptN acceptR \<longleftrightarrow>
     neigh_kernel nl neighs shown acceptN \<and> route_kernel nl routes acceptR \<and>
     (\<forall>n. keeps_ext routes (nl_NeighSet nl n)) \<and>
     (\<forall>r. keeps_ext neighs (nl_RouteAdd nl r)) \<and> (\<forall>r. keeps_ext neighs (nl_RouteDel nl r))"

lemma NeighTable_keeps_routes:
  assumes "overlay_kernel nl neighs routes shown acceptN acceptR"
  shows "keeps routes (NeighTable_Ensure nl ord l ns)"
proof -
  have "keeps_ext routes (nl_NeighList nl i)" for i
    using assms by (simp add: overlay_kernel_def neigh_kernel_def keeps_ext_def)
  then show ?thesis using assms
    by (auto simp: NeighTable_Ensure_def Let_def overlay_kernel_def intro!: keeps_intros)
qed

lemma RouteTable_keeps_neighs:
  assumes "overlay_kernel nl neighs routes shown acceptN acceptR"
  shows "keeps neighs (RouteTable_Ensure nl ord l rs flag)"
proof -
  have "keeps_ext neighs (nl_RouteList nl i)" for i
    using assms by (simp add: overlay_kernel_def route_kernel_def keeps_ext_def)
  then show ?thesis using assms
    by (auto simp: RouteTable_Ensure_def Let_def overlay_kernel_def intro!: keeps_intros split: sum.split prod.split)
qed

text \<open>The two tables one after the other, as both VXLAN providers apply them.\<close>

lemma overlay_tables:
  assumes ker: "overlay_kernel nl neighs routes shown acceptN acceptR" and ord: "range_order ordN" "range_order ordR"
    and ns: "distinct_on neigh_key ns" "\<forall>n \<in> set ns. ng_IP n \<noteq> None \<and> acceptN n" "no_neigh_clash ns"
    and T: "distinct_on route_key (filter (on_link (Some l)) (routes w))"
    and rs: "\<forall>e \<in> set rs. rt_Dst e \<noteq> None \<and> acceptR e \<and> on_link (Some l) e" "distinct_on route_key rs"
    and other: "\<forall>x \<in> set (routes w). \<not> on_link (Some l) x \<longrightarrow> (\<forall>e \<in> set rs. \<not> route_clash x e)"
  shows "\<exists>w'. bindM (wrapM msgN (NeighTable_Ensure nl ordN l ns))
      (\<lambda>_. wrapM msgR (RouteTable_Ensure nl ordR (Some l) rs True)) w = (Ret (), w') \<and>
    (\<forall>n \<in> set ns. \<exists>x \<in> set (neighs w'). neighEqual x n) \<and>
    installed routeEqual route_key (on_link (Some l)) rs (routes w')"
proof -
  have nk: "neigh_kernel nl neighs shown acceptN" and rk: "route_kernel nl routes acceptR"
    using ker by (simp_all add: overlay_kernel_def)
  obtain w1 where 1: "NeighTable_Ensure nl ordN l ns w = (Ret (), w1)" "\<forall>n \<in> set ns. \<exists>x \<in> set (neighs w1). neighEqual x n"
    using NeighTable_sets [OF nk ord(1) ns, of l w] by blast
  have r1: "routes w1 = routes w" using keeps_snd [OF NeighTable_keeps_routes [OF ker], of ordN l ns w] 1(1) by simp
  obtain w2 where 2: "RouteTable_Ensure nl ordR (Some l) rs True w1 = (Ret (), w2)"
    "installed routeEqual route_key (on_link (Some l)) rs (routes w2)"
    using Ensure_installs [OF rk ord(2) T [folded r1] rs other [folded r1]] by blast
  have "neighs w2 = neighs w1" using keeps_snd [OF RouteTable_keeps_neighs [OF ker], of ordR "Some l" rs True w1] 2(1) by simp
  then show ?thesis using 1 2 by (simp add: bindM_def wrapM_def)
qed

lemma vxlan_neighs_run:
  assumes "\<forall>r \<in> set rs. To4 (pod_ip r) \<noteq> None"
  shows "vxlan_neighs i rs acc w = (Ret (acc @ map (\<lambda>r. vxlan_fdb i r (mac_of (pod_ip r))) rs), w)"
  using assms by (induction rs arbitrary: acc) (simp_all add: bindM_def mapToMAC_run)

lemma distinct_on_neigh_key_map:
  assumes "distinct (map (\<lambda>r. IP_String (f r)) rs)" and "\<forall>r \<in> set rs. ng_IP (g r) = f r"
  shows "distinct_on neigh_key (map g rs)"
  using assms
proof (induction rs)
  case (Cons a rs)
  have "neigh_key (g a) \<noteq> neigh_key (g r)" if "r \<in> set rs" "neigh_key (g a) \<noteq> None" for r
    using Cons.prems that by (cases "f a"; cases "f r") (auto simp: neigh_key_def image_iff)
  then show ?case using Cons by (auto simp: distinct_on_Cons)
qed simp

lemma fdb_no_clash:
  assumes "\<forall>r \<in> set rs. To4 (pod_ip r) \<noteq> None" and "distinct (map (\<lambda>r. mac_of (pod_ip r)) rs)"
  shows "no_neigh_clash (map (\<lambda>r. vxlan_fdb i r (mac_of (pod_ip r))) rs)"
  using assms by (auto simp: no_neigh_clash_def neigh_clash_def vxlan_fdb_def zero_neigh_def distinct_map
      dest!: inj_onD)

text \<open>
  C27: EnsureCIDRs of the VXLAN provider, once the link is set up, returns without an error and
  records the version; afterwards the forwarding table has an entry from the hardware address of
  every remote pod network to the address of its node, and the routes of the link are exactly the
  route for the overlay network.  The pod networks are IPv4 and, like the nodes' addresses,
  distinct, and no route of another link has the destination of the overlay.
\<close>

theorem Vxlan_EnsureCIDRs_installs:
  assumes ker: "overlay_kernel nl neighs routes shown acceptN acceptR" and ord: "range_order ordN" "range_order ordR"
    and snap: "Snapshot ordS nm = (Some me, nodes, v)" and stale: "\<not> up_to_date (vx_lastVersionApplied p) nm"
    and me: "ni_PodCIDR me \<noteq> None" "ni_Address me \<noteq> None"
    and p: "vx_link p = Some l" "vx_overlayCIDR p \<noteq> None"
    and v4: "\<forall>r \<in> set (remotes me nodes). To4 (pod_ip r) \<noteq> None"
    and dist: "distinct (map (\<lambda>r. mac_of (pod_ip r)) (remotes me nodes))"
      "distinct (map (\<lambda>r. IP_String (ni_Address r)) (remotes me nodes))"
    and acc: "\<forall>r \<in> set (remotes me nodes). acceptN (vxlan_fdb (lk_Index l) r (mac_of (pod_ip r)))"
      "acceptR (vxlan_route (lk_Index l) (vx_overlayCIDR p))"
    and T: "distinct_on route_key (filter (on_link (Some l)) (routes w))"
    and other: "\<forall>x \<in> set (routes w). \<not> on_link (Some l) x \<longrightarrow> \<not> route_clash x (vxlan_route (lk_Index l) (vx_overlayCIDR p))"
  shows "\<exists>w'. Vxlan_EnsureCIDRs nl WF Sub ordS ordE ordA ordN ordR nm (p, w) = (Ret (), (p\<lparr>vx_lastVersionApplied := v\<rparr>, w')) \<and>
    (\<forall>r \<in> set (remotes me nodes). \<exists>n \<in> set (neighs w').
       mapToMAC (pod_ip r) w' = (Ret (hw_bytes (ng_HardwareAddr n)), w') \<and> IP_Equal (ng_IP n) (ni_Address r) \<and>
       ng_Family n = AF_BRIDGE \<and> ng_LinkIndex n = lk_Index l) \<and>
    installed routeEqual route_key (on_link (Some l)) [vxlan_route (lk_Index l) (vx_overlayCIDR p)] (routes w')"
proof -
  let ?rs = "remotes me nodes" and ?f = "\<lambda>r. vxlan_fdb (lk_Index l) r (mac_of (pod_ip r))"
  let ?route = "vxlan_route (lk_Index l) (vx_overlayCIDR p)"
  have keys: "distinct_on neigh_key (map ?f ?rs)"
    by (rule distinct_on_neigh_key_map [OF dist(2)]) (simp add: vxlan_fdb_def)
  have ns: "\<forall>n \<in> set (map ?f ?rs). ng_IP n \<noteq> None \<and> acceptN n" using acc(1) by (auto simp: vxlan_fdb_def in_remotes)
  have route: "\<forall>e \<in> set [?route]. rt_Dst e \<noteq> None \<and> acceptR e \<and> on_link (Some l) e"
    using acc(2) p(2) by (simp add: vxlan_route_def on_link_def)
  obtain w' where run: "bindM (wrapM ''error applying neigh table: %v'' (NeighTable_Ensure nl ordN l (map ?f ?rs)))
      (\<lambda>_. wrapM ''error applying route table: %v'' (RouteTable_Ensure nl ordR (Some l) [?route] True)) w = (Ret (), w')"
    and n: "\<forall>n \<in> set (map ?f ?rs). \<exists>x \<in> set (neighs w'). neighEqual x n"
    and inst: "installed routeEqual route_key (on_link (Some l)) [?route] (routes w')"
    using overlay_tables [OF ker ord keys ns fdb_no_clash [OF v4 dist(1)] T route,
        where msgN = "''error applying neigh table: %v''" and msgR = "''error applying route table: %v''"] other
    by (auto simp: distinct_on_Cons)
  obtain cidr where "ni_PodCIDR me = Some cidr" using me(1) by blast
  then have "Vxlan_EnsureCIDRs nl WF Sub ordS ordE ordA ordN ordR nm (p, w) = (Ret (), (p\<lparr>vx_lastVersionApplied := v\<rparr>, w'))"
    unfolding Vxlan_steps ensure_steps_run [of vx_lastVersionApplied, OF stale snap]
    using me(2) p(1) vxlan_neighs_run [OF v4, of "lk_Index l" "[]" w] run
    by (simp add: vxlan_action_def bindM_assoc) (simp add: bindM_def)
  moreover have "\<exists>n \<in> set (neighs w'). mapToMAC (pod_ip r) w' = (Ret (hw_bytes (ng_HardwareAddr n)), w') \<and>
      IP_Equal (ng_IP n) (ni_Address r) \<and> ng_Family n = AF_BRIDGE \<and> ng_LinkIndex n = lk_Index l" if r: "r \<in> set ?rs" for r
  proof -
    obtain x where x: "x \<in> set (neighs w')" "neighEqual x (?f r)" using n r by auto
    then show ?thesis using mapToMAC_run [of "pod_ip r" w'] v4 r
      by (intro bexI [of _ x]) (auto simp: neighEqual_iff vxlan_fdb_def)
  qed
  ultimately show ?thesis using inst by blast
qed

section \<open>Examples\<close>

lemma ref_overlay_kernel: "overlay_kernel ref_netlink rw_neighs rw_routes (\<lambda>_. True) (\<lambda>_. True) (\<lambda>_. True)"
  unfolding overlay_kernel_def
  by (simp add: ref_neigh_kernel ref_route_kernel)
    (simp add: ref_netlink_def keeps_ext_def ref_set_def ref_add_def ref_del_def)

definition vx_sample :: VxlanRoutingProvider where
  "vx_sample = \<lparr>vx_overlayCIDR = Some \<lparr>ipn_IP = Some [10, 0, 0, 0], ipn_Mask = [255, 0, 0, 0]\<rparr>, vx_monitor = None,
     vx_vxlanID = 1, vx_vtepIndex = 0, vx_vxlanPort = 4789, vx_mtu = 1400, vx_link = None, vx_lastVersionApplied = 0\<rparr>"

lemma pod_ip_sample: "pod_ip (ni_sample name n) = Some [10, 0, n, 0]" "To4 (Some [10, 0, n, 0]) = Some [10, 0, n, 0]"
  by (simp_all add: pod_ip_def ni_sample_def pod_net_def To4_def)

definition sample_request :: neigh where
  "sample_request = zero_neigh\<lparr>ng_LinkIndex := 2, ng_IP := Some [10, 0, 2, 7]\<rparr>"

lemma monitor_answers_example:
  "\<exists>answer. monitor_message ref_netlink (\<lambda>_. Inr sample_request)
      \<lparr>mon_socket = Some 3, mon_linkIndex = 2\<rparr> \<lparr>msg_Type = RTM_GETNEIGH, msg_Data = []\<rparr> empty_world =
      (Ret (), snd (nl_NeighSet ref_netlink answer empty_world)) \<and>
    ng_HardwareAddr answer = ng_HardwareAddr (vxlan_fdb 2 (ni_sample ''b'' 2) [0, 0x53, 10, 0, 2, 0])"
proof -
  let ?msg = "\<lparr>msg_Type = RTM_GETNEIGH, msg_Data = []\<rparr>" and ?m = "\<lparr>mon_socket = Some 3, mon_linkIndex = 2\<rparr>"
  have 1: "(\<lambda>_. Inr sample_request :: gerr + neigh) (msg_Data ?msg) = Inr sample_request" by simp
  have 2: "ng_LinkIndex sample_request = mon_linkIndex ?m" "msg_Type ?msg = RTM_GETNEIGH \<or> msg_Type ?msg = RTM_NEWNEIGH"
    "and (ng_State sample_request) NUD_REACHABLE = 0" "ng_HardwareAddr sample_request = None"
    by (simp_all add: sample_request_def zero_neigh_def)
  have 3: "To4 (ng_IP sample_request) = Some [10, 0, 2, 7]" by (simp add: sample_request_def To4_def)
  have 4: "To4 (pod_ip (ni_sample ''b'' 2)) = Some [10, 0, 2, 0]" by (simp add: pod_ip_sample)
  have 5: "mapToMAC (pod_ip (ni_sample ''b'' 2)) empty_world = (Ret [0, 0x53, 10, 0, 2, 0], empty_world)"
    by (simp add: mapToMAC_def 4)
  show ?thesis using monitor_answers [OF 1 2 3 4 5, of ref_netlink 2] by (elim exE conjE) (rule exI, rule conjI, assumption, simp)
qed

theorem Vxlan_EnsureCIDRs_installs_witness:
  "\<exists>w'. Vxlan_EnsureCIDRs ref_netlink (\<lambda>_ _ w. (Inr (), w)) (\<lambda>w. (Inr 3, w)) rev rev rev rev rev nm_sample
      (vx_sample\<lparr>vx_link := Some sample_link\<rparr>, empty_world) =
      (Ret (), (vx_sample\<lparr>vx_link := Some sample_link, vx_lastVersionApplied := 2\<rparr>, w')) \<and>
    (\<exists>n \<in> set (rw_neighs w'). IP_Equal (ng_IP n) (Some [192, 168, 0, 2]) \<and> ng_Family n = AF_BRIDGE)"
proof -
  let ?p = "vx_sample\<lparr>vx_link := Some sample_link\<rparr>"
  have "\<not> up_to_date (vx_lastVersionApplied ?p) nm_sample" "vx_link ?p = Some sample_link" "vx_overlayCIDR ?p \<noteq> None"
    "ni_PodCIDR (ni_sample ''a'' 1) \<noteq> None" "ni_Address (ni_sample ''a'' 1) \<noteq> None"
    by (simp_all add: up_to_date_def vx_sample_def ni_sample_def)
  from Vxlan_EnsureCIDRs_installs [OF ref_overlay_kernel range_order_rev range_order_rev nm_sample_snapshot
      this(1,4,5,2,3), of empty_world "\<lambda>_ _ w. (Inr (), w)" "\<lambda>w. (Inr 3, w)" rev rev]
  show ?thesis by (auto simp: nm_sample_remotes pod_ip_sample empty_world_def) (auto simp: ni_sample_def)
qed

lemma vx_sample_EnsureLink:
  "\<exists>l w1. Vxlan_EnsureLink ref_netlink rev rev vx_sample (Some [192, 168, 0, 1]) (pod_net 1) empty_world = (Ret l, w1) \<and> is_vxlan l"
  by (simp add: Vxlan_EnsureLink_def vx_sample_def pod_net_def mapToMAC_def To4_def ref_eval
      fmt_d_def itoa.simps EnsureLinkAddresses_def indexBy_def addr_expected_key_def zero_addr_def addr_create_def
      addr_replaced_def map_filter_simps is_vxlan_def)

lemma Vxlan_setup_not_retried_example:
  "\<exists>err p1 w2. Vxlan_EnsureCIDRs ref_netlink (\<lambda>_ _ w. (Inl (ExtErr ''read-only file system''), w)) (\<lambda>w. (Inr 3, w))
      rev rev rev rev rev nm_sample (vx_sample, empty_world) = (Err err, (p1, w2)) \<and>
    (\<forall>r p' w4. Vxlan_EnsureCIDRs ref_netlink (\<lambda>_ _ w. (Inr (), w)) (\<lambda>w. (Inr 3, w)) rev rev rev rev rev nm_sample (p1, w2) =
       (r, (p', w4)) \<longrightarrow> vx_monitor p' = None)"
proof -
  obtain l w1 where link: "Vxlan_EnsureLink ref_netlink rev rev vx_sample (Some [192, 168, 0, 1]) (pod_net 1) empty_world = (Ret l, w1)"
    "is_vxlan l" using vx_sample_EnsureLink by blast
  have me: "\<not> up_to_date (vx_lastVersionApplied vx_sample) nm_sample" "ni_PodCIDR (ni_sample ''a'' 1) = Some (pod_net 1)"
    "ni_Address (ni_sample ''a'' 1) \<noteq> None" "vx_link vx_sample = None" "vx_monitor vx_sample = None"
    "ni_Address (ni_sample ''a'' 1) = Some [192, 168, 0, 1]"
    by (simp_all add: up_to_date_def vx_sample_def ni_sample_def)
  let ?WF = "\<lambda>_ _ w. (Inl (ExtErr ''read-only file system''), w)" and ?p1 = "vx_sample\<lparr>vx_link := Some l\<rparr>"
  have link': "Vxlan_EnsureLink ref_netlink rev rev vx_sample (ni_Address (ni_sample ''a'' 1)) (pod_net 1) empty_world = (Ret l, w1)"
    using link(1) me(6) by simp
  obtain err where err: "Vxlan_EnsureCIDRs ref_netlink ?WF (\<lambda>w. (Inr 3, w)) rev rev rev rev rev nm_sample (vx_sample, empty_world) =
      (Err err, (?p1, w1))" and
    later: "\<forall>(nl' :: ref_world netlink) WF' Sub' nm' w3 r p' w4. Vxlan_EnsureCIDRs nl' WF' Sub' rev rev rev rev rev nm' (?p1, w3) = (r, (p', w4)) \<longrightarrow>
       vx_link p' = Some l \<and> vx_monitor p' = None"
    using Vxlan_setup_not_retried [OF nm_sample_snapshot me(1-5) link' link(2), of ?WF
        "ExtErr ''read-only file system''" w1 "\<lambda>w. (Inr 3, w)" rev rev] by blast
  then show ?thesis by (intro exI [of _ err] exI [of _ ?p1] exI [of _ w1]) simp
qed

end
