(* ===== verification/Vxlan2.thy ===== *)
theory Vxlan2
  imports Vxlan
begin

text \<open>
  The second VXLAN provider (\<^verbatim>\<open>src/pkg/routing/vxlan2/vxlan2routing.go\<close>), which needs no monitor:
  for every remote node it installs a permanent neighbour entry, a forwarding entry and a route.
  The package has its own copy of \<^verbatim>\<open>mapToMAC\<close>, which is shown to be the same function.
\<close>

section \<open>The code\<close>

definition mapToMAC2 :: "ip \<Rightarrow> ('w, byte list) io" where
  "mapToMAC2 ip =
     (case To4 ip of
        None \<Rightarrow> fatalM ''unexpected non-ipv4 IP: %v''
      | Some ip4 \<Rightarrow> retM [0x00, 0x53, ip4 ! 0, ip4 ! 1, ip4 ! 2, ip4 ! 3])"

record Vxlan2RoutingProvider =
  v2_overlayCIDR :: "ipnet option"
  v2_vxlanID :: int
  v2_vtepIndex :: int
  v2_vxlanPort :: int
  v2_mtu :: int
  v2_link :: "link option"
  v2_lastVersionApplied :: "64 word"

fun vxlan2_minMTU :: "'w netlink \<Rightarrow> string list \<Rightarrow> int \<Rightarrow> ('w, int) io" where
  "vxlan2_minMTU nl [] minMTU = retM minMTU"
| "vxlan2_minMTU nl (deviceName # ds) minMTU =
     bindM (wrapM ''error fetching target link %q: %v'' (callM (nl_LinkByName nl deviceName))) (\<lambda>underlyingLink.
       case underlyingLink of
         None \<Rightarrow> throwM (Errorf ''target link not found %q'' None)
       | Some l \<Rightarrow>
           vxlan2_minMTU nl ds (if minMTU = 0 \<or> lk_MTU l < minMTU then lk_MTU l else minMTU))"

definition NewVxlan2RoutingProvider ::
  "'w netlink \<Rightarrow> ipnet option \<Rightarrow> string list \<Rightarrow> ('w, Vxlan2RoutingProvider) io"
where
  "NewVxlan2RoutingProvider nl overlayCIDR deviceNames =
     bindM (vxlan2_minMTU nl deviceNames 0) (\<lambda>minMTU.
       retM \<lparr>v2_overlayCIDR = overlayCIDR, v2_vxlanID = 1, v2_vtepIndex = 0, v2_vxlanPort = 4789,
         v2_mtu = minMTU - 100, v2_link = None, v2_lastVersionApplied = 0\<rparr>)"

definition Vxlan2_Close :: "(Vxlan2RoutingProvider \<times> 'w, unit) io" where
  "Vxlan2_Close = retM ()"

definition vxlan2_name :: "Vxlan2RoutingProvider \<Rightarrow> string" where
  "vxlan2_name p = ''vxlan'' @ fmt_d (v2_vxlanID p)"

definition vxlan2_link :: "Vxlan2RoutingProvider \<Rightarrow> ip \<Rightarrow> byte list \<Rightarrow> link" where
  "vxlan2_link p me macAddress =
     \<lparr>lk_Kind = Vxlan (v2_vxlanID p) (v2_vtepIndex p) me False (v2_vxlanPort p), lk_Name = vxlan2_name p,
      lk_Index = 0, lk_MTU = v2_mtu p, lk_HardwareAddr = macAddress, lk_Flags = 0\<rparr>"

definition vxlan2_addr :: "Vxlan2RoutingProvider \<Rightarrow> ipnet \<Rightarrow> addr" where
  "vxlan2_addr p cidr =
     zero_addr\<lparr>ad_IPNet := Some \<lparr>ipn_IP = ipn_IP cidr, ipn_Mask = CIDRMask 32 32\<rparr>,
       ad_Label := vxlan2_name p, ad_Flags := 128\<rparr>"

text \<open>Finding or creating the link: the first half of \<^verbatim>\<open>EnsureLink\<close>.\<close>

definition vxlan2_findLink :: "'w netlink \<Rightarrow> Vxlan2RoutingProvider \<Rightarrow> ip \<Rightarrow> byte list \<Rightarrow> ('w, link) io" where
  "vxlan2_findLink nl p me macAddress =
     bindM (tryM (callM (nl_LinkByName nl (vxlan2_name p)))
         (\<lambda>err. case err of LinkNotFoundErr _ \<Rightarrow> retM None
            | _ \<Rightarrow> throwM (Errorf ''error fetching link %q: %w'' (Some err)))
         retM) (\<lambda>actual.
       case actual of
         None \<Rightarrow>
           bindM (wrapM ''unable to create link %q: %w'' (callM (nl_LinkAdd nl (vxlan2_link p me macAddress)))) (\<lambda>_.
             bindM (wrapM ''error retrieving link %q after creation: %w'' (callM (nl_LinkByName nl (vxlan2_name p)))) (\<lambda>found.
               case found of None \<Rightarrow> panicM nil_pointer | Some l \<Rightarrow> retM l))
       | Some l \<Rightarrow> retM l)"

definition Vxlan2_EnsureLink ::
  "'w netlink \<Rightarrow> (string \<times> addr) order \<Rightarrow> (string \<times> addr) order \<Rightarrow> Vxlan2RoutingProvider \<Rightarrow> ip \<Rightarrow> ipnet \<Rightarrow> ('w, link) io"
where
  "Vxlan2_EnsureLink nl ordE ordA p me cidr =
     bindM (mapToMAC2 (ipn_IP cidr)) (\<lambda>macAddress.
       bindM (vxlan2_findLink nl p me macAddress) (\<lambda>actual.
         bindM (if lk_HardwareAddr actual \<noteq> macAddress
                then wrapM ''failed to ip link set %s address %s: %w'' (callM (nl_LinkSetHardwareAddr nl actual macAddress))
                else retM ()) (\<lambda>_.
           bindM (if lk_MTU actual \<noteq> v2_mtu p
                  then wrapM ''failed to ip link set %s mtu %d: %w'' (callM (nl_LinkSetMTU nl actual (v2_mtu p)))
                  else retM ()) (\<lambda>_.
             bindM (wrapM ''failed to set address %s on link %s: %w''
                 (EnsureLinkAddresses nl ordE ordA actual [vxlan2_addr p cidr])) (\<lambda>_.
               bindM (if and (lk_Flags actual) FlagUp = 0
                      then wrapM ''failed to ip link set %s up: %w'' (callM (nl_LinkSetUp nl actual))
                      else retM ()) (\<lambda>_.
                 retM actual))))))"

definition vxlan2_arp :: "int \<Rightarrow> NodeInfo \<Rightarrow> byte list \<Rightarrow> neigh" where
  "vxlan2_arp linkIndex remote remoteMAC =
     zero_neigh\<lparr>ng_LinkIndex := linkIndex, ng_Family := FAMILY_V4, ng_State := NUD_PERMANENT, ng_Type := RTN_UNICAST,
       ng_IP := pod_ip remote, ng_HardwareAddr := Some remoteMAC\<rparr>"

definition vxlan2_fdb :: "int \<Rightarrow> NodeInfo \<Rightarrow> byte list \<Rightarrow> neigh" where
  "vxlan2_fdb linkIndex remote remoteMAC =
     zero_neigh\<lparr>ng_LinkIndex := linkIndex, ng_State := NUD_PERMANENT, ng_Family := AF_BRIDGE, ng_Flags := NTF_SELF,
       ng_IP := ni_Address remote, ng_HardwareAddr := Some remoteMAC\<rparr>"

definition vxlan2_route :: "'w netlink \<Rightarrow> int \<Rightarrow> NodeInfo \<Rightarrow> route" where
  "vxlan2_route nl linkIndex remote =
     nl_RouteSetFlag nl
       (zero_route\<lparr>rt_LinkIndex := linkIndex, rt_Scope := SCOPE_UNIVERSE, rt_Dst := ni_PodCIDR remote, rt_Gw := pod_ip remote,
          rt_Protocol := RTPROT_BOOT, rt_Table := RT_TABLE_MAIN, rt_Type := RTN_UNICAST\<rparr>) RTNH_F_ONLINK"

fun vxlan2_entries ::
  "'w netlink \<Rightarrow> int \<Rightarrow> NodeInfo list \<Rightarrow> neigh list \<Rightarrow> route list \<Rightarrow> ('w, neigh list \<times> route list) io"
where
  "vxlan2_entries nl linkIndex [] neighs routes = retM (neighs, routes)"
| "vxlan2_entries nl linkIndex (remote # rs) neighs routes =
     bindM (mapToMAC2 (pod_ip remote)) (\<lambda>remoteMAC.
       vxlan2_entries nl linkIndex rs
         (neighs @ [vxlan2_arp linkIndex remote remoteMAC, vxlan2_fdb linkIndex remote remoteMAC])
         (routes @ [vxlan2_route nl linkIndex remote]))"

definition Vxlan2_EnsureCIDRs ::
  "'w netlink \<Rightarrow> (string \<times> nat) order \<Rightarrow> (string \<times> addr) order \<Rightarrow> (string \<times> addr) order \<Rightarrow>
   (string \<times> neigh) order \<Rightarrow> (string \<times> route) order \<Rightarrow> NodeMap \<Rightarrow> (Vxlan2RoutingProvider \<times> 'w, unit) io"
where
  "Vxlan2_EnsureCIDRs nl ordS ordE ordA ordN ordR nodeMap =
     bindM getP (\<lambda>p.
       if up_to_date (v2_lastVersionApplied p) nodeMap then retM ()
       else case Snapshot ordS nodeMap of
         (None, allNodes, version) \<Rightarrow> throwM no_local_node
       | (Some me, allNodes, version) \<Rightarrow>
           (case ni_PodCIDR me of
              None \<Rightarrow> throwM (Errorf ''No CIDR assigned to local node; cannot configure tunnels'' None)
            | Some cidr \<Rightarrow>
                if ni_Address me = None
                then throwM (Errorf ''No Address assigned to local node; cannot configure tunnels'' None)
                else
                  bindM (if v2_link p = None
                         then bindM (liftW (Vxlan2_EnsureLink nl ordE ordA p (ni_Address me) cidr)) (\<lambda>l.
                           if \<not> is_vxlan l then panicM ''interface conversion: netlink.Link is not *netlink.Vxlan''
                           else putP (p\<lparr>v2_link := Some l\<rparr>))
                         else retM ()) (\<lambda>_.
                    bindM getP (\<lambda>p.
                      case v2_link p of
                        None \<Rightarrow> panicM nil_pointer
                      | Some l \<Rightarrow>
                          bindM (liftW (
                              bindM (vxlan2_entries nl (lk_Index l) (remotes me allNodes) [] []) (\<lambda>(neighs, routes).
                                bindM (wrapM ''error applying neigh table: %v'' (NeighTable_Ensure nl ordN l neighs)) (\<lambda>_.
                                  wrapM ''error applying route table: %v'' (RouteTable_Ensure nl ordR (Some l) routes True)))))
                            (\<lambda>_. bindM getP (\<lambda>p. putP (p\<lparr>v2_lastVersionApplied := version\<rparr>)))))))"

section \<open>The provider contract\<close>

definition vxlan2_setUp ::
  "'w netlink \<Rightarrow> (string \<times> addr) order \<Rightarrow> (string \<times> addr) order \<Rightarrow> ip \<Rightarrow> ipnet \<Rightarrow> (Vxlan2RoutingProvider \<times> 'w, unit) io"
where
  "vxlan2_setUp nl ordE ordA a cidr =
     bindM getP (\<lambda>p. if v2_link p = None
       then bindM (liftW (Vxlan2_EnsureLink nl ordE ordA p a cidr)) (\<lambda>l.
         if \<not> is_vxlan l then panicM ''interface conversion: netlink.Link is not *netlink.Vxlan''
         else putP (p\<lparr>v2_link := Some l\<rparr>))
       else retM ())"

definition vxlan2_apply ::
  "'w netlink \<Rightarrow> (string \<times> neigh) order \<Rightarrow> (string \<times> route) order \<Rightarrow> NodeInfo \<Rightarrow> NodeInfo list \<Rightarrow> link \<Rightarrow> ('w, unit) io"
where
  "vxlan2_apply nl ordN ordR me allNodes l =
     bindM (vxlan2_entries nl (lk_Index l) (remotes me allNodes) [] []) (\<lambda>(neighs, routes).
       bindM (wrapM ''error applying neigh table: %v'' (NeighTable_Ensure nl ordN l neighs)) (\<lambda>_.
         wrapM ''error applying route table: %v'' (RouteTable_Ensure nl ordR (Some l) routes True)))"

definition vxlan2_action ::
  "'w netlink \<Rightarrow> (string \<times> addr) order \<Rightarrow> (string \<times> addr) order \<Rightarrow> (string \<times> neigh) order \<Rightarrow> (string \<times> route) order \<Rightarrow>
   NodeInfo \<Rightarrow> NodeInfo list \<Rightarrow> (Vxlan2RoutingProvider \<times> 'w, unit) io"
where
  "vxlan2_action nl ordE ordA ordN ordR me allNodes =
     (case ni_PodCIDR me of
        None \<Rightarrow> throwM (Errorf ''No CIDR assigned to local node; cannot configure tunnels'' None)
      | Some cidr \<Rightarrow>
          if ni_Address me = None
          then throwM (Errorf ''No Address assigned to local node; cannot configure tunnels'' None)
          else bindM (vxlan2_setUp nl ordE ordA (ni_Address me) cidr) (\<lambda>_.
            bindM getP (\<lambda>p. case v2_link p of None \<Rightarrow> panicM nil_pointer
              | Some l \<Rightarrow> liftW (vxlan2_apply nl ordN ordR me allNodes l))))"

lemma Vxlan2_steps:
  "Vxlan2_EnsureCIDRs nl ordS ordE ordA ordN ordR =
   ensure_steps v2_lastVersionApplied (\<lambda>v. v2_lastVersionApplied_update (\<lambda>_. v))
     (vxlan2_action nl ordE ordA ordN ordR) ordS"
proof (intro ext)
  fix nm and s :: "Vxlan2RoutingProvider \<times> 'a"
  obtain p w where s: "s = (p, w)" by (cases s)
  show "Vxlan2_EnsureCIDRs nl ordS ordE ordA ordN ordR nm s = ensure_steps v2_lastVersionApplied
     (\<lambda>v. v2_lastVersionApplied_update (\<lambda>_. v)) (vxlan2_action nl ordE ordA ordN ordR) ordS nm s"
    unfolding s Vxlan2_EnsureCIDRs_def ensure_steps_def vxlan2_action_def vxlan2_setUp_def vxlan2_apply_def bindM_getP
    by (auto simp: bindM_assoc bindM_panicM bindM_case_option cong: option.case_cong split: prod.split option.split)
qed

lemma keeps_vxlan2_setUp: "keeps (\<lambda>s. v2_lastVersionApplied (fst s)) (vxlan2_setUp nl ordE ordA a c)"
proof -
  have "v2_lastVersionApplied (fst (snd (vxlan2_setUp nl ordE ordA a c (p, w)))) = v2_lastVersionApplied p" for p w
    by (auto simp: vxlan2_setUp_def bindM_def liftW_def getP_def putP_def panicM_def split: prod.splits outcome.splits)
  then show ?thesis by (auto simp: keeps_def)
qed

interpretation vxlan2: routing_provider "Vxlan2_EnsureCIDRs nl ordS ordE ordA ordN ordR" v2_lastVersionApplied
  for nl :: "'w netlink" and ordS ordE ordA ordN ordR
  unfolding Vxlan2_steps
  by (rule routing_provider_steps)
    (auto simp: vxlan2_action_def intro!: keeps_intros keeps_vxlan2_setUp split: option.split)

section \<open>The MTU of the link\<close>

lemma mapToMAC2_eq: "mapToMAC2 = mapToMAC"
  by (simp add: fun_eq_iff mapToMAC2_def mapToMAC_def)

lemma vxlan2_minMTU_run:
  assumes "\<forall>d \<in> set ds. nl_LinkByName nl d w = (Inr (Some (L d)), w) \<and> 0 < lk_MTU (L d)" and "0 < m"
  shows "vxlan2_minMTU nl ds m w = (Ret (Min (insert m ((\<lambda>d. lk_MTU (L d)) ` set ds))), w)"
  using assms
proof (induction ds arbitrary: m)
  case (Cons d ds)
  let ?f = "\<lambda>d. lk_MTU (L d)"
  have d: "nl_LinkByName nl d w = (Inr (Some (L d)), w)" and pos: "0 < min m (?f d)" using Cons.prems by simp_all
  have "(if m = 0 \<or> ?f d < m then ?f d else m) = min m (?f d)" using Cons.prems(2) by auto
  moreover have "Min (insert (min m (?f d)) (?f ` set ds)) = Min (insert m (?f ` set (d # ds)))"
    by (cases "ds = []") (simp_all add: min.assoc)
  ultimately show ?case using Cons.IH [OF _ pos] Cons.prems(1)
    by (simp add: bind_call_Inr [of "nl_LinkByName nl d", OF d])
qed simp

text \<open>
  C29: The MTU of the VXLAN link is 100 below the smallest MTU of the devices: the loop, which
  uses 0 for not yet known, computes the minimum whenever all devices exist and have a positive
  MTU.  The provider is created with no link and version 0.
\<close>

theorem NewVxlan2_mtu_minimum:
  assumes "\<forall>d \<in> set ds. nl_LinkByName nl d w = (Inr (Some (L d)), w) \<and> 0 < lk_MTU (L d)" and "ds \<noteq> []"
  shows "\<exists>p. NewVxlan2RoutingProvider nl overlay ds w = (Ret p, w) \<and>
    v2_mtu p = Min ((\<lambda>d. lk_MTU (L d)) ` set ds) - 100 \<and> v2_overlayCIDR p = overlay \<and>
    v2_link p = None \<and> v2_lastVersionApplied p = 0"
proof -
  obtain d ds' where ds: "ds = d # ds'" using assms(2) by (cases ds) auto
  have d: "nl_LinkByName nl d w = (Inr (Some (L d)), w)" and pos: "0 < lk_MTU (L d)" using assms(1) ds by simp_all
  have "vxlan2_minMTU nl ds 0 w = (Ret (Min ((\<lambda>d. lk_MTU (L d)) ` set ds)), w)"
    using vxlan2_minMTU_run [of ds' nl w L, OF _ pos] assms(1)
    by (simp add: ds bind_call_Inr [of "nl_LinkByName nl d", OF d])
  then show ?thesis by (simp add: NewVxlan2RoutingProvider_def bindM_def)
qed

theorem NewVxlan2_mtu_minimum_witness:
  "\<exists>p. NewVxlan2RoutingProvider ref_netlink None [''eth0'', ''eth1'']
      (empty_world\<lparr>rw_links := [eth_link\<lparr>lk_Name := ''eth0'', lk_MTU := 9001\<rparr>, eth_link\<lparr>lk_Name := ''eth1'', lk_MTU := 1500\<rparr>]\<rparr>) =
      (Ret p, empty_world\<lparr>rw_links := [eth_link\<lparr>lk_Name := ''eth0'', lk_MTU := 9001\<rparr>, eth_link\<lparr>lk_Name := ''eth1'', lk_MTU := 1500\<rparr>]\<rparr>) \<and>
    v2_mtu p = 1400"
  using NewVxlan2_mtu_minimum [of "[''eth0'', ''eth1'']" ref_netlink
      "empty_world\<lparr>rw_links := [eth_link\<lparr>lk_Name := ''eth0'', lk_MTU := 9001\<rparr>, eth_link\<lparr>lk_Name := ''eth1'', lk_MTU := 1500\<rparr>]\<rparr>"
      "\<lambda>d. if d = ''eth0'' then eth_link\<lparr>lk_Name := ''eth0'', lk_MTU := 9001\<rparr> else eth_link\<lparr>lk_Name := ''eth1'', lk_MTU := 1500\<rparr>" None]
  by (simp add: ref_calls ref_LinkByName_def) (elim exE conjE, rule exI, rule conjI, assumption, simp)

section \<open>Configuring the link\<close>

text \<open>
  What the calls do to the link of a name: it is looked up, created, or a field of it is set;
  other links and the addresses stay as they are.
\<close>

definition named :: "string \<Rightarrow> link list \<Rightarrow> link list" where
  "named n ls = filter (\<lambda>l. lk_Name l = n) ls"

definition sets_link :: "('w \<Rightarrow> link list) \<Rightarrow> string \<Rightarrow> (link \<Rightarrow> link) \<Rightarrow> (link \<Rightarrow> ('w, unit) ext) \<Rightarrow> bool" where
  "sets_link links n f call \<longleftrightarrow>
     (\<forall>l w. lk_Name l = n \<and> named n (links w) \<noteq> [] \<longrightarrow>
        (\<exists>w'. call l w = (Inr (), w') \<and> links w' = map (\<lambda>k. if lk_Name k = n then f k else k) (links w)))"

definition link_config :: "'w netlink \<Rightarrow> ('w \<Rightarrow> link list) \<Rightarrow> ('w \<Rightarrow> addr list) \<Rightarrow> string \<Rightarrow> (link \<Rightarrow> bool) \<Rightarrow> (addr \<Rightarrow> bool) \<Rightarrow> bool" where
  "link_config nl links addrs n acceptL acceptA \<longleftrightarrow>
     (\<forall>w. case named n (links w) of
        [] \<Rightarrow> (\<exists>msg. nl_LinkByName nl n w = (Inl (LinkNotFoundErr msg), w))
      | l # _ \<Rightarrow> nl_LinkByName nl n w = (Inr (Some l), w)) \<and>
     (\<forall>l w. acceptL l \<and> lk_Name l = n \<and> named n (links w) = [] \<longrightarrow>
        (\<exists>w' l' k. nl_LinkAdd nl l w = (Inr l', w') \<and> links w' = links w @ [k] \<and> lk_Name k = n \<and> lk_Kind k = lk_Kind l)) \<and>
     (\<forall>a. sets_link links n (lk_HardwareAddr_update (\<lambda>_. a)) (\<lambda>l. nl_LinkSetHardwareAddr nl l a)) \<and>
     (\<forall>m. sets_link links n (lk_MTU_update (\<lambda>_. m)) (\<lambda>l. nl_LinkSetMTU nl l m)) \<and>
     sets_link links n (lk_Flags_update (\<lambda>f. or f FlagUp)) (nl_LinkSetUp nl) \<and>
     (\<forall>l. lk_Name l = n \<longrightarrow> addr_kernel nl l addrs acceptA \<and>
        (\<forall>a. keeps_ext links (nl_AddrAdd nl l a)) \<and> (\<forall>a. keeps_ext links (nl_AddrDel nl l a))) \<and>
     (\<forall>l. keeps_ext addrs (nl_LinkAdd nl l)) \<and> (\<forall>l a. keeps_ext addrs (nl_LinkSetHardwareAddr nl l a)) \<and>
     (\<forall>l m. keeps_ext addrs (nl_LinkSetMTU nl l m)) \<and> (\<forall>l. keeps_ext addrs (nl_LinkSetUp nl l))"

text \<open>The state of the links: one with the name, and the others.\<close>

definition one_link :: "('w \<Rightarrow> link list) \<Rightarrow> string \<Rightarrow> link \<Rightarrow> link list \<Rightarrow> 'w \<Rightarrow> bool" where
  "one_link links n k rest w \<longleftrightarrow>
     named n (links w) = [k] \<and> lk_Name k = n \<and> filter (\<lambda>l. lk_Name l \<noteq> n) (links w) = rest"

lemma sets_link_step:
  assumes "sets_link links n f call" and "one_link links n k rest w" and "lk_Name l = n" and "\<And>k. lk_Name (f k) = lk_Name k"
    and "keeps_ext addrs (call l)"
  shows "\<exists>w'. call l w = (Inr (), w') \<and> one_link links n (f k) rest w' \<and> addrs w' = addrs w"
proof -
  obtain w' where w': "call l w = (Inr (), w')" "links w' = map (\<lambda>k. if lk_Name k = n then f k else k) (links w)"
    using assms(1-3) unfolding sets_link_def one_link_def by force
  have "filter (\<lambda>l. lk_Name l = n) (map (\<lambda>k. if lk_Name k = n then f k else k) ls) = map f (filter (\<lambda>l. lk_Name l = n) ls)"
    "filter (\<lambda>l. lk_Name l \<noteq> n) (map (\<lambda>k. if lk_Name k = n then f k else k) ls) = filter (\<lambda>l. lk_Name l \<noteq> n) ls" for ls
    by (induction ls) (simp_all add: assms(4))
  then have "one_link links n (f k) rest w'" using assms(2,4) w'(2) by (simp add: one_link_def named_def)
  moreover have "addrs w' = addrs w" using assms(5) w'(1) by (simp add: keeps_ext_def) (metis snd_conv)
  ultimately show ?thesis using w'(1) by blast
qed

text \<open>A conditional setting leaves the link as required, whether the call was made or not.\<close>

lemma conditional_set:
  assumes "sets_link links n f call" and "one_link links n k rest w" and "lk_Name l = n" and "\<And>k. lk_Name (f k) = lk_Name k"
    and "keeps_ext addrs (call l)" and "c \<or> f k = k"
  shows "\<exists>w'. (\<forall>g :: unit \<Rightarrow> (_, link) io. bindM (if c then wrapM msg (callM (call l)) else retM ()) g w = g () w') \<and>
    one_link links n (f k) rest w' \<and> addrs w' = addrs w"
proof (cases c)
  case True
  then show ?thesis using sets_link_step [OF assms(1-5)] by (auto simp: bindM_def wrapM_def callM_def)
next
  case False
  then show ?thesis using assms(2,6) by (intro exI [of _ w]) simp
qed

lemma flag_up_set: "and f FlagUp \<noteq> 0 \<Longrightarrow> or f FlagUp = f"
proof -
  assume "and f FlagUp \<noteq> 0"
  then have "bit f 0" by (simp add: bit_iff_and_push_bit_not_eq_0 FlagUp_def)
  then show "or f FlagUp = f" by (intro bit_eqI) (auto simp: bit_or_iff FlagUp_def bit_1_iff)
qed

lemma flag_up_or: "and (or f FlagUp) FlagUp \<noteq> 0"
proof -
  have "bit (or f FlagUp) 0" by (simp add: bit_or_iff FlagUp_def)
  then show ?thesis by (simp add: bit_iff_and_push_bit_not_eq_0 FlagUp_def)
qed

lemma link_config_missing:
  "link_config nl links addrs n acceptL acceptA \<Longrightarrow> named n (links w) = [] \<Longrightarrow>
   \<exists>msg. nl_LinkByName nl n w = (Inl (LinkNotFoundErr msg), w)"
  unfolding link_config_def by (elim conjE) (drule spec [of _ w], simp)

lemma link_config_found:
  "link_config nl links addrs n acceptL acceptA \<Longrightarrow> named n (links w) = k # ks \<Longrightarrow>
   nl_LinkByName nl n w = (Inr (Some k), w)"
  unfolding link_config_def by (elim conjE) (drule spec [of _ w], simp)

lemma link_config_add:
  assumes "link_config nl links addrs n acceptL acceptA" "acceptL l" "lk_Name l = n" "named n (links w) = []"
  obtains w' l' k where "nl_LinkAdd nl l w = (Inr l', w')" "links w' = links w @ [k]" "lk_Name k = n" "lk_Kind k = lk_Kind l"
proof -
  have "\<exists>w' l' k. nl_LinkAdd nl l w = (Inr l', w') \<and> links w' = links w @ [k] \<and> lk_Name k = n \<and> lk_Kind k = lk_Kind l"
    using assms unfolding link_config_def by simp
  then show thesis using that by blast
qed

lemma vxlan2_findLink_run:
  assumes ker: "link_config nl links addrs (vxlan2_name p) acceptL acceptA"
    and one: "length (named (vxlan2_name p) (links w)) \<le> 1" and acc: "acceptL (vxlan2_link p me mac)"
  shows "\<exists>k w1. vxlan2_findLink nl p me mac w = (Ret k, w1) \<and>
    one_link links (vxlan2_name p) k (filter (\<lambda>l. lk_Name l \<noteq> vxlan2_name p) (links w)) w1 \<and> addrs w1 = addrs w \<and>
    (list_all is_vxlan (named (vxlan2_name p) (links w)) \<longrightarrow> is_vxlan k)"
proof (cases "named (vxlan2_name p) (links w)")
  case Nil
  let ?n = "vxlan2_name p"
  obtain msg where "nl_LinkByName nl ?n w = (Inl (LinkNotFoundErr msg), w)"
    using link_config_missing [OF ker Nil] by blast
  then have missing: "bindM (tryM (callM (nl_LinkByName nl ?n)) (\<lambda>err. case err of LinkNotFoundErr _ \<Rightarrow> retM None
            | _ \<Rightarrow> throwM (Errorf ''error fetching link %q: %w'' (Some err))) retM) f w = f None w" for f :: "_ \<Rightarrow> (_, link) io"
    by (simp add: bindM_def try_call_Inl [of "nl_LinkByName nl ?n"])
  have "lk_Name (vxlan2_link p me mac) = ?n" by (simp add: vxlan2_link_def)
  then obtain w1 l' k where add: "nl_LinkAdd nl (vxlan2_link p me mac) w = (Inr l', w1)" "links w1 = links w @ [k]" "lk_Name k = ?n"
    "lk_Kind k = lk_Kind (vxlan2_link p me mac)"
    using link_config_add [OF ker acc _ Nil] by blast
  have k: "named ?n (links w1) = [k]" using Nil add(2,3) by (simp add: named_def)
  then have found: "nl_LinkByName nl ?n w1 = (Inr (Some k), w1)"
    by (rule link_config_found [OF ker])
  have "keeps_ext addrs (nl_LinkAdd nl (vxlan2_link p me mac))" using ker by (simp add: link_config_def)
  then have "addrs w1 = addrs w" using add(1) by (metis keeps_ext_def snd_conv)
  moreover have "vxlan2_findLink nl p me mac w = (Ret k, w1)"
    by (simp add: vxlan2_findLink_def missing bind_call_Inr [of "nl_LinkAdd nl (vxlan2_link p me mac)", OF add(1)]
        bind_call_Inr [of "nl_LinkByName nl ?n", OF found])
  ultimately show ?thesis using k add by (auto simp: one_link_def is_vxlan_def vxlan2_link_def)
next
  case (Cons k ks)
  let ?n = "vxlan2_name p"
  have "nl_LinkByName nl ?n w = (Inr (Some k), w)" by (rule link_config_found [OF ker Cons])
  then have "vxlan2_findLink nl p me mac w = (Ret k, w)"
    by (simp add: vxlan2_findLink_def bindM_def try_call_Inr [of "nl_LinkByName nl ?n"])
  moreover have "named ?n (links w) = [k]" "lk_Name k = ?n"
    using one Cons filter_set [of "\<lambda>l. lk_Name l = ?n" "links w"] by (auto simp: named_def)
  ultimately show ?thesis by (auto simp: one_link_def)
qed

lemma keeps_EnsureLinkAddresses:
  assumes "keeps_ext v (nl_AddrList nl l)" and "\<And>a. keeps_ext v (nl_AddrAdd nl l a)" and "\<And>a. keeps_ext v (nl_AddrDel nl l a)"
  shows "keeps v (EnsureLinkAddresses nl ordE ordA l es)"
  using assms by (auto simp: EnsureLinkAddresses_def Let_def intro!: keeps_intros)

lemma EnsureLinkAddresses_keeps:
  assumes "link_config nl links addrs n acceptL acceptA" and "lk_Name l = n"
  shows "keeps links (EnsureLinkAddresses nl ordE ordA l es)"
proof -
  have "keeps_ext links (nl_AddrList nl l)" "\<And>a. keeps_ext links (nl_AddrAdd nl l a)" "\<And>a. keeps_ext links (nl_AddrDel nl l a)"
    using assms by (simp_all add: link_config_def addr_kernel_def keeps_ext_def)
  then show ?thesis by (rule keeps_EnsureLinkAddresses)
qed

lemma Vxlan2_EnsureLink_run:
  assumes ker: "link_config nl links addrs (vxlan2_name p) acceptL acceptA"
    and ord: "range_order ordE" "range_order ordA" and v4: "To4 (ipn_IP cidr) \<noteq> None"
    and one: "length (named (vxlan2_name p) (links w)) \<le> 1" and accL: "acceptL (vxlan2_link p me (mac_of (ipn_IP cidr)))"
    and addr: "managed_addr (vxlan2_addr p cidr)" "acceptA (vxlan2_addr p cidr)"
    and T: "distinct_on addr_expected_key (filter managed_addr (addrs w))"
    and same: "\<forall>x \<in> set (addrs w). addr_clash x (vxlan2_addr p cidr) \<longrightarrow> addrEqual x (vxlan2_addr p cidr)"
  shows "\<exists>l k w'. Vxlan2_EnsureLink nl ordE ordA p me cidr w = (Ret l, w') \<and>
    named (vxlan2_name p) (links w') = [k] \<and> lk_Index k = lk_Index l \<and> lk_Name l = vxlan2_name p \<and>
    lk_HardwareAddr k = mac_of (ipn_IP cidr) \<and> lk_MTU k = v2_mtu p \<and> and (lk_Flags k) FlagUp \<noteq> 0 \<and>
    filter (\<lambda>l. lk_Name l \<noteq> vxlan2_name p) (links w') = filter (\<lambda>l. lk_Name l \<noteq> vxlan2_name p) (links w) \<and>
    installed addrEqual addr_expected_key managed_addr [vxlan2_addr p cidr] (addrs w') \<and>
    (list_all is_vxlan (named (vxlan2_name p) (links w)) \<longrightarrow> is_vxlan l)"
proof -
  let ?n = "vxlan2_name p" and ?mac = "mac_of (ipn_IP cidr)" and ?a = "vxlan2_addr p cidr"
  let ?rest = "filter (\<lambda>l. lk_Name l \<noteq> ?n) (links w)"
  obtain l w1 where 1: "vxlan2_findLink nl p me ?mac w = (Ret l, w1)" "one_link links ?n l ?rest w1" "addrs w1 = addrs w"
    and kind: "list_all is_vxlan (named ?n (links w)) \<longrightarrow> is_vxlan l"
    using vxlan2_findLink_run [OF ker one accL] by blast
  have n: "lk_Name l = ?n" using 1(2) by (simp add: one_link_def)
  have sets: "sets_link links ?n (lk_HardwareAddr_update (\<lambda>_. ?mac)) (\<lambda>l. nl_LinkSetHardwareAddr nl l ?mac)"
    "sets_link links ?n (lk_MTU_update (\<lambda>_. v2_mtu p)) (\<lambda>l. nl_LinkSetMTU nl l (v2_mtu p))"
    "sets_link links ?n (lk_Flags_update (\<lambda>f. or f FlagUp)) (nl_LinkSetUp nl)" "addr_kernel nl l addrs acceptA"
    "keeps_ext addrs (nl_LinkSetHardwareAddr nl l ?mac)" "keeps_ext addrs (nl_LinkSetMTU nl l (v2_mtu p))"
    "keeps_ext addrs (nl_LinkSetUp nl l)"
    using ker n unfolding link_config_def by blast+
  define k where "k = l\<lparr>lk_HardwareAddr := ?mac, lk_MTU := v2_mtu p\<rparr>"
  have nm: "lk_Name (lk_HardwareAddr_update (\<lambda>_. ?mac) k) = lk_Name k" "lk_Name (lk_MTU_update (\<lambda>_. v2_mtu p) k) = lk_Name k"
    "lk_Name (lk_Flags_update (\<lambda>f. or f FlagUp) k) = lk_Name k" for k by simp_all
  have hw: "lk_HardwareAddr l \<noteq> ?mac \<or> lk_HardwareAddr_update (\<lambda>_. ?mac) l = l" by auto
  obtain w2 where 2: "\<forall>g :: unit \<Rightarrow> (_, link) io. bindM (if lk_HardwareAddr l \<noteq> ?mac
      then wrapM ''failed to ip link set %s address %s: %w'' (callM (nl_LinkSetHardwareAddr nl l ?mac)) else retM ()) g w1 = g () w2"
    "one_link links ?n (l\<lparr>lk_HardwareAddr := ?mac\<rparr>) ?rest w2" "addrs w2 = addrs w1"
    using conditional_set [OF sets(1) 1(2) n nm(1) sets(5) hw, where msg = "''failed to ip link set %s address %s: %w''"] by (elim exE conjE) (rule that; assumption)
  have mtu: "lk_MTU l \<noteq> v2_mtu p \<or> lk_MTU_update (\<lambda>_. v2_mtu p) (l\<lparr>lk_HardwareAddr := ?mac\<rparr>) = l\<lparr>lk_HardwareAddr := ?mac\<rparr>"
    by (cases l) auto
  obtain w3 where 3: "\<forall>g :: unit \<Rightarrow> (_, link) io. bindM (if lk_MTU l \<noteq> v2_mtu p
      then wrapM ''failed to ip link set %s mtu %d: %w'' (callM (nl_LinkSetMTU nl l (v2_mtu p))) else retM ()) g w2 = g () w3"
    "one_link links ?n k ?rest w3" "addrs w3 = addrs w2"
    using conditional_set [OF sets(2) 2(2) n nm(2) sets(6) mtu, where msg = "''failed to ip link set %s mtu %d: %w''", folded k_def] by (elim exE conjE) (rule that; assumption)
  have a3: "addrs w3 = addrs w" using 1(3) 2(3) 3(3) by simp
  obtain w4 where 4: "EnsureLinkAddresses nl ordE ordA l [?a] w3 = (Ret (), w4)"
    "installed addrEqual addr_expected_key managed_addr [?a] (addrs w4)"
    using EnsureLinkAddresses_sets [OF sets(4) ord T [folded a3], of "[?a]"] addr same
    by (auto simp: a3 distinct_on_Cons) (auto simp: vxlan2_addr_def)
  have "links w4 = links w3" using keeps_snd [OF EnsureLinkAddresses_keeps [OF ker n], of ordE ordA "[?a]" w3] 4(1) by simp
  then have k4: "one_link links ?n k ?rest w4" using 3(2) by (simp add: one_link_def)
  have up: "and (lk_Flags l) FlagUp = 0 \<or> lk_Flags_update (\<lambda>f. or f FlagUp) k = k"
    using flag_up_set [of "lk_Flags l"] by (cases l) (auto simp: k_def)
  obtain w5 where 5: "\<forall>g :: unit \<Rightarrow> (_, link) io. bindM (if and (lk_Flags l) FlagUp = 0 then wrapM ''failed to ip link set %s up: %w''
      (callM (nl_LinkSetUp nl l)) else retM ()) g w4 = g () w5"
    "one_link links ?n (lk_Flags_update (\<lambda>f. or f FlagUp) k) ?rest w5" "addrs w5 = addrs w4"
    using conditional_set [OF sets(3) k4 n nm(3) sets(7) up, where msg = "''failed to ip link set %s up: %w''"] by (elim exE conjE) (rule that; assumption)
  have "Vxlan2_EnsureLink nl ordE ordA p me cidr w = (Ret l, w5)"
    unfolding Vxlan2_EnsureLink_def mapToMAC2_eq bindM_Ret [of "mapToMAC (ipn_IP cidr)", OF mapToMAC_run [OF v4]]
      bindM_Ret [of "vxlan2_findLink nl p me ?mac", OF 1(1)] 2(1) [rule_format] 3(1) [rule_format]
      bindM_Ret [of "wrapM _ (EnsureLinkAddresses nl ordE ordA l [?a])", OF wrapM_Ret [of "EnsureLinkAddresses nl ordE ordA l [?a]", OF 4(1)]]
      5(1) [rule_format] by simp
  then show ?thesis using 5(2,3) 4(2) n kind flag_up_or [of "lk_Flags k"]
    by (intro exI [of _ l] exI [of _ "lk_Flags_update (\<lambda>f. or f FlagUp) k"] exI [of _ w5]) (auto simp: one_link_def k_def)
qed

text \<open>
  EnsureLink of the second VXLAN provider leaves exactly one link of its name, created or
  reused, with the hardware address of the pod network, the MTU of the provider, the state up and
  the pod network's first address as its only address besides link-local ones; all other links
  are as before, and the link that is returned has its index.  An address of the link that has
  the same network already has the same label, flags and scope.
\<close>

lemma Vxlan2_EnsureLink_configures:
  assumes ker: "link_config nl links addrs (vxlan2_name p) acceptL acceptA"
    and ord: "range_order ordE" "range_order ordA" and v4: "To4 (ipn_IP cidr) \<noteq> None"
    and one: "length (named (vxlan2_name p) (links w)) \<le> 1" and accL: "acceptL (vxlan2_link p me (mac_of (ipn_IP cidr)))"
    and addr: "managed_addr (vxlan2_addr p cidr)" "acceptA (vxlan2_addr p cidr)"
    and T: "distinct_on addr_expected_key (filter managed_addr (addrs w))"
    and same: "\<forall>x \<in> set (addrs w). addr_clash x (vxlan2_addr p cidr) \<longrightarrow> addrEqual x (vxlan2_addr p cidr)"
  shows "\<exists>l k w'. Vxlan2_EnsureLink nl ordE ordA p me cidr w = (Ret l, w') \<and>
    named (vxlan2_name p) (links w') = [k] \<and> lk_Index k = lk_Index l \<and> lk_Name l = vxlan2_name p \<and>
    mapToMAC2 (ipn_IP cidr) w' = (Ret (lk_HardwareAddr k), w') \<and> lk_MTU k = v2_mtu p \<and> and (lk_Flags k) FlagUp \<noteq> 0 \<and>
    filter (\<lambda>l. lk_Name l \<noteq> vxlan2_name p) (links w') = filter (\<lambda>l. lk_Name l \<noteq> vxlan2_name p) (links w) \<and>
    installed addrEqual addr_expected_key managed_addr [vxlan2_addr p cidr] (addrs w')"
  using Vxlan2_EnsureLink_run [OF assms] by (auto simp: mapToMAC2_eq mapToMAC_run [OF v4])

lemma find_named: "find (\<lambda>l. lk_Name l = n) ls = (case named n ls of [] \<Rightarrow> None | l # _ \<Rightarrow> Some l)"
  by (induction ls) (auto simp: named_def)

lemma named_Nil: "named n ls = [] \<longleftrightarrow> \<not> list_ex (\<lambda>l. lk_Name l = n) ls"
  by (induction ls) (auto simp: named_def)

lemma ref_link_config: "link_config ref_netlink rw_links rw_addrs n (\<lambda>_. True) (\<lambda>_. True)"
  unfolding link_config_def
proof (intro conjI allI impI)
  show "case named n (rw_links w) of
        [] \<Rightarrow> (\<exists>msg. nl_LinkByName ref_netlink n w = (Inl (LinkNotFoundErr msg), w))
      | l # _ \<Rightarrow> nl_LinkByName ref_netlink n w = (Inr (Some l), w)" for w
    by (simp add: ref_calls ref_LinkByName_def find_named split: list.split)
  show "\<exists>w' l' k. nl_LinkAdd ref_netlink l w = (Inr l', w') \<and> rw_links w' = rw_links w @ [k] \<and> lk_Name k = n \<and> lk_Kind k = lk_Kind l"
    if "True \<and> lk_Name l = n \<and> named n (rw_links w) = []" for l w
    using that by (auto simp: ref_calls ref_LinkAdd_def named_Nil Let_def)
  show "addr_kernel ref_netlink l rw_addrs (\<lambda>_. True)" for l by (rule ref_addr_kernel)
qed (auto simp: ref_calls sets_link_def ref_update_def keeps_ext_def ref_add_def ref_del_def ref_LinkAdd_def Let_def)

definition v2_sample :: Vxlan2RoutingProvider where
  "v2_sample = \<lparr>v2_overlayCIDR = None, v2_vxlanID = 1, v2_vtepIndex = 0, v2_vxlanPort = 4789, v2_mtu = 1400,
     v2_link = None, v2_lastVersionApplied = 0\<rparr>"

lemma v2_sample_one: "length (named (vxlan2_name v2_sample) (rw_links (empty_world\<lparr>rw_links := [eth_link]\<rparr>))) \<le> 1"
  by (simp add: named_def)

lemma v2_sample_managed: "managed_addr (vxlan2_addr v2_sample (pod_net b))"
  by (simp add: managed_addr_def vxlan2_addr_def pod_net_def IsLinkLocalUnicast_def To4_def)

lemma Vxlan2_EnsureLink_configures_example:
  "\<exists>l k w'. Vxlan2_EnsureLink ref_netlink rev rev v2_sample (Some [192, 168, 0, 1]) (pod_net 1)
      (empty_world\<lparr>rw_links := [eth_link]\<rparr>) = (Ret l, w') \<and>
    named (vxlan2_name v2_sample) (rw_links w') = [k] \<and> lk_MTU k = 1400 \<and> and (lk_Flags k) FlagUp \<noteq> 0"
proof -
  have v4: "To4 (ipn_IP (pod_net 1)) \<noteq> None" by (simp add: pod_net_def To4_def)
  from Vxlan2_EnsureLink_configures [OF ref_link_config range_order_rev range_order_rev v4 v2_sample_one TrueI v2_sample_managed TrueI,
      of "Some [192, 168, 0, 1]"]
  show ?thesis by (simp add: empty_world_def v2_sample_def) blast
qed

section \<open>What EnsureCIDRs installs\<close>

lemma vxlan2_entries_run:
  assumes "\<forall>r \<in> set rs. To4 (pod_ip r) \<noteq> None"
  shows "vxlan2_entries nl i rs ns rts w =
    (Ret (ns @ concat (map (\<lambda>r. [vxlan2_arp i r (mac_of (pod_ip r)), vxlan2_fdb i r (mac_of (pod_ip r))]) rs),
          rts @ map (vxlan2_route nl i) rs), w)"
  using assms by (induction rs arbitrary: ns rts) (simp_all add: bindM_def mapToMAC2_eq mapToMAC_run)

definition vxlan2_expected :: "int \<Rightarrow> NodeInfo list \<Rightarrow> neigh list" where
  "vxlan2_expected i rs = concat (map (\<lambda>r. [vxlan2_arp i r (mac_of (pod_ip r)), vxlan2_fdb i r (mac_of (pod_ip r))]) rs)"

lemma vxlan2_expected_keys:
  assumes "\<forall>r \<in> set rs. pod_ip r \<noteq> None \<and> ni_Address r \<noteq> None"
    and "distinct (concat (map (\<lambda>r. [IP_String (pod_ip r), IP_String (ni_Address r)]) rs))"
  shows "distinct_on neigh_key (vxlan2_expected i rs)"
proof -
  have "map neigh_key (vxlan2_expected i rs) = map Some (concat (map (\<lambda>r. [IP_String (pod_ip r), IP_String (ni_Address r)]) rs))"
    using assms(1) by (induction rs) (auto simp: vxlan2_expected_def neigh_key_def vxlan2_arp_def vxlan2_fdb_def)
  then show ?thesis using assms(2) by (simp add: distinct_on_def distinct_map)
qed

lemma vxlan2_expected_no_clash:
  assumes v4: "\<forall>r \<in> set rs. To4 (pod_ip r) \<noteq> None" and dist: "distinct (map (\<lambda>r. mac_of (pod_ip r)) rs)"
  shows "no_neigh_clash (vxlan2_expected i rs)"
  unfolding no_neigh_clash_def
proof (intro ballI impI notI)
  fix a b assume a: "a \<in> set (vxlan2_expected i rs)" and b: "b \<in> set (vxlan2_expected i rs)" and ne: "a \<noteq> b" and clash: "neigh_clash a b"
  obtain r where r: "r \<in> set rs" "a = vxlan2_arp i r (mac_of (pod_ip r)) \<or> a = vxlan2_fdb i r (mac_of (pod_ip r))"
    using a by (auto simp: vxlan2_expected_def)
  obtain s where s: "s \<in> set rs" "b = vxlan2_arp i s (mac_of (pod_ip s)) \<or> b = vxlan2_fdb i s (mac_of (pod_ip s))"
    using b by (auto simp: vxlan2_expected_def)
  have "mac_of (pod_ip r) = mac_of (pod_ip s)"
    using clash r s v4 mac_of_eq [of "pod_ip r" "pod_ip s"]
    by (auto simp: neigh_clash_def vxlan2_arp_def vxlan2_fdb_def zero_neigh_def AF_BRIDGE_def FAMILY_V4_def)
  then have "r = s" using dist r(1) s(1) by (auto simp: distinct_map dest: inj_onD)
  then show False using clash ne r(2) s(2)
    by (auto simp: neigh_clash_def vxlan2_arp_def vxlan2_fdb_def zero_neigh_def AF_BRIDGE_def FAMILY_V4_def)
qed

lemma vxlan2_apply_installs:
  assumes ker: "overlay_kernel nl neighs routes shown acceptN acceptR" and ord: "range_order ordN" "range_order ordR"
    and flag: "\<forall>r f. \<exists>g. nl_RouteSetFlag nl r f = r\<lparr>rt_Flags := g\<rparr>"
    and v4: "\<forall>r \<in> set (remotes me nodes). To4 (pod_ip r) \<noteq> None"
    and macs: "distinct (map (\<lambda>r. mac_of (pod_ip r)) (remotes me nodes))"
    and ips: "distinct (concat (map (\<lambda>r. [IP_String (pod_ip r), IP_String (ni_Address r)]) (remotes me nodes)))"
    and nets: "distinct_on (\<lambda>r. ipnet_key (ni_PodCIDR r)) (remotes me nodes)"
    and acc: "\<forall>n \<in> set (vxlan2_expected (lk_Index l) (remotes me nodes)). acceptN n"
      "\<forall>r \<in> set (remotes me nodes). acceptR (vxlan2_route nl (lk_Index l) r)"
    and T: "distinct_on route_key (filter (on_link (Some l)) (routes w))"
    and other: "\<forall>x \<in> set (routes w). \<not> on_link (Some l) x \<longrightarrow>
      (\<forall>r \<in> set (remotes me nodes). route_key x \<noteq> ipnet_key (ni_PodCIDR r))"
  shows "\<exists>w'. vxlan2_apply nl ordN ordR me nodes l w = (Ret (), w') \<and>
    (\<forall>n \<in> set (vxlan2_expected (lk_Index l) (remotes me nodes)). \<exists>x \<in> set (neighs w'). neighEqual x n) \<and>
    installed routeEqual route_key (on_link (Some l)) (map (vxlan2_route nl (lk_Index l)) (remotes me nodes)) (routes w')"
proof -
  let ?rs = "remotes me nodes" and ?i = "lk_Index l"
  have route: "route_key (vxlan2_route nl ?i r) = ipnet_key (ni_PodCIDR r) \<and>
      rt_Dst (vxlan2_route nl ?i r) = ni_PodCIDR r \<and> on_link (Some l) (vxlan2_route nl ?i r)" for r
  proof -
    obtain g where "vxlan2_route nl ?i r = (zero_route\<lparr>rt_LinkIndex := ?i, rt_Scope := SCOPE_UNIVERSE, rt_Dst := ni_PodCIDR r,
        rt_Gw := pod_ip r, rt_Protocol := RTPROT_BOOT, rt_Table := RT_TABLE_MAIN, rt_Type := RTN_UNICAST\<rparr>)\<lparr>rt_Flags := g\<rparr>"
      using flag unfolding vxlan2_route_def by blast
    then show ?thesis by (simp add: route_key_ipnet on_link_def)
  qed
  have pod: "\<forall>r \<in> set ?rs. pod_ip r \<noteq> None \<and> ni_Address r \<noteq> None"
  proof
    fix r assume "r \<in> set ?rs"
    moreover from this have "To4 (pod_ip r) \<noteq> None" using v4 by blast
    ultimately show "pod_ip r \<noteq> None \<and> ni_Address r \<noteq> None" by (cases "pod_ip r") (auto simp: in_remotes To4_def)
  qed
  have ns: "\<forall>n \<in> set (vxlan2_expected ?i ?rs). ng_IP n \<noteq> None \<and> acceptN n"
    using acc(1) pod by (auto simp: vxlan2_expected_def vxlan2_arp_def vxlan2_fdb_def)
  have rts: "\<forall>e \<in> set (map (vxlan2_route nl ?i) ?rs). rt_Dst e \<noteq> None \<and> acceptR e \<and> on_link (Some l) e"
    using acc(2) route by (auto simp: in_remotes)
  have keys: "distinct_on route_key (map (vxlan2_route nl ?i) ?rs)" using nets route by (simp add: distinct_on_def o_def)
  have clash: "\<forall>x \<in> set (routes w). \<not> on_link (Some l) x \<longrightarrow> (\<forall>e \<in> set (map (vxlan2_route nl ?i) ?rs). \<not> route_clash x e)"
    using other route route_clash_key by fastforce
  show ?thesis
    using overlay_tables [OF ker ord vxlan2_expected_keys [OF pod ips] ns vxlan2_expected_no_clash [OF v4 macs] T rts keys clash,
        where msgN = "''error applying neigh table: %v''" and msgR = "''error applying route table: %v''"]
      vxlan2_entries_run [OF v4, of nl ?i "[]" "[]" w]
    by (simp add: vxlan2_apply_def bindM_Ret [of "vxlan2_entries nl ?i ?rs [] []"] vxlan2_expected_def)
qed

text \<open>
  EnsureCIDRs of the second VXLAN provider, once the link is set up, makes every remote pod
  network reachable: it returns without an error and records the version; afterwards there is for
  every remote node a route of the link to its pod network through a gateway, a neighbour entry
  that resolves this gateway to a hardware address, and a forwarding entry that sends this
  hardware address to the node's address.  The pod networks are IPv4 and distinct, their first
  addresses and the nodes' addresses are distinct, and no other link has a route to one of them.
\<close>

lemma Vxlan2_EnsureCIDRs_reachable:
  assumes ker: "overlay_kernel nl neighs routes shown acceptN acceptR" and ord: "range_order ordN" "range_order ordR"
    and flag: "\<forall>r f. \<exists>g. nl_RouteSetFlag nl r f = r\<lparr>rt_Flags := g\<rparr>"
    and snap: "Snapshot ordS nm = (Some me, nodes, v)" and stale: "\<not> up_to_date (v2_lastVersionApplied p) nm"
    and me: "ni_PodCIDR me \<noteq> None" "ni_Address me \<noteq> None" and p: "v2_link p = Some l"
    and v4: "\<forall>r \<in> set (remotes me nodes). To4 (pod_ip r) \<noteq> None"
    and macs: "distinct (map (\<lambda>r. mac_of (pod_ip r)) (remotes me nodes))"
    and ips: "distinct (concat (map (\<lambda>r. [IP_String (pod_ip r), IP_String (ni_Address r)]) (remotes me nodes)))"
    and nets: "distinct_on (\<lambda>r. ipnet_key (ni_PodCIDR r)) (remotes me nodes)"
    and acc: "\<forall>n \<in> set (vxlan2_expected (lk_Index l) (remotes me nodes)). acceptN n"
      "\<forall>r \<in> set (remotes me nodes). acceptR (vxlan2_route nl (lk_Index l) r)"
    and T: "distinct_on route_key (filter (on_link (Some l)) (routes w))"
    and other: "\<forall>x \<in> set (routes w). \<not> on_link (Some l) x \<longrightarrow>
      (\<forall>r \<in> set (remotes me nodes). route_key x \<noteq> ipnet_key (ni_PodCIDR r))"
  shows "\<exists>w'. Vxlan2_EnsureCIDRs nl ordS ordE ordA ordN ordR nm (p, w) = (Ret (), (p\<lparr>v2_lastVersionApplied := v\<rparr>, w')) \<and>
    (\<forall>r \<in> set (remotes me nodes). \<exists>x \<in> set (routes w'). \<exists>a \<in> set (neighs w'). \<exists>f \<in> set (neighs w').
       rt_LinkIndex x = lk_Index l \<and> ipnetEqual (rt_Dst x) (ni_PodCIDR r) \<and>
       ng_LinkIndex a = lk_Index l \<and> ng_Family a = FAMILY_V4 \<and> IP_Equal (rt_Gw x) (ng_IP a) \<and>
       ng_LinkIndex f = lk_Index l \<and> ng_Family f = AF_BRIDGE \<and>
       hw_bytes (ng_HardwareAddr a) = mac_of (pod_ip r) \<and> hw_bytes (ng_HardwareAddr f) = mac_of (pod_ip r) \<and>
       IP_Equal (ng_IP f) (ni_Address r))"
proof -
  let ?rs = "remotes me nodes" and ?i = "lk_Index l"
  obtain w' where run: "vxlan2_apply nl ordN ordR me nodes l w = (Ret (), w')"
    and n: "\<forall>n \<in> set (vxlan2_expected ?i ?rs). \<exists>x \<in> set (neighs w'). neighEqual x n"
    and inst: "installed routeEqual route_key (on_link (Some l)) (map (vxlan2_route nl ?i) ?rs) (routes w')"
    using vxlan2_apply_installs [OF ker ord flag v4 macs ips nets acc T other] by blast
  obtain cidr where "ni_PodCIDR me = Some cidr" using me(1) by blast
  then have "Vxlan2_EnsureCIDRs nl ordS ordE ordA ordN ordR nm (p, w) = (Ret (), (p\<lparr>v2_lastVersionApplied := v\<rparr>, w'))"
    unfolding Vxlan2_steps ensure_steps_run [of v2_lastVersionApplied, OF stale snap]
    using me(2) p run by (simp add: vxlan2_action_def vxlan2_setUp_def bindM_def getP_def)
  moreover have "\<exists>x \<in> set (routes w'). \<exists>a \<in> set (neighs w'). \<exists>f \<in> set (neighs w').
       rt_LinkIndex x = ?i \<and> ipnetEqual (rt_Dst x) (ni_PodCIDR r) \<and>
       ng_LinkIndex a = ?i \<and> ng_Family a = FAMILY_V4 \<and> IP_Equal (rt_Gw x) (ng_IP a) \<and>
       ng_LinkIndex f = ?i \<and> ng_Family f = AF_BRIDGE \<and>
       hw_bytes (ng_HardwareAddr a) = mac_of (pod_ip r) \<and> hw_bytes (ng_HardwareAddr f) = mac_of (pod_ip r) \<and>
       IP_Equal (ng_IP f) (ni_Address r)"
    if r: "r \<in> set ?rs" for r
  proof -
    obtain a f where a: "a \<in> set (neighs w')" "neighEqual a (vxlan2_arp ?i r (mac_of (pod_ip r)))"
      and f: "f \<in> set (neighs w')" "neighEqual f (vxlan2_fdb ?i r (mac_of (pod_ip r)))"
      using n r by (fastforce simp: vxlan2_expected_def)
    obtain x where x: "x \<in> set (routes w')" "routeEqual x (vxlan2_route nl ?i r)"
      using inst r unfolding installed_def by auto
    obtain g where "vxlan2_route nl ?i r = (zero_route\<lparr>rt_LinkIndex := ?i, rt_Scope := SCOPE_UNIVERSE, rt_Dst := ni_PodCIDR r,
        rt_Gw := pod_ip r, rt_Protocol := RTPROT_BOOT, rt_Table := RT_TABLE_MAIN, rt_Type := RTN_UNICAST\<rparr>)\<lparr>rt_Flags := g\<rparr>"
      using flag unfolding vxlan2_route_def by blast
    then have x2: "rt_LinkIndex x = ?i" "ipnetEqual (rt_Dst x) (ni_PodCIDR r)" "ipEqual (rt_Gw x) (pod_ip r)"
      using x(2) by (simp_all add: routeEqual_iff)
    have "IP_Equal (ng_IP a) (pod_ip r)" using a(2) by (simp add: neighEqual_iff vxlan2_arp_def)
    then have "IP_Equal (rt_Gw x) (ng_IP a)" by (rule IP_Equal_trans [OF ipEqual_IP_Equal [OF x2(3)] IP_Equal_sym])
    then show ?thesis using a f x(1) x2(1,2)
      by (intro bexI [of _ x] bexI [of _ a] bexI [of _ f]) (auto simp: neighEqual_iff vxlan2_arp_def vxlan2_fdb_def)
  qed
  ultimately show ?thesis by blast
qed

lemma ref_RouteSetFlag: "\<forall>r f. \<exists>g. nl_RouteSetFlag ref_netlink r f = r\<lparr>rt_Flags := g\<rparr>"
  by (auto simp: ref_calls)

lemma ni_sample_remote: "ni_PodCIDR (ni_sample ''b'' 2) = Some (pod_net 2)" "ni_Address (ni_sample ''b'' 2) = Some [192, 168, 0, 2]"
  by (simp_all add: ni_sample_def)

lemma ni_sample_ips: "distinct (concat (map (\<lambda>r. [IP_String (pod_ip r), IP_String (ni_Address r)]) [ni_sample ''b'' 2]))"
proof -
  have "IP_String (Some [10, 0, 2, 0]) \<noteq> IP_String (Some [192, 168, 0, 2])" by (simp add: IP_String_def net_eval)
  then show ?thesis by (simp add: pod_ip_sample ni_sample_remote)
qed

lemma v2_sample_sender:
  "\<not> up_to_date (v2_lastVersionApplied (v2_sample\<lparr>v2_link := Some sample_link\<rparr>)) nm_sample" "ni_PodCIDR (ni_sample ''a'' 1) \<noteq> None"
  "ni_Address (ni_sample ''a'' 1) \<noteq> None" "v2_link (v2_sample\<lparr>v2_link := Some sample_link\<rparr>) = Some sample_link"
  by (simp_all add: up_to_date_def v2_sample_def ni_sample_def)

lemma Vxlan2_EnsureCIDRs_reachable_example:
  "\<exists>w'. Vxlan2_EnsureCIDRs ref_netlink rev rev rev rev rev nm_sample (v2_sample\<lparr>v2_link := Some sample_link\<rparr>, empty_world) =
      (Ret (), (v2_sample\<lparr>v2_link := Some sample_link, v2_lastVersionApplied := 2\<rparr>, w')) \<and>
    (\<exists>x \<in> set (rw_routes w'). ipnetEqual (rt_Dst x) (Some (pod_net 2))) \<and>
    (\<exists>f \<in> set (rw_neighs w'). ng_Family f = AF_BRIDGE \<and> IP_Equal (ng_IP f) (Some [192, 168, 0, 2]))"
  using Vxlan2_EnsureCIDRs_reachable [OF ref_overlay_kernel range_order_rev range_order_rev ref_RouteSetFlag nm_sample_snapshot
      v2_sample_sender, where w = empty_world and ordE = rev and ordA = rev] ni_sample_ips
  by (auto simp: nm_sample_remotes pod_ip_sample distinct_on_Cons empty_world_def ni_sample_remote)

section \<open>Two nodes\<close>

text \<open>
  C7: From one node to another.  When the agent of one node has applied a node map with the second
  VXLAN provider, and the agent of a remote node of that map has set up its link, packets for the
  remote pod network find their way: the sender's route leads through a gateway, the neighbour
  entry resolves the gateway to a hardware address, the forwarding entry sends frames for this
  hardware address to the remote node's address, and there it is the hardware address of the one
  VXLAN link, which is up.  The two kernels are different ones, and so may be the orders of their maps.
  The pod networks are IPv4 and distinct, their first addresses and the nodes' addresses are
  distinct, and no other link of the sender has a route to one of them.
\<close>

theorem Vxlan2_delivers:
  assumes ker: "overlay_kernel nl neighs routes shown acceptN acceptR" and ord: "range_order ordN" "range_order ordR"
    and flag: "\<forall>r f. \<exists>g. nl_RouteSetFlag nl r f = r\<lparr>rt_Flags := g\<rparr>"
    and snap: "Snapshot ordS nm = (Some me, nodes, v)" and stale: "\<not> up_to_date (v2_lastVersionApplied p) nm"
    and me: "ni_PodCIDR me \<noteq> None" "ni_Address me \<noteq> None" and p: "v2_link p = Some l"
    and v4: "\<forall>r \<in> set (remotes me nodes). To4 (pod_ip r) \<noteq> None"
    and macs: "distinct (map (\<lambda>r. mac_of (pod_ip r)) (remotes me nodes))"
    and ips: "distinct (concat (map (\<lambda>r. [IP_String (pod_ip r), IP_String (ni_Address r)]) (remotes me nodes)))"
    and nets: "distinct_on (\<lambda>r. ipnet_key (ni_PodCIDR r)) (remotes me nodes)"
    and acc: "\<forall>n \<in> set (vxlan2_expected (lk_Index l) (remotes me nodes)). acceptN n"
      "\<forall>r \<in> set (remotes me nodes). acceptR (vxlan2_route nl (lk_Index l) r)"
    and T: "distinct_on route_key (filter (on_link (Some l)) (routes w))"
    and other: "\<forall>x \<in> set (routes w). \<not> on_link (Some l) x \<longrightarrow>
      (\<forall>r \<in> set (remotes me nodes). route_key x \<noteq> ipnet_key (ni_PodCIDR r))"
    and r: "r \<in> set (remotes me nodes)" "ni_PodCIDR r = Some cidr"
    and ker2: "link_config nl2 links addrs (vxlan2_name p2) acceptL acceptA"
    and ord2: "range_order ordE2" "range_order ordA2"
    and one: "length (named (vxlan2_name p2) (links w2)) \<le> 1" and accL: "acceptL (vxlan2_link p2 (ni_Address r) (mac_of (ipn_IP cidr)))"
    and addr: "managed_addr (vxlan2_addr p2 cidr)" "acceptA (vxlan2_addr p2 cidr)"
    and T2: "distinct_on addr_expected_key (filter managed_addr (addrs w2))"
    and same: "\<forall>x \<in> set (addrs w2). addr_clash x (vxlan2_addr p2 cidr) \<longrightarrow> addrEqual x (vxlan2_addr p2 cidr)"
  shows "\<exists>w' l2 k w2'.
    Vxlan2_EnsureCIDRs nl ordS ordE ordA ordN ordR nm (p, w) = (Ret (), (p\<lparr>v2_lastVersionApplied := v\<rparr>, w')) \<and>
    Vxlan2_EnsureLink nl2 ordE2 ordA2 p2 (ni_Address r) cidr w2 = (Ret l2, w2') \<and>
    named (vxlan2_name p2) (links w2') = [k] \<and> and (lk_Flags k) FlagUp \<noteq> 0 \<and>
    (\<exists>x \<in> set (routes w'). \<exists>a \<in> set (neighs w'). \<exists>f \<in> set (neighs w').
       rt_LinkIndex x = lk_Index l \<and> ipnetEqual (rt_Dst x) (Some cidr) \<and>
       ng_LinkIndex a = lk_Index l \<and> ng_Family a = FAMILY_V4 \<and> IP_Equal (rt_Gw x) (ng_IP a) \<and>
       ng_LinkIndex f = lk_Index l \<and> ng_Family f = AF_BRIDGE \<and> hw_bytes (ng_HardwareAddr f) = hw_bytes (ng_HardwareAddr a) \<and>
       IP_Equal (ng_IP f) (ni_Address r) \<and> hw_bytes (ng_HardwareAddr f) = lk_HardwareAddr k)"
proof -
  have ip: "pod_ip r = ipn_IP cidr" using r(2) by (simp add: pod_ip_def)
  then have "To4 (ipn_IP cidr) \<noteq> None" using v4 r(1) by auto
  from Vxlan2_EnsureLink_run [OF ker2 ord2 this one accL addr T2 same] obtain l2 k w2' where
    receiver: "Vxlan2_EnsureLink nl2 ordE2 ordA2 p2 (ni_Address r) cidr w2 = (Ret l2, w2')"
    "named (vxlan2_name p2) (links w2') = [k]" "lk_HardwareAddr k = mac_of (ipn_IP cidr)" "and (lk_Flags k) FlagUp \<noteq> 0" by blast
  from Vxlan2_EnsureCIDRs_reachable [OF ker ord flag snap stale me p v4 macs ips nets acc T other, of ordE ordA]
  obtain w' where "Vxlan2_EnsureCIDRs nl ordS ordE ordA ordN ordR nm (p, w) = (Ret (), (p\<lparr>v2_lastVersionApplied := v\<rparr>, w'))"
    and "\<exists>x \<in> set (routes w'). \<exists>a \<in> set (neighs w'). \<exists>f \<in> set (neighs w').
       rt_LinkIndex x = lk_Index l \<and> ipnetEqual (rt_Dst x) (ni_PodCIDR r) \<and>
       ng_LinkIndex a = lk_Index l \<and> ng_Family a = FAMILY_V4 \<and> IP_Equal (rt_Gw x) (ng_IP a) \<and>
       ng_LinkIndex f = lk_Index l \<and> ng_Family f = AF_BRIDGE \<and>
       hw_bytes (ng_HardwareAddr a) = mac_of (pod_ip r) \<and> hw_bytes (ng_HardwareAddr f) = mac_of (pod_ip r) \<and>
       IP_Equal (ng_IP f) (ni_Address r)"
    using r(1) by blast
  then show ?thesis using receiver unfolding ip r(2) by (intro exI [of _ w'] exI [of _ l2] exI [of _ k] exI [of _ w2']) metis
qed

theorem Vxlan2_delivers_witness:
  "\<exists>w' l2 k w2'.
    Vxlan2_EnsureCIDRs ref_netlink rev rev rev rev rev nm_sample (v2_sample\<lparr>v2_link := Some sample_link\<rparr>, empty_world) =
      (Ret (), (v2_sample\<lparr>v2_link := Some sample_link, v2_lastVersionApplied := 2\<rparr>, w')) \<and>
    Vxlan2_EnsureLink ref_netlink rev rev v2_sample (Some [192, 168, 0, 2]) (pod_net 2) (empty_world\<lparr>rw_links := [eth_link]\<rparr>) = (Ret l2, w2') \<and>
    named (vxlan2_name v2_sample) (rw_links w2') = [k] \<and>
    (\<exists>f \<in> set (rw_neighs w'). ng_Family f = AF_BRIDGE \<and> IP_Equal (ng_IP f) (Some [192, 168, 0, 2]) \<and>
       hw_bytes (ng_HardwareAddr f) = lk_HardwareAddr k)"
proof -
  have r: "ni_sample ''b'' 2 \<in> set (remotes (ni_sample ''a'' 1) [ni_sample ''b'' 2, ni_sample ''a'' 1])"
    by (simp add: nm_sample_remotes)
  have world: "distinct_on addr_expected_key (filter managed_addr (rw_addrs (empty_world\<lparr>rw_links := [eth_link]\<rparr>)))"
    "\<forall>x \<in> set (rw_addrs (empty_world\<lparr>rw_links := [eth_link]\<rparr>)).
       addr_clash x (vxlan2_addr v2_sample (pod_net 2)) \<longrightarrow> addrEqual x (vxlan2_addr v2_sample (pod_net 2))"
    by (simp_all add: empty_world_def)
  show ?thesis
    using Vxlan2_delivers [OF ref_overlay_kernel range_order_rev range_order_rev ref_RouteSetFlag nm_sample_snapshot v2_sample_sender,
        where w = empty_world and ordE = rev and ordA = rev,
        OF _ _ _ _ _ _ _ _ r ni_sample_remote(1) ref_link_config range_order_rev range_order_rev v2_sample_one TrueI v2_sample_managed TrueI world]
      ni_sample_ips
    by (auto simp: nm_sample_remotes pod_ip_sample distinct_on_Cons empty_world_def ni_sample_remote)
qed

end
