(* ===== verification/Xfrm_State_Table.thy ===== *)
theory Xfrm_State_Table
  imports Ref_Kernel
begin

text \<open>
  \<^verbatim>\<open>XfrmStateTable\<close> of \<^verbatim>\<open>src/pkg/routing/netutil/xfrm_state_table.go\<close>: security associations, keyed by
  their SPI.  Two expected associations with the same SPI end the process.  \<^verbatim>\<open>xfrmMarkEqual\<close> is
  declared in \<^verbatim>\<open>xfrm_policy_table.go\<close> and used by both tables.
\<close>

section \<open>The code\<close>

definition xfrmMarkEqual :: "xfrmMark option \<Rightarrow> xfrmMark option \<Rightarrow> bool" where
  "xfrmMarkEqual l r =
     (case (l, r) of
        (Some l', Some r') \<Rightarrow> xm_Mask l' = xm_Mask r' \<and> xm_Value l' = xm_Value r'
      | _ \<Rightarrow> (r = None) = (l = None))"

definition xfrmStateAlgoEqual :: "xfrmStateAlgo option \<Rightarrow> xfrmStateAlgo option \<Rightarrow> bool" where
  "xfrmStateAlgoEqual l r =
     (case (l, r) of
        (Some l', Some r') \<Rightarrow>
          (if xa_TruncateLen l' \<noteq> xa_TruncateLen r' then False
           else if xa_ICVLen l' \<noteq> xa_ICVLen r' then False
           else if xa_Name l' \<noteq> xa_Name r' then False
           else if xa_Key l' \<noteq> xa_Key r' then False
           else True)
      | _ \<Rightarrow> (r = None) = (l = None))"

definition xfrmStateEncapEqual :: "xfrmStateEncap option \<Rightarrow> xfrmStateEncap option \<Rightarrow> bool" where
  "xfrmStateEncapEqual l r =
     (case (l, r) of
        (Some l', Some r') \<Rightarrow>
          (if xe_Type l' \<noteq> xe_Type r' then False
           else if xe_SrcPort l' \<noteq> xe_SrcPort r' then False
           else if xe_DstPort l' \<noteq> xe_DstPort r' then False
           else IP_Equal (xe_OriginalAddress l') (xe_OriginalAddress r'))
      | _ \<Rightarrow> (r = None) = (l = None))"

definition xfrmStateEqual :: "xfrmState \<Rightarrow> xfrmState \<Rightarrow> bool" where
  "xfrmStateEqual l r =
     (if xs_Proto l \<noteq> xs_Proto r then False
      else if xs_Mode l \<noteq> xs_Mode r then False
      else if xs_Spi l \<noteq> xs_Spi r then False
      else if xs_Reqid l \<noteq> xs_Reqid r then False
      else if xs_ReplayWindow l \<noteq> xs_ReplayWindow r then False
      else if \<not> IP_Equal (xs_Dst l) (xs_Dst r) then False
      else if \<not> IP_Equal (xs_Src l) (xs_Src r) then False
      else if xs_Limits l \<noteq> xs_Limits r then False
      else if \<not> xfrmMarkEqual (xs_Mark l) (xs_Mark r) then False
      else if \<not> xfrmStateAlgoEqual (xs_Auth l) (xs_Auth r) then False
      else if \<not> xfrmStateAlgoEqual (xs_Crypt l) (xs_Crypt r) then False
      else if \<not> xfrmStateAlgoEqual (xs_Aead l) (xs_Aead r) then False
      else if \<not> xfrmStateEncapEqual (xs_Encap l) (xs_Encap r) then False
      else True)"

text \<open>The loop that indexes the expected associations; \<open>None\<close> is the fatal exit on a duplicate.\<close>

fun expected_states :: "xfrmState list \<Rightarrow> (int, xfrmState) gomap \<Rightarrow> (int, xfrmState) gomap option" where
  "expected_states [] m = Some m"
| "expected_states (e # es) m =
     (case map_of m (xs_Spi e) of
        Some _ \<Rightarrow> None
      | None \<Rightarrow> expected_states es (AList.update (xs_Spi e) e m))"

definition XfrmStateTable_Flush :: "'w netlink \<Rightarrow> ('w, unit) io" where
  "XfrmStateTable_Flush nl = callM (nl_XfrmStateFlush nl)"

definition XfrmStateTable_Ensure ::
  "'w netlink \<Rightarrow> (int \<times> xfrmState) order \<Rightarrow> (int \<times> xfrmState) order \<Rightarrow> xfrmState list \<Rightarrow> ('w, unit) io"
where
  "XfrmStateTable_Ensure nl ordE ordA expectedList =
     bindM (wrapM ''error listing xfrm state: %v'' (callM (nl_XfrmStateList nl))) (\<lambda>actualList.
       let actualMap = indexBy (\<lambda>a. Some (xs_Spi a)) actualList in
       case expected_states expectedList [] of
         None \<Rightarrow> fatalM ''Found duplicate ESP SPI %d %v %v''
       | Some expected \<Rightarrow>
           (let create = map snd (filter (\<lambda>(spi, e). map_of actualMap spi = None) (ordE expected));
                updates = map snd (filter (\<lambda>(spi, e).
                  case map_of actualMap spi of None \<Rightarrow> False | Some a \<Rightarrow> \<not> xfrmStateEqual a e) (ordE expected));
                remove = map snd (filter (\<lambda>(spi, a). map_of expected spi = None) (ordA actualMap))
            in bindM (forM (\<lambda>p. wrapM ''error creating state %v: %v'' (callM (nl_XfrmStateAdd nl p))) create)
                 (\<lambda>_. bindM (forM (\<lambda>p. wrapM ''error updating state %v: %v'' (callM (nl_XfrmStateUpdate nl p))) updates)
                   (\<lambda>_. forM (\<lambda>p. wrapM ''error removing state: %v'' (callM (nl_XfrmStateDel nl p))) remove))))"

section \<open>The kernel's security associations\<close>

definition state_kernel :: "'w netlink \<Rightarrow> ('w \<Rightarrow> xfrmState list) \<Rightarrow> (xfrmState \<Rightarrow> bool) \<Rightarrow> bool" where
  "state_kernel nl tbl accept \<longleftrightarrow>
     (\<forall>w. nl_XfrmStateList nl w = (Inr (tbl w), w)) \<and>
     adds_entry tbl accept state_clash xfrmStateEqual (nl_XfrmStateAdd nl) \<and>
     updates_entry tbl accept state_clash xfrmStateEqual (nl_XfrmStateUpdate nl) \<and>
     dels_entry tbl (nl_XfrmStateDel nl)"

section \<open>The comparison\<close>

definition state_key :: "xfrmState \<Rightarrow> int option" where
  "state_key s = Some (xs_Spi s)"

lemma xfrmMarkEqual_iff: "xfrmMarkEqual l r \<longleftrightarrow> l = r"
  by (cases l; cases r) (auto simp: xfrmMarkEqual_def)

lemma xfrmStateAlgoEqual_iff: "xfrmStateAlgoEqual l r \<longleftrightarrow> l = r"
  by (cases l; cases r) (auto simp: xfrmStateAlgoEqual_def)

definition encap_norm :: "xfrmStateEncap option \<Rightarrow> (int \<times> int \<times> int \<times> byte list) option" where
  "encap_norm = map_option (\<lambda>e. (xe_Type e, xe_SrcPort e, xe_DstPort e, As16 (ip_bytes (xe_OriginalAddress e))))"

lemma xfrmStateEncapEqual_iff: "xfrmStateEncapEqual l r \<longleftrightarrow> encap_norm l = encap_norm r"
  by (cases l; cases r) (auto simp: xfrmStateEncapEqual_def encap_norm_def IP_Equal_iff)

lemma xfrmStateEqual_iff:
  "xfrmStateEqual l r \<longleftrightarrow>
     xs_Proto l = xs_Proto r \<and> xs_Mode l = xs_Mode r \<and> xs_Spi l = xs_Spi r \<and> xs_Reqid l = xs_Reqid r \<and>
     xs_ReplayWindow l = xs_ReplayWindow r \<and> IP_Equal (xs_Dst l) (xs_Dst r) \<and> IP_Equal (xs_Src l) (xs_Src r) \<and>
     xs_Limits l = xs_Limits r \<and> xs_Mark l = xs_Mark r \<and> xs_Auth l = xs_Auth r \<and> xs_Crypt l = xs_Crypt r \<and>
     xs_Aead l = xs_Aead r \<and> encap_norm (xs_Encap l) = encap_norm (xs_Encap r)"
  by (simp add: xfrmStateEqual_def xfrmMarkEqual_iff xfrmStateAlgoEqual_iff xfrmStateEncapEqual_iff)

interpretation state_eq: keyed_equality xfrmStateEqual state_key
  by unfold_locales (simp_all add: xfrmStateEqual_iff IP_Equal_iff state_key_def)

lemma state_clash_cong:
  "xfrmStateEqual a b \<Longrightarrow> state_clash a r = state_clash b r"
  "xfrmStateEqual a b \<Longrightarrow> state_clash r a = state_clash r b"
  by (auto simp: state_clash_def xfrmStateEqual_iff IP_Equal_iff)

lemma state_clash_euclid: "\<forall>x a b. state_clash x a \<longrightarrow> state_clash x b \<longrightarrow> state_clash a b"
  by (auto simp: state_clash_def IP_Equal_iff)

lemma state_clash_key: "state_clash a b \<Longrightarrow> state_key a = state_key b"
  by (simp add: state_clash_def state_key_def)

lemma state_key_not_None: "state_key a \<noteq> None"
  by (simp add: state_key_def)

lemma distinct_on_state_key: "distinct_on state_key es \<longleftrightarrow> distinct (map xs_Spi es)"
  by (induction es) (auto simp: distinct_on_Cons state_key_def)

section \<open>Properties\<close>

lemma state_key_eta: "(\<lambda>a. Some (xs_Spi a)) = state_key"
  by (simp add: fun_eq_iff state_key_def)

lemma expected_states_Some:
  assumes "distinct (map xs_Spi es)" and "\<forall>e \<in> set es. xs_Spi e \<notin> fst ` set m"
  shows "expected_states es m = Some (m @ map (\<lambda>e. (xs_Spi e, e)) es)"
  using assms
proof (induction es arbitrary: m)
  case (Cons e es)
  have fresh: "xs_Spi e \<notin> fst ` set m" using Cons.prems by simp
  then have "AList.update (xs_Spi e) e m = m @ [(xs_Spi e, e)]" by (induction m) auto
  moreover have "map_of m (xs_Spi e) = None" using fresh by (simp add: map_of_eq_None_iff)
  moreover have "\<forall>x \<in> set es. xs_Spi x \<notin> fst ` set (m @ [(xs_Spi e, e)])"
    using Cons.prems by (auto simp: image_iff)
  ultimately show ?case using Cons.IH [of "m @ [(xs_Spi e, e)]"] Cons.prems by simp
qed simp

lemma expected_states_index: "distinct (map xs_Spi es) \<Longrightarrow> expected_states es [] = Some (indexBy state_key es)"
  using expected_states_Some [of es "[]"] indexBy_eq_map [of state_key es] state_key_not_None
  by (simp add: distinct_on_state_key) (simp add: state_key_def)

lemma expected_states_None:
  assumes "\<not> distinct (map fst m @ map xs_Spi es)" and "distinct (map fst m)"
  shows "expected_states es m = None"
  using assms
proof (induction es arbitrary: m)
  case (Cons e es)
  show ?case
  proof (cases "map_of m (xs_Spi e)")
    case None
    then have fresh: "xs_Spi e \<notin> fst ` set m" by (simp add: map_of_eq_None_iff)
    then have "AList.update (xs_Spi e) e m = m @ [(xs_Spi e, e)]" by (induction m) auto
    then show ?thesis using None fresh Cons.prems Cons.IH [of "m @ [(xs_Spi e, e)]"] by auto
  qed simp
qed simp

text \<open>The three loops, in terms of the keys.\<close>

lemma state_plan:
  assumes T: "distinct_on state_key T" and es: "distinct_on state_key es"
    and ord: "range_order ordE" "range_order ordA"
  defines "am \<equiv> indexBy state_key T"
  shows "mset (map snd (filter (\<lambda>(spi, e). map_of am spi = None) (ordE (indexBy state_key es)))) =
      mset (filter (\<lambda>e. \<forall>x \<in> set T. state_key x \<noteq> state_key e) es)"
    and "mset (map snd (filter (\<lambda>(spi, e). case map_of am spi of None \<Rightarrow> False | Some a \<Rightarrow> \<not> xfrmStateEqual a e)
        (ordE (indexBy state_key es)))) =
      mset (filter (\<lambda>e. \<exists>x \<in> set T. state_key x = state_key e \<and> \<not> xfrmStateEqual x e) es)"
    and "mset (map snd (filter (\<lambda>(spi, a). map_of (indexBy state_key es) spi = None) (ordA am))) =
      mset (filter (\<lambda>x. \<forall>e \<in> set es. state_key e \<noteq> state_key x) T)"
proof -
  have total: "\<forall>x \<in> set xs. state_key x \<noteq> None" for xs by (simp add: state_key_not_None)
  show "mset (map snd (filter (\<lambda>(spi, e). map_of am spi = None) (ordE (indexBy state_key es)))) =
      mset (filter (\<lambda>e. \<forall>x \<in> set T. state_key x \<noteq> state_key e) es)"
    unfolding am_def range_indexBy [OF ord(1) es total] state_eq.lookup_missing [OF state_key_not_None] by (rule refl)
  show "mset (map snd (filter (\<lambda>(spi, e). case map_of am spi of None \<Rightarrow> False | Some a \<Rightarrow> \<not> xfrmStateEqual a e)
        (ordE (indexBy state_key es)))) =
      mset (filter (\<lambda>e. \<exists>x \<in> set T. state_key x = state_key e \<and> \<not> xfrmStateEqual x e) es)"
    unfolding am_def range_indexBy [OF ord(1) es total] state_eq.lookup_differs [OF T state_key_not_None] by (rule refl)
  show "mset (map snd (filter (\<lambda>(spi, a). map_of (indexBy state_key es) spi = None) (ordA am))) =
      mset (filter (\<lambda>x. \<forall>e \<in> set es. state_key e \<noteq> state_key x) T)"
    unfolding am_def range_indexBy [OF ord(2) T total] state_eq.lookup_missing [OF state_key_not_None] by (rule refl)
qed

lemma XfrmStateTable_Ensure_unfold:
  assumes list: "nl_XfrmStateList nl w = (Inr T, w1)" and es: "distinct (map xs_Spi es)"
  shows "XfrmStateTable_Ensure nl ordE ordA es w =
    (let am = indexBy state_key T; em = indexBy state_key es in
     bindM (forM (\<lambda>p. wrapM ''error creating state %v: %v'' (callM (nl_XfrmStateAdd nl p)))
         (map snd (filter (\<lambda>(spi, e). map_of am spi = None) (ordE em))))
       (\<lambda>_. bindM (forM (\<lambda>p. wrapM ''error updating state %v: %v'' (callM (nl_XfrmStateUpdate nl p)))
           (map snd (filter (\<lambda>(spi, e). case map_of am spi of None \<Rightarrow> False | Some a \<Rightarrow> \<not> xfrmStateEqual a e) (ordE em))))
         (\<lambda>_. forM (\<lambda>p. wrapM ''error removing state: %v'' (callM (nl_XfrmStateDel nl p)))
           (map snd (filter (\<lambda>(spi, a). map_of em spi = None) (ordA am)))))) w1"
  by (simp add: XfrmStateTable_Ensure_def bind_call_Inr [of "nl_XfrmStateList nl", OF list] expected_states_index [OF es]
      state_key_eta Let_def)

lemma XfrmStateTable_sets:
  assumes ker: "state_kernel nl tbl accept" and ord: "range_order ordE" "range_order ordA"
    and T: "distinct (map xs_Spi (tbl w))" and es: "distinct (map xs_Spi es)" "\<forall>e \<in> set es. accept e"
    and ident: "\<forall>x \<in> set (tbl w). \<forall>e \<in> set es. xs_Spi x = xs_Spi e \<longrightarrow> state_clash x e"
  shows "\<exists>w'. XfrmStateTable_Ensure nl ordE ordA es w = (Ret (), w') \<and>
    installed xfrmStateEqual state_key (\<lambda>_. True) es (tbl w') \<and>
    (\<forall>ordE' ordA'. range_order ordE' \<and> range_order ordA' \<longrightarrow> XfrmStateTable_Ensure nl ordE' ordA' es w' = (Ret (), w'))"
proof -
  have list: "\<And>w. nl_XfrmStateList nl w = (Inr (tbl w), w)"
    and add: "adds_entry tbl accept state_clash xfrmStateEqual (nl_XfrmStateAdd nl)"
    and upd: "updates_entry tbl accept state_clash xfrmStateEqual (nl_XfrmStateUpdate nl)"
    and del: "dels_entry tbl (nl_XfrmStateDel nl)" using ker by (simp_all add: state_kernel_def)
  have T': "distinct_on state_key (tbl w)" and es': "distinct_on state_key es"
    using T es by (simp_all add: distinct_on_state_key)
  have ident': "\<forall>x \<in> set (tbl w). \<forall>e \<in> set es. state_key x = state_key e \<longrightarrow> state_clash x e"
    using ident by (simp add: state_key_def)
  note plan = state_plan [OF T' es' ord]
  have acc: "\<forall>u \<in> set (map snd (filter (\<lambda>(spi, e). case map_of (indexBy state_key (tbl w)) spi of None \<Rightarrow> False
      | Some a \<Rightarrow> \<not> xfrmStateEqual a e) (ordE (indexBy state_key es)))). accept u"
    using mset_eq_setD [OF plan(2)] es(2) by auto
  obtain w' where w': "XfrmStateTable_Ensure nl ordE ordA es w = (Ret (), w')"
    "installed xfrmStateEqual state_key (\<lambda>_. True) es (tbl w')"
    using state_eq.create_update_remove [OF add upd del state_clash_cong state_clash_euclid state_clash_key
        state_key_not_None T' es' es(2) ident' plan(1,2) state_eq.list_all2_eq_refl acc plan(3)]
    unfolding XfrmStateTable_Ensure_unfold [OF list es(1)] Let_def by blast
  have "XfrmStateTable_Ensure nl ordE' ordA' es w' = (Ret (), w')" if "range_order ordE'" "range_order ordA'" for ordE' ordA'
    using state_plan [OF installed_distinct [OF w'(2)] es' that] state_eq.installed_settled [OF w'(2) state_key_not_None]
    by (simp add: XfrmStateTable_Ensure_unfold [OF list es(1)] del: mset_map mset_filter)
  then show ?thesis using w' by blast
qed


lemma XfrmStateTable_duplicate:
  assumes "nl_XfrmStateList nl w = (Inr actual, w1)" and "\<not> distinct (map xs_Spi es)"
  shows "XfrmStateTable_Ensure nl ordE ordA es w = (Fatal ''Found duplicate ESP SPI %d %v %v'', w1)"
  using assms(2) expected_states_None [of "[]" es]
  by (simp add: XfrmStateTable_Ensure_def bind_call_Inr [of "nl_XfrmStateList nl", OF assms(1)])

text \<open>
  Two expected associations with the same SPI end the process before anything is
  changed: the call does not return, and the state is the one the listing left.
\<close>

lemma XfrmStateTable_Ensure_duplicate_fatal:
  assumes "nl_XfrmStateList nl w = (Inr actual, w1)" and "\<not> distinct (map xs_Spi es)"
  shows "XfrmStateTable_Ensure nl ordE ordA es w = (Fatal ''Found duplicate ESP SPI %d %v %v'', w1)"
  by (rule XfrmStateTable_duplicate [OF assms])

definition sample_state :: "int \<Rightarrow> byte \<Rightarrow> xfrmState" where
  "sample_state spi n =
     \<lparr>xs_Dst = Some [10, 1, 0, n], xs_Src = Some [10, 1, 0, 1], xs_Proto = 50, xs_Mode = 1, xs_Spi = spi, xs_Reqid = 0,
      xs_ReplayWindow = 0, xs_Limits = \<lparr>xl_ByteSoft = 0, xl_ByteHard = 0, xl_PacketSoft = 0, xl_PacketHard = 0,
      xl_TimeSoft = 0, xl_TimeHard = 0, xl_TimeUseSoft = 0, xl_TimeUseHard = 0\<rparr>, xs_Mark = None, xs_Auth = None,
      xs_Crypt = None, xs_Aead = None, xs_Encap = None\<rparr>"

lemma ref_state_kernel: "state_kernel ref_netlink rw_states (\<lambda>_. True)"
  unfolding state_kernel_def ref_netlink_def
  by (simp add: ref_list_def ref_adds_entry sets_updates ref_sets_entry ref_dels_entry state_eq.eq_refl)


lemma XfrmStateTable_Ensure_duplicate_fatal_example:
  "XfrmStateTable_Ensure ref_netlink rev rev [sample_state 1 2, sample_state 1 3] empty_world =
    (Fatal ''Found duplicate ESP SPI %d %v %v'', empty_world)"
  by (rule XfrmStateTable_Ensure_duplicate_fatal [of _ _ "[]"])
    (simp_all add: ref_netlink_def ref_list_def empty_world_def sample_state_def)

end
