(* ===== verification/Xfrm_Policy_Table.thy ===== *)
theory Xfrm_Policy_Table
  imports Xfrm_State_Table
begin

text \<open>
  \<^verbatim>\<open>XfrmPolicyTable\<close> of \<^verbatim>\<open>src/pkg/routing/netutil/xfrm_policy_table.go\<close>: security policies, matched by
  direction and selector in a nested loop.  A policy that exists keeps the index the kernel gave
  it: the method copies it into the expected policy before it compares the two.
\<close>

section \<open>The code\<close>

definition xfrmPolicyTmplEqual :: "xfrmPolicyTmpl \<Rightarrow> xfrmPolicyTmpl \<Rightarrow> bool" where
  "xfrmPolicyTmplEqual l r =
     (if xt_Proto l \<noteq> xt_Proto r then False
      else if xt_Mode l \<noteq> xt_Mode r then False
      else if xt_Spi l \<noteq> xt_Spi r then False
      else if xt_Reqid l \<noteq> xt_Reqid r then False
      else if \<not> IP_Equal (xt_Dst l) (xt_Dst r) then False
      else if \<not> IP_Equal (xt_Src l) (xt_Src r) then False
      else True)"

definition xfrmPolicyEqual :: "xfrmPolicy \<Rightarrow> xfrmPolicy \<Rightarrow> bool" where
  "xfrmPolicyEqual l r =
     (if xp_Dir l \<noteq> xp_Dir r then False
      else if xp_Priority l \<noteq> xp_Priority r then False
      else if xp_Index l \<noteq> xp_Index r then False
      else if xp_SrcPort l \<noteq> xp_SrcPort r then False
      else if xp_DstPort l \<noteq> xp_DstPort r then False
      else if xp_Proto l \<noteq> xp_Proto r then False
      else if \<not> ipnetEqual (xp_Dst l) (xp_Dst r) then False
      else if \<not> ipnetEqual (xp_Src l) (xp_Src r) then False
      else if \<not> xfrmMarkEqual (xp_Mark l) (xp_Mark r) then False
      else if length (xp_Tmpls l) \<noteq> length (xp_Tmpls r) then False
      else list_all (\<lambda>(x, y). xfrmPolicyTmplEqual x y) (zip (xp_Tmpls l) (xp_Tmpls r)))"

definition xfrmPolicyMatches :: "xfrmPolicy \<Rightarrow> xfrmPolicy \<Rightarrow> bool" where
  "xfrmPolicyMatches a e =
     (if xp_Dir a \<noteq> xp_Dir e then False
      else if xp_SrcPort a \<noteq> xp_SrcPort e then False
      else if xp_DstPort a \<noteq> xp_DstPort e then False
      else if xp_Proto a \<noteq> xp_Proto e then False
      else if \<not> ipnetEqual (xp_Dst a) (xp_Dst e) then False
      else if \<not> ipnetEqual (xp_Src a) (xp_Src e) then False
      else True)"

text \<open>
  The inner loop: the last policy that matches, and the marks \<^verbatim>\<open>actualMatched\<close>, kept beside the
  policies they belong to.
\<close>

fun policy_scan :: "xfrmPolicy \<Rightarrow> (xfrmPolicy \<times> bool) list \<Rightarrow> xfrmPolicy option \<Rightarrow>
  xfrmPolicy option \<times> (xfrmPolicy \<times> bool) list" where
  "policy_scan e [] a = (a, [])"
| "policy_scan e ((p, matched) # pms) a =
     (if xfrmPolicyMatches p e
      then (let (a', pms') = policy_scan e pms (Some p) in (a', (p, True) # pms'))
      else (let (a', pms') = policy_scan e pms a in (a', (p, matched) # pms')))"

fun policy_diff :: "xfrmPolicy list \<Rightarrow> (xfrmPolicy \<times> bool) list \<Rightarrow> xfrmPolicy list \<Rightarrow> xfrmPolicy list \<Rightarrow>
  (xfrmPolicy \<times> bool) list \<times> xfrmPolicy list \<times> xfrmPolicy list" where
  "policy_diff [] pms create updates = (pms, create, updates)"
| "policy_diff (e # es) pms create updates =
     (case policy_scan e pms None of
        (None, pms') \<Rightarrow> policy_diff es pms' (create @ [e]) updates
      | (Some a, pms') \<Rightarrow>
          (let e' = e\<lparr>xp_Index := xp_Index a\<rparr> in
           if \<not> xfrmPolicyEqual a e' then policy_diff es pms' create (updates @ [e'])
           else policy_diff es pms' create updates))"

definition XfrmPolicyTable_Flush :: "'w netlink \<Rightarrow> ('w, unit) io" where
  "XfrmPolicyTable_Flush nl = callM (nl_XfrmPolicyFlush nl)"

definition XfrmPolicyTable_Ensure :: "'w netlink \<Rightarrow> xfrmPolicy list \<Rightarrow> ('w, unit) io" where
  "XfrmPolicyTable_Ensure nl expected =
     bindM (wrapM ''error listing xfrm policies: %v'' (callM (nl_XfrmPolicyList nl))) (\<lambda>actual.
       case policy_diff expected (map (\<lambda>p. (p, False)) actual) [] [] of
         (pms, create, updates) \<Rightarrow>
           (let remove = map fst (filter (\<lambda>(p, matched). \<not> matched) pms)
            in bindM (forM (\<lambda>p. wrapM ''error creating policy: %v'' (callM (nl_XfrmPolicyAdd nl p))) create)
                 (\<lambda>_. bindM (forM (\<lambda>p. wrapM ''error updating policy: %v'' (callM (nl_XfrmPolicyUpdate nl p))) updates)
                   (\<lambda>_. forM (\<lambda>p. wrapM ''error removing policy: %v'' (callM (nl_XfrmPolicyDel nl p))) remove))))"

section \<open>The comparison\<close>

text \<open>Equality up to the index, which the kernel chooses.\<close>

definition policySame :: "xfrmPolicy \<Rightarrow> xfrmPolicy \<Rightarrow> bool" where
  "policySame p e = xfrmPolicyEqual p (e\<lparr>xp_Index := xp_Index p\<rparr>)"

definition net_norm :: "ipnet option \<Rightarrow> (byte list \<times> byte list option) option" where
  "net_norm = map_option (\<lambda>n. (ipn_Mask n, map_option As16 (ipn_IP n)))"

definition policy_key :: "xfrmPolicy \<Rightarrow>
  (int \<times> int \<times> int \<times> int \<times> (byte list \<times> byte list option) option \<times> (byte list \<times> byte list option) option) option" where
  "policy_key p = Some (xp_Dir p, xp_SrcPort p, xp_DstPort p, xp_Proto p, net_norm (xp_Dst p), net_norm (xp_Src p))"

lemma ipEqual_norm: "ipEqual a e \<longleftrightarrow> map_option As16 a = map_option As16 e"
  by (cases a; cases e) (auto simp: ipEqual_def IP_Equal_iff ip_bytes_def)

lemma ipnetEqual_norm: "ipnetEqual a e \<longleftrightarrow> net_norm a = net_norm e"
  by (cases a; cases e) (auto simp: ipnetEqual_iff net_norm_def ipEqual_norm)

lemma xfrmPolicyMatches_key: "xfrmPolicyMatches a e \<longleftrightarrow> policy_key a = policy_key e"
  by (auto simp: xfrmPolicyMatches_def policy_key_def ipnetEqual_norm)

lemma policy_clash_key: "policy_clash a e \<longleftrightarrow> policy_key a = policy_key e"
  by (auto simp: policy_clash_def policy_key_def ipnetEqual_norm)

interpretation tmpl_eq: equality_check xfrmPolicyTmplEqual
  by unfold_locales (auto simp: xfrmPolicyTmplEqual_def IP_Equal_iff split: if_splits)

lemma policySame_iff:
  "policySame l r \<longleftrightarrow> policy_key l = policy_key r \<and> xp_Priority l = xp_Priority r \<and> xp_Mark l = xp_Mark r \<and>
     list_all2 xfrmPolicyTmplEqual (xp_Tmpls l) (xp_Tmpls r)"
  by (auto simp: policySame_def xfrmPolicyEqual_def policy_key_def ipnetEqual_norm xfrmMarkEqual_iff
      list_all2_iff list_all_iff)

interpretation policy_eq: keyed_equality policySame policy_key
  by unfold_locales
    (auto simp: policySame_iff tmpl_eq.list_all2_eq_refl tmpl_eq.list_all2_eq_sym intro: tmpl_eq.list_all2_eq_trans)

lemma policy_key_not_None: "policy_key p \<noteq> None"
  by (simp add: policy_key_def)

section \<open>The kernel's security policies\<close>

definition policy_kernel :: "'w netlink \<Rightarrow> ('w \<Rightarrow> xfrmPolicy list) \<Rightarrow> (xfrmPolicy \<Rightarrow> bool) \<Rightarrow> bool" where
  "policy_kernel nl tbl accept \<longleftrightarrow>
     (\<forall>w. nl_XfrmPolicyList nl w = (Inr (tbl w), w)) \<and>
     adds_entry tbl accept policy_clash policySame (nl_XfrmPolicyAdd nl) \<and>
     updates_entry tbl accept policy_clash policySame (nl_XfrmPolicyUpdate nl) \<and>
     dels_entry tbl (nl_XfrmPolicyDel nl)"

section \<open>What the nested loops compute\<close>

lemma policy_scan_eq:
  "policy_scan e pms a =
     (case find (\<lambda>p. policy_key p = policy_key e) (rev (map fst pms)) of None \<Rightarrow> a | Some p \<Rightarrow> Some p,
      map (\<lambda>(p, m). (p, m \<or> policy_key p = policy_key e)) pms)"
proof (induction pms arbitrary: a)
  case (Cons pm pms)
  have "find P (xs @ [x]) = (case find P xs of None \<Rightarrow> if P x then Some x else None | Some y \<Rightarrow> Some y)"
    for P and xs :: "xfrmPolicy list" and x by (induction xs) auto
  then show ?case using Cons by (cases pm) (auto simp: xfrmPolicyMatches_key split: option.splits)
qed simp

definition policy_update :: "(_, xfrmPolicy) gomap \<Rightarrow> xfrmPolicy \<Rightarrow> xfrmPolicy" where
  "policy_update am e = (case map_of am (the (policy_key e)) of None \<Rightarrow> e | Some a \<Rightarrow> e\<lparr>xp_Index := xp_Index a\<rparr>)"

lemma policy_diff_eq:
  "policy_diff es pms cr up =
     (map (\<lambda>(p, m). (p, m \<or> (\<exists>e \<in> set es. policy_key p = policy_key e))) pms,
      cr @ filter (\<lambda>e. map_of (indexBy policy_key (map fst pms)) (the (policy_key e)) = None) es,
      up @ map (policy_update (indexBy policy_key (map fst pms)))
        (filter (\<lambda>e. case map_of (indexBy policy_key (map fst pms)) (the (policy_key e)) of
            None \<Rightarrow> False | Some a \<Rightarrow> \<not> policySame a e) es))"
proof (induction es arbitrary: pms cr up)
  case (Cons e es)
  let ?pms = "map (\<lambda>(p, m). (p, m \<or> policy_key p = policy_key e)) pms"
  have fst: "map fst ?pms = map fst pms" by (auto simp: o_def case_prod_beta)
  have found: "find (\<lambda>p. policy_key p = policy_key e) (rev (map fst pms)) =
      map_of (indexBy policy_key (map fst pms)) (the (policy_key e))"
    by (simp add: map_of_indexBy) (simp add: policy_key_def)
  have marks: "map (\<lambda>(p, m). (p, m \<or> (\<exists>e \<in> set es. policy_key p = policy_key e))) ?pms =
      map (\<lambda>(p, m). (p, m \<or> (\<exists>x \<in> set (e # es). policy_key p = policy_key x))) pms" by auto
  define am where "am = indexBy policy_key (map fst pms)"
  define ms where "ms = map (\<lambda>(p, m). (p, m \<or> (\<exists>x \<in> set (e # es). policy_key p = policy_key x))) pms"
  have IH: "policy_diff es ?pms cr' up' =
      (ms, cr' @ filter (\<lambda>e. map_of am (the (policy_key e)) = None) es,
       up' @ map (policy_update am) (filter (\<lambda>e. case map_of am (the (policy_key e)) of
            None \<Rightarrow> False | Some a \<Rightarrow> \<not> policySame a e) es))" for cr' up'
    using Cons.IH [of ?pms cr' up'] unfolding fst marks am_def [symmetric] ms_def [symmetric] .
  show ?case unfolding am_def [symmetric] ms_def [symmetric] policy_diff.simps policy_scan_eq found
    by (cases "map_of am (the (policy_key e))") (simp_all add: IH policy_update_def policySame_def)
qed (simp add: case_prod_beta)

section \<open>Properties\<close>

lemma policySame_update: "policySame (policy_update am e) e"
  using policy_eq.eq_refl [of e]
  by (auto simp: policy_update_def policySame_iff policy_key_def split: option.split)

lemma XfrmPolicyTable_Ensure_unfold:
  assumes list: "nl_XfrmPolicyList nl w = (Inr T, w1)" and T: "distinct_on policy_key T"
  shows "XfrmPolicyTable_Ensure nl es w =
    bindM (forM (\<lambda>p. wrapM ''error creating policy: %v'' (callM (nl_XfrmPolicyAdd nl p)))
        (filter (\<lambda>e. \<forall>x \<in> set T. policy_key x \<noteq> policy_key e) es))
      (\<lambda>_. bindM (forM (\<lambda>p. wrapM ''error updating policy: %v'' (callM (nl_XfrmPolicyUpdate nl p)))
          (map (policy_update (indexBy policy_key T))
            (filter (\<lambda>e. \<exists>x \<in> set T. policy_key x = policy_key e \<and> \<not> policySame x e) es)))
        (\<lambda>_. forM (\<lambda>p. wrapM ''error removing policy: %v'' (callM (nl_XfrmPolicyDel nl p)))
          (filter (\<lambda>x. \<forall>e \<in> set es. policy_key e \<noteq> policy_key x) T))) w1"
proof -
  have rm: "map fst (filter (\<lambda>(p, matched). \<not> matched)
      (map (\<lambda>(p, m). (p, m \<or> (\<exists>e \<in> set es. policy_key p = policy_key e))) (map (\<lambda>p. (p, False)) T))) =
      filter (\<lambda>x. \<forall>e \<in> set es. policy_key e \<noteq> policy_key x) T"
    by (simp add: filter_map o_def case_prod_beta) (metis (no_types, opaque_lifting))
  have id: "map fst (map (\<lambda>p. (p, False)) T) = T" by (simp add: o_def)
  show ?thesis
    unfolding XfrmPolicyTable_Ensure_def bind_call_Inr [of "nl_XfrmPolicyList nl", OF list] policy_diff_eq id
      policy_eq.lookup_missing [OF policy_key_not_None] policy_eq.lookup_differs [OF T policy_key_not_None]
    by (simp only: prod.case Let_def rm append_Nil)
qed

lemma XfrmPolicyTable_sets:
  assumes ker: "policy_kernel nl tbl accept"
    and T: "distinct_on policy_key (tbl w)" and es: "distinct_on policy_key es"
    and acc: "\<forall>e \<in> set es. \<forall>i. accept (e\<lparr>xp_Index := i\<rparr>)"
  shows "\<exists>w'. XfrmPolicyTable_Ensure nl es w = (Ret (), w') \<and>
    installed policySame policy_key (\<lambda>_. True) es (tbl w') \<and>
    XfrmPolicyTable_Ensure nl es w' = (Ret (), w')"
proof -
  have list: "\<And>w. nl_XfrmPolicyList nl w = (Inr (tbl w), w)"
    and add: "adds_entry tbl accept policy_clash policySame (nl_XfrmPolicyAdd nl)"
    and upd: "updates_entry tbl accept policy_clash policySame (nl_XfrmPolicyUpdate nl)"
    and del: "dels_entry tbl (nl_XfrmPolicyDel nl)" using ker by (simp_all add: policy_kernel_def)
  let ?us = "filter (\<lambda>e. \<exists>x \<in> set (tbl w). policy_key x = policy_key e \<and> \<not> policySame x e) es"
  have acc': "\<forall>e \<in> set es. accept e" using acc by (metis xfrmPolicy.surjective xfrmPolicy.update_convs(8))
  have us: "list_all2 policySame (map (policy_update (indexBy policy_key (tbl w))) ?us) ?us"
    by (simp add: list_all2_map1 list_all2_same policySame_update)
  have us_acc: "\<forall>u \<in> set (map (policy_update (indexBy policy_key (tbl w))) ?us). accept u"
    using acc acc' by (auto simp: policy_update_def split: option.split)
  have clash: "policySame a b \<Longrightarrow> policy_clash a r = policy_clash b r"
      "policySame a b \<Longrightarrow> policy_clash r a = policy_clash r b"
      "policy_clash a b \<Longrightarrow> policy_key a = policy_key b" for a b r
    by (simp_all add: policy_clash_key policySame_iff)
  obtain w' where w': "XfrmPolicyTable_Ensure nl es w = (Ret (), w')"
    "installed policySame policy_key (\<lambda>_. True) es (tbl w')"
    unfolding XfrmPolicyTable_Ensure_unfold [where T = "tbl w", OF list T]
    using policy_eq.create_update_remove [OF add upd del clash(1,2) _ clash(3) policy_key_not_None T es acc' _
        refl refl us us_acc refl] by (fastforce simp: policy_clash_key)
  have "XfrmPolicyTable_Ensure nl es w' = (Ret (), w')"
    unfolding XfrmPolicyTable_Ensure_unfold [where T = "tbl w'", OF list installed_distinct [OF w'(2)]]
      policy_eq.installed_settled [OF w'(2) policy_key_not_None] by simp
  then show ?thesis using w' by blast
qed


lemma ref_policy_kernel: "policy_kernel ref_netlink rw_policies (\<lambda>_. True)"
  unfolding policy_kernel_def ref_netlink_def
  by (simp add: ref_list_def ref_adds_entry sets_updates ref_sets_entry ref_dels_entry policy_eq.eq_refl)

definition sample_policy :: "int \<Rightarrow> int \<Rightarrow> xfrmPolicy" where
  "sample_policy dir prio =
     \<lparr>xp_Dst = None, xp_Src = None, xp_Proto = 17, xp_DstPort = 4500, xp_SrcPort = 0, xp_Dir = dir, xp_Priority = prio,
      xp_Index = 7, xp_Mark = None, xp_Tmpls = []\<rparr>"


end
