(* ===== verification/Esp_Listener.thy ===== *)
theory Esp_Listener
  imports Netlink
begin

text \<open>
  The UDP encapsulation socket (\<^verbatim>\<open>src/pkg/routing/ipsec/esp_listener.go\<close>): the encoding of the
  PF_KEY policy extension, and the system calls that set the socket up.  The system calls are the
  fields of a record that every operation takes as a parameter.
\<close>

section \<open>The code\<close>

definition UDP_ENCAP :: int where "UDP_ENCAP = 100"
definition UDP_ENCAP_ESPINUDP :: int where "UDP_ENCAP_ESPINUDP = 2"
definition IPSEC_DIR_INBOUND :: "8 word" where "IPSEC_DIR_INBOUND = 1"
definition IPSEC_DIR_OUTBOUND :: "8 word" where "IPSEC_DIR_OUTBOUND = 2"
definition IPSEC_POLICY_BYPASS :: "16 word" where "IPSEC_POLICY_BYPASS = 4"
definition SADB_X_EXT_POLICY :: "16 word" where "SADB_X_EXT_POLICY = 18"

text \<open>Constants of the package \<^verbatim>\<open>syscall\<close> on Linux.\<close>

definition AF_INET :: int where "AF_INET = 2"
definition SOCK_DGRAM :: int where "SOCK_DGRAM = 2"
definition SOL_IP :: int where "SOL_IP = 0"
definition IPPROTO_UDP :: int where "IPPROTO_UDP = 17"
definition IP_IPSEC_POLICY :: int where "IP_IPSEC_POLICY = 16"

record UDPEncapListener =
  ul_fd :: int

record SadbXPolicy =
  sp_len :: "16 word"
  sp_ExtType :: "16 word"
  sp_Type :: "16 word"
  sp_Direction :: "8 word"
  sp_Reserved :: "8 word"
  sp_PolicyId :: "32 word"
  sp_PolicyPriority :: "32 word"

text \<open>\<^verbatim>\<open>binary.LittleEndian.PutUint16\<close> and \<^verbatim>\<open>PutUint32\<close>: the bytes they store.\<close>

definition le16 :: "16 word \<Rightarrow> byte list" where
  "le16 v = [ucast v, ucast (drop_bit 8 v)]"

definition le32 :: "32 word \<Rightarrow> byte list" where
  "le32 v = [ucast v, ucast (drop_bit 8 v), ucast (drop_bit 16 v), ucast (drop_bit 24 v)]"

text \<open>\<open>put b o x\<close> overwrites the bytes of \<open>b\<close> from offset \<open>o\<close> with \<open>x\<close>.\<close>

definition put :: "byte list \<Rightarrow> nat \<Rightarrow> byte list \<Rightarrow> byte list" where
  "put b off x = take off b @ x @ drop (off + length x) b"

definition SadbXPolicy_Encode :: "SadbXPolicy \<Rightarrow> byte list" where
  "SadbXPolicy_Encode s =
     (let b = replicate 16 0;
          b = put b 0 (le16 2);
          b = put b 2 (le16 (sp_ExtType s));
          b = put b 4 (le16 (sp_Type s));
          b = b[6 := sp_Direction s];
          b = b[7 := sp_Reserved s];
          b = put b 8 (le32 (sp_PolicyId s));
          b = put b 12 (le32 (sp_PolicyPriority s))
      in b)"

record 'w sockets =
  sys_Socket :: "int \<Rightarrow> int \<Rightarrow> int \<Rightarrow> ('w, int) ext"
  sys_SetsockoptString :: "int \<Rightarrow> int \<Rightarrow> int \<Rightarrow> byte list \<Rightarrow> ('w, unit) ext"
  sys_SetsockoptInt :: "int \<Rightarrow> int \<Rightarrow> int \<Rightarrow> int \<Rightarrow> ('w, unit) ext"
  sys_Bind :: "int \<Rightarrow> int \<Rightarrow> ('w, unit) ext"
  sys_Close :: "int \<Rightarrow> ('w, unit) ext"

definition bypass_policy :: "8 word \<Rightarrow> SadbXPolicy" where
  "bypass_policy direction =
     \<lparr>sp_len = 0, sp_ExtType = SADB_X_EXT_POLICY, sp_Type = IPSEC_POLICY_BYPASS, sp_Direction = direction,
      sp_Reserved = 0, sp_PolicyId = 0, sp_PolicyPriority = 0\<rparr>"

definition NewUDPEncapListener :: "'w sockets \<Rightarrow> int \<Rightarrow> ('w, UDPEncapListener) io" where
  "NewUDPEncapListener sys port =
     bindM (wrapM ''error creating socket: %v'' (callM (sys_Socket sys AF_INET SOCK_DGRAM 0))) (\<lambda>fd.
       bindM (wrapM ''error setting IP_IPSEC_POLICY socket option (outbound): %v''
           (callM (sys_SetsockoptString sys fd SOL_IP IP_IPSEC_POLICY (SadbXPolicy_Encode (bypass_policy IPSEC_DIR_OUTBOUND))))) (\<lambda>_.
         bindM (wrapM ''error setting IP_IPSEC_POLICY socket option (inbound): %v''
             (callM (sys_SetsockoptString sys fd SOL_IP IP_IPSEC_POLICY (SadbXPolicy_Encode (bypass_policy IPSEC_DIR_INBOUND))))) (\<lambda>_.
           bindM (wrapM ''error setting UDP_ENCAP=UDP_ENCAP_ESPINUDP socket option: %v''
               (callM (sys_SetsockoptInt sys fd IPPROTO_UDP UDP_ENCAP UDP_ENCAP_ESPINUDP))) (\<lambda>_.
             bindM (wrapM ''error binding socket: %v'' (callM (sys_Bind sys fd port))) (\<lambda>_.
               retM \<lparr>ul_fd = fd\<rparr>)))))"

definition UDPEncapListener_Close :: "'w sockets \<Rightarrow> (UDPEncapListener \<times> 'w, unit) io" where
  "UDPEncapListener_Close sys =
     bindM getP (\<lambda>l.
       if ul_fd l = 0 then retM ()
       else bindM (wrapM ''error closing socket: %v'' (liftW (callM (sys_Close sys (ul_fd l))))) (\<lambda>_.
         putP (l\<lparr>ul_fd := 0\<rparr>)))"

section \<open>The encoding\<close>

text \<open>The layout of \<^verbatim>\<open>struct sadb_x_policy\<close> of the Linux interface, read from a little-endian buffer.\<close>

definition of_le :: "byte list \<Rightarrow> nat" where
  "of_le bs = foldr (\<lambda>b n. unat b + 256 * n) bs 0"

definition read_sadb_x_policy :: "byte list \<Rightarrow> SadbXPolicy" where
  "read_sadb_x_policy b =
     \<lparr>sp_len = of_nat (of_le (take 2 b)), sp_ExtType = of_nat (of_le (take 2 (drop 2 b))),
      sp_Type = of_nat (of_le (take 2 (drop 4 b))), sp_Direction = b ! 6, sp_Reserved = b ! 7,
      sp_PolicyId = of_nat (of_le (take 4 (drop 8 b))), sp_PolicyPriority = of_nat (of_le (take 4 (drop 12 b)))\<rparr>"

lemma unat_byte: "unat (ucast (drop_bit k v) :: byte) = unat v div 2 ^ k mod 256" for v :: "'a::len word"
proof -
  have "unat (drop_bit k v) = unat v div 2 ^ k" by (simp add: unat_drop_bit_eq drop_bit_eq_div [where 'a = nat])
  then show ?thesis by (simp only: unsigned_ucast_eq take_bit_eq_mod) simp
qed

lemma of_le_le16: "of_le (le16 v) = unat v"
proof -
  have lt: "unat v < 65536" using unsigned_less [of v] by simp
  have "of_le (le16 v) = unat v mod 256 + 256 * (unat v div 256 mod 256)"
    using unat_byte [of 0 v] unat_byte [of 8 v] by (simp add: of_le_def le16_def)
  also have "unat v div 256 mod 256 = unat v div 256" using lt by (simp add: less_mult_imp_div_less)
  finally show ?thesis by simp
qed

lemma of_le_le32: "of_le (le32 v) = unat v"
proof -
  let ?n = "unat v"
  have lt: "?n < 4294967296" using unsigned_less [of v] by simp
  have "of_le (le32 v) = ?n mod 256 + 256 * (?n div 256 mod 256 + 256 * (?n div 65536 mod 256 + 256 * (?n div 16777216 mod 256)))"
    using unat_byte [of 0 v] unat_byte [of 8 v] unat_byte [of 16 v] unat_byte [of 24 v] by (simp add: of_le_def le32_def)
  also have "?n div 16777216 mod 256 = ?n div 65536 div 256" using lt by (simp add: less_mult_imp_div_less div_mult2_eq [symmetric])
  also have "?n div 65536 mod 256 + 256 * (?n div 65536 div 256) = ?n div 65536" by (rule mod_mult_div_eq)
  also have "?n div 65536 = ?n div 256 div 256" by (simp add: div_mult2_eq [symmetric])
  also have "?n div 256 mod 256 + 256 * (?n div 256 div 256) = ?n div 256" by (rule mod_mult_div_eq)
  also have "?n mod 256 + 256 * (?n div 256) = ?n" by (rule mod_mult_div_eq)
  finally show ?thesis .
qed

lemma SadbXPolicy_Encode_bytes:
  "SadbXPolicy_Encode s = le16 2 @ le16 (sp_ExtType s) @ le16 (sp_Type s) @ [sp_Direction s, sp_Reserved s] @
     le32 (sp_PolicyId s) @ le32 (sp_PolicyPriority s)"
  by (simp add: SadbXPolicy_Encode_def put_def le16_def le32_def numeral_eq_Suc)

text \<open>
  C30: The encoding of a PF_KEY policy extension is what the kernel reads: it has 16 bytes, the
  length field gives its size in units of 8 bytes, and reading the fields back at their
  little-endian positions gives the policy that was encoded, whatever its fields are.
\<close>

theorem SadbXPolicy_Encode_roundtrip:
  "read_sadb_x_policy (SadbXPolicy_Encode s) = s\<lparr>sp_len := 2\<rparr> \<and>
   length (SadbXPolicy_Encode s) = 16 \<and>
   unat (sp_len (read_sadb_x_policy (SadbXPolicy_Encode s))) * 8 = length (SadbXPolicy_Encode s)"
proof -
  have len: "length (le16 a) = 2" "length (le32 b) = 4" for a b by (simp_all add: le16_def le32_def)
  have "read_sadb_x_policy (SadbXPolicy_Encode s) = s\<lparr>sp_len := 2\<rparr>"
    unfolding SadbXPolicy_Encode_bytes read_sadb_x_policy_def
    by (simp add: len nth_append of_le_le16 of_le_le32)
  then show ?thesis by (simp add: SadbXPolicy_Encode_bytes len)
qed

section \<open>File descriptors\<close>

text \<open>What the system calls do to the open descriptors of the process.\<close>

definition fd_kernel :: "'w sockets \<Rightarrow> ('w \<Rightarrow> int set) \<Rightarrow> bool" where
  "fd_kernel sys opened \<longleftrightarrow>
     (\<forall>d t p fd w w'. sys_Socket sys d t p w = (Inr fd, w') \<longrightarrow> fd \<notin> opened w \<and> opened w' = insert fd (opened w)) \<and>
     (\<forall>fd l opt b. keeps_ext opened (sys_SetsockoptString sys fd l opt b)) \<and>
     (\<forall>fd l opt v. keeps_ext opened (sys_SetsockoptInt sys fd l opt v)) \<and>
     (\<forall>fd port. keeps_ext opened (sys_Bind sys fd port)) \<and>
     (\<forall>fd w. fd \<in> opened w \<longrightarrow> (\<exists>w'. sys_Close sys fd w = (Inr (), w') \<and> opened w' = opened w - {fd}))"

lemma call_then:
  assumes "\<And>w. fst (f w) = Ret x \<or> (\<exists>e. fst (f w) = Err e)"
  shows "fst (bindM (wrapM msg (callM m)) (\<lambda>_. f) w) = Ret x \<or> (\<exists>e. fst (bindM (wrapM msg (callM m)) (\<lambda>_. f) w) = Err e)"
  using assms by (cases "m w"; cases "fst (m w)") (auto simp: bindM_def wrapM_def callM_def)

text \<open>
  NewUDPEncapListener never closes the socket it opened: once the socket exists, the
  descriptor is open after the call whatever the call returns.  On success the listener holds it;
  when one of the later steps fails (the port is taken, say) only an error is returned, so the
  descriptor is leaked.
\<close>

lemma NewUDPEncapListener_leaks:
  assumes ker: "fd_kernel sys opened" and socket: "sys_Socket sys AF_INET SOCK_DGRAM 0 w = (Inr fd, w1)"
    and run: "NewUDPEncapListener sys port w = (r, w')"
  shows "fd \<notin> opened w \<and> opened w' = insert fd (opened w) \<and> (r = Ret \<lparr>ul_fd = fd\<rparr> \<or> (\<exists>err. r = Err err))"
proof -
  define rest where "rest = (bindM (wrapM ''error setting IP_IPSEC_POLICY socket option (outbound): %v''
           (callM (sys_SetsockoptString sys fd SOL_IP IP_IPSEC_POLICY (SadbXPolicy_Encode (bypass_policy IPSEC_DIR_OUTBOUND))))) (\<lambda>_.
         bindM (wrapM ''error setting IP_IPSEC_POLICY socket option (inbound): %v''
             (callM (sys_SetsockoptString sys fd SOL_IP IP_IPSEC_POLICY (SadbXPolicy_Encode (bypass_policy IPSEC_DIR_INBOUND))))) (\<lambda>_.
           bindM (wrapM ''error setting UDP_ENCAP=UDP_ENCAP_ESPINUDP socket option: %v''
               (callM (sys_SetsockoptInt sys fd IPPROTO_UDP UDP_ENCAP UDP_ENCAP_ESPINUDP))) (\<lambda>_.
             bindM (wrapM ''error binding socket: %v'' (callM (sys_Bind sys fd port))) (\<lambda>_.
               retM \<lparr>ul_fd = fd\<rparr>)))))"
  have eq: "(r, w') = rest w1"
    using run by (simp add: NewUDPEncapListener_def bind_call_Inr [of "sys_Socket sys AF_INET SOCK_DGRAM 0", OF socket] rest_def)
  have "keeps opened rest" using ker by (auto simp: rest_def fd_kernel_def intro!: keeps_intros)
  then have "opened w' = opened w1" using keeps_snd [of opened rest w1] eq [symmetric] by simp
  moreover have "r = Ret \<lparr>ul_fd = fd\<rparr> \<or> (\<exists>err. r = Err err)"
  proof -
    have "fst (rest w1) = Ret \<lparr>ul_fd = fd\<rparr> \<or> (\<exists>e. fst (rest w1) = Err e)"
      unfolding rest_def by (intro call_then) simp
    then show ?thesis unfolding eq [symmetric] by simp
  qed
  moreover have "fd \<notin> opened w" "opened w1 = insert fd (opened w)"
    using ker socket by (simp_all add: fd_kernel_def)
  ultimately show ?thesis by simp
qed

definition ref_sockets :: "int \<Rightarrow> int set sockets" where
  "ref_sockets taken =
     \<lparr>sys_Socket = (\<lambda>_ _ _ w. if 3 \<in> w then (Inl (ExtErr ''too many open files''), w) else (Inr 3, insert 3 w)),
      sys_SetsockoptString = (\<lambda>_ _ _ _ w. (Inr (), w)), sys_SetsockoptInt = (\<lambda>_ _ _ _ w. (Inr (), w)),
      sys_Bind = (\<lambda>fd port w. if port = taken then (Inl (ExtErr ''address already in use''), w) else (Inr (), w)),
      sys_Close = (\<lambda>fd w. (Inr (), w - {fd}))\<rparr>"

lemma ref_fd_kernel: "fd_kernel (ref_sockets taken) (\<lambda>w. w)"
  by (auto simp: fd_kernel_def ref_sockets_def keeps_ext_def split: if_splits)

lemma NewUDPEncapListener_leaks_example:
  "\<exists>err w'. NewUDPEncapListener (ref_sockets 4500) 4500 {} = (Err err, w') \<and> w' = {3}"
proof -
  have "sys_Socket (ref_sockets 4500) AF_INET SOCK_DGRAM 0 {} = (Inr 3, {3})" by (simp add: ref_sockets_def)
  moreover obtain err w' where run: "NewUDPEncapListener (ref_sockets 4500) 4500 {} = (Err err, w')"
    by (simp add: NewUDPEncapListener_def ref_sockets_def bindM_def wrapM_def callM_def)
  ultimately show ?thesis using NewUDPEncapListener_leaks [OF ref_fd_kernel _ run] by auto
qed

text \<open>Closing a listener releases its descriptor once, unless the descriptor is number 0.\<close>

lemma UDPEncapListener_Close_releases:
  assumes "fd_kernel sys opened" and "ul_fd l \<in> opened w" and "ul_fd l \<noteq> 0"
  shows "\<exists>w'. UDPEncapListener_Close sys (l, w) = (Ret (), (\<lparr>ul_fd = 0\<rparr>, w')) \<and> opened w' = opened w - {ul_fd l} \<and>
    UDPEncapListener_Close sys (\<lparr>ul_fd = 0\<rparr>, w') = (Ret (), (\<lparr>ul_fd = 0\<rparr>, w'))"
proof -
  have "\<exists>w'. sys_Close sys (ul_fd l) w = (Inr (), w') \<and> opened w' = opened w - {ul_fd l}"
    using assms(1,2) by (simp add: fd_kernel_def)
  then obtain w' where "sys_Close sys (ul_fd l) w = (Inr (), w')" "opened w' = opened w - {ul_fd l}" by blast
  then show ?thesis using assms(3) by (cases l) (auto simp: UDPEncapListener_Close_def bindM_def wrapM_def callM_def)
qed

end
