(* ===== verification/Ipsec.thy ===== *)
theory Ipsec
  imports Provider Xfrm_Policy_Table Esp_Listener
begin

text \<open>
  The IPsec provider (\<^verbatim>\<open>src/pkg/routing/ipsec/ipsecrouting.go\<close>) and its strategies
  (\<^verbatim>\<open>authentication_strategy.go\<close>, \<^verbatim>\<open>encryption_strategy.go\<close>, \<^verbatim>\<open>encapsulation_strategy.go\<close>): security
  associations in both directions for every remote node, with SPIs computed from the pod
  networks, and the policies that use them.  The strategy interfaces are records of functions;
  running \<^verbatim>\<open>modprobe\<close> is a parameter.
\<close>

section \<open>The code\<close>

text \<open>Constants of the netlink and syscall packages.\<close>

definition XFRM_PROTO_ESP :: int where "XFRM_PROTO_ESP = 50"
definition XFRM_PROTO_AH :: int where "XFRM_PROTO_AH = 51"
definition XFRM_MODE_TUNNEL :: int where "XFRM_MODE_TUNNEL = 1"
definition XFRM_DIR_IN :: int where "XFRM_DIR_IN = 0"
definition XFRM_DIR_OUT :: int where "XFRM_DIR_OUT = 1"
definition XFRM_DIR_FWD :: int where "XFRM_DIR_FWD = 2"
definition XFRM_SOCKET_IN :: int where "XFRM_SOCKET_IN = 3"
definition XFRM_SOCKET_OUT :: int where "XFRM_SOCKET_OUT = 4"
definition XFRM_ENCAP_ESPINUDP :: int where "XFRM_ENCAP_ESPINUDP = 2"

definition XFRM_PROTO_UDP :: int where "XFRM_PROTO_UDP = IPPROTO_UDP"

definition ipnetAll :: ipnet where
  "ipnetAll = \<lparr>ipn_IP = IPv4 0 0 0 0, ipn_Mask = IPv4Mask 0 0 0 0\<rparr>"

definition noLimits :: xfrmStateLimits where
  "noLimits =
     \<lparr>xl_ByteSoft = 0xffffffffffffffff, xl_ByteHard = 0xffffffffffffffff,
      xl_PacketSoft = 0xffffffffffffffff, xl_PacketHard = 0xffffffffffffffff,
      xl_TimeSoft = 0, xl_TimeHard = 0, xl_TimeUseSoft = 0, xl_TimeUseHard = 0\<rparr>"

definition zero_state :: xfrmState where
  "zero_state =
     \<lparr>xs_Dst = None, xs_Src = None, xs_Proto = 0, xs_Mode = 0, xs_Spi = 0, xs_Reqid = 0, xs_ReplayWindow = 0,
      xs_Limits = \<lparr>xl_ByteSoft = 0, xl_ByteHard = 0, xl_PacketSoft = 0, xl_PacketHard = 0,
        xl_TimeSoft = 0, xl_TimeHard = 0, xl_TimeUseSoft = 0, xl_TimeUseHard = 0\<rparr>,
      xs_Mark = None, xs_Auth = None, xs_Crypt = None, xs_Aead = None, xs_Encap = None\<rparr>"

definition zero_policy :: xfrmPolicy where
  "zero_policy =
     \<lparr>xp_Dst = None, xp_Src = None, xp_Proto = 0, xp_DstPort = 0, xp_SrcPort = 0, xp_Dir = 0, xp_Priority = 0,
      xp_Index = 0, xp_Mark = None, xp_Tmpls = []\<rparr>"

subsection \<open>The strategies\<close>

record AuthenticationStrategy =
  auth_Apply :: "xfrmState \<Rightarrow> NodeInfo \<Rightarrow> NodeInfo \<Rightarrow> xfrmState"
  auth_UseAH :: bool

record EncryptionStrategy =
  encr_Apply :: "xfrmState \<Rightarrow> NodeInfo \<Rightarrow> NodeInfo \<Rightarrow> xfrmState"
  encr_UseESP :: bool

record EncapsulationStrategy =
  encap_Apply :: "xfrmState \<Rightarrow> NodeInfo \<Rightarrow> NodeInfo \<Rightarrow> xfrmState"

definition HmacSha1AuthenticationStrategy :: AuthenticationStrategy where
  "HmacSha1AuthenticationStrategy =
     \<lparr>auth_Apply = (\<lambda>s src dest. s\<lparr>xs_Auth := Some \<lparr>xa_Name = ''hmac(sha1)'',
        xa_Key = [0x1, 0x2, 0x3, 0x4, 0x5, 0x6, 0x7, 0x8, 0x9, 0xa], xa_TruncateLen = 96, xa_ICVLen = 0\<rparr>\<rparr>),
      auth_UseAH = True\<rparr>"

definition PlaintextAuthenticationStrategy :: AuthenticationStrategy where
  "PlaintextAuthenticationStrategy =
     \<lparr>auth_Apply = (\<lambda>s src dest. s\<lparr>xs_Auth := Some \<lparr>xa_Name = ''digest_null'', xa_Key = [], xa_TruncateLen = 0, xa_ICVLen = 0\<rparr>\<rparr>),
      auth_UseAH = True\<rparr>"

definition AesEncryptionStrategy :: EncryptionStrategy where
  "AesEncryptionStrategy =
     \<lparr>encr_Apply = (\<lambda>s src dest. s\<lparr>xs_Crypt := Some \<lparr>xa_Name = ''rfc3686(ctr(aes))'',
        xa_Key = [0x4, 0x5, 0x9, 0x4, 0x3, 0x6, 0x7, 0x8, 0x9, 0xa, 0x4, 0x5, 0x9, 0x4, 0x3, 0x6, 0x7, 0x8, 0x9, 0xa],
        xa_TruncateLen = 0, xa_ICVLen = 0\<rparr>\<rparr>),
      encr_UseESP = True\<rparr>"

definition PlaintextEncryptionStrategy :: EncryptionStrategy where
  "PlaintextEncryptionStrategy =
     \<lparr>encr_Apply = (\<lambda>s src dest. s\<lparr>xs_Crypt := Some \<lparr>xa_Name = ''ecb(cipher_null)'', xa_Key = [], xa_TruncateLen = 0, xa_ICVLen = 0\<rparr>\<rparr>),
      encr_UseESP = True\<rparr>"

definition UdpEncapsulationStrategy :: EncapsulationStrategy where
  "UdpEncapsulationStrategy =
     \<lparr>encap_Apply = (\<lambda>s src dest. s\<lparr>xs_Encap := Some \<lparr>xe_Type = XFRM_ENCAP_ESPINUDP, xe_SrcPort = 4500, xe_DstPort = 4500,
        xe_OriginalAddress = IPv4 0 0 0 0\<rparr>\<rparr>)\<rparr>"

definition EspEncapsulationStrategy :: EncapsulationStrategy where
  "EspEncapsulationStrategy = \<lparr>encap_Apply = (\<lambda>s src dest. s)\<rparr>"

subsection \<open>Construction\<close>

record IpsecRoutingProvider =
  ip_authenticationStrategy :: AuthenticationStrategy
  ip_encryptionStrategy :: EncryptionStrategy
  ip_encapsulationStrategy :: EncapsulationStrategy
  ip_udpEncapListener :: "UDPEncapListener option"
  ip_lastVersionApplied :: "64 word"

definition doModprobe :: "(string \<Rightarrow> ('w, string) ext) \<Rightarrow> ('w, unit) io" where
  "doModprobe modprobe =
     forM (\<lambda>module. bindM (wrapM ''modprobe for module %q failed (%v): %s'' (callM (modprobe module))) (\<lambda>out. retM ()))
       [''af_key'', ''ah4'', ''ipcomp'', ''xfrm4_tunnel'']"

definition NewIpsecRoutingProvider ::
  "'w sockets \<Rightarrow> (string \<Rightarrow> ('w, string) ext) \<Rightarrow> AuthenticationStrategy \<Rightarrow> EncryptionStrategy \<Rightarrow> EncapsulationStrategy \<Rightarrow>
   ('w, IpsecRoutingProvider) io"
where
  "NewIpsecRoutingProvider sys modprobe authn encr encap =
     bindM (doModprobe modprobe) (\<lambda>_.
       bindM (wrapM ''error creating UDP encapsulation listener on port %d: %v'' (NewUDPEncapListener sys 4500)) (\<lambda>listener.
         retM \<lparr>ip_authenticationStrategy = authn, ip_encryptionStrategy = encr, ip_encapsulationStrategy = encap,
           ip_udpEncapListener = Some listener, ip_lastVersionApplied = 0\<rparr>))"

definition Ipsec_Flush :: "'w netlink \<Rightarrow> ('w, unit) io" where
  "Ipsec_Flush nl =
     tryM (XfrmPolicyTable_Flush nl) (\<lambda>err. throwM (Errorf ''error flushing xfrm policy table'' None)) (\<lambda>_.
       tryM (XfrmStateTable_Flush nl) (\<lambda>err. throwM (Errorf ''error flushing xfrm policy table'' None)) retM)"

definition Ipsec_Close :: "'w sockets \<Rightarrow> (IpsecRoutingProvider \<times> 'w, unit) io" where
  "Ipsec_Close sys =
     (\<lambda>(p, w). case ip_udpEncapListener p of
        None \<Rightarrow> (Ret (), (p, w))
      | Some l \<Rightarrow>
          (case UDPEncapListener_Close sys (l, w) of
             (Ret _, (l', w')) \<Rightarrow> (Ret (), (p\<lparr>ip_udpEncapListener := None\<rparr>, w'))
           | (r, (l', w')) \<Rightarrow> (r, (p\<lparr>ip_udpEncapListener := Some l'\<rparr>, w'))))"

subsection \<open>Node numerals and SPIs\<close>

definition be32 :: "byte list \<Rightarrow> 32 word" where
  "be32 b = push_bit 24 (ucast (b ! 0)) OR push_bit 16 (ucast (b ! 1)) OR push_bit 8 (ucast (b ! 2)) OR ucast (b ! 3)"

definition computeNodeNumeral :: "ipnet \<Rightarrow> gerr + 32 word" where
  "computeNodeNumeral podCIDR =
     (case To4 (ipn_IP podCIDR) of
        None \<Rightarrow> Inl (Errorf ''expected IPv4 PodCidr %q'' None)
      | Some podCIDRv4 \<Rightarrow>
          (let v = be32 podCIDRv4; (ones, bits) = IPMask_Size (ipn_Mask podCIDR)
           in Inr (drop_bit (bits - ones) v AND 0x3fff)))"

definition ipsec_spi :: "32 word \<Rightarrow> 32 word \<Rightarrow> 32 word \<Rightarrow> int" where
  "ipsec_spi srcNumeral dstNumeral k = uint (0xc0000000 OR push_bit 16 srcNumeral OR push_bit 2 dstNumeral OR k)"

definition ipToIpnet :: "ip \<Rightarrow> ipnet" where
  "ipToIpnet ip = \<lparr>ipn_IP = ip, ipn_Mask = IPv4Mask 255 255 255 255\<rparr>"

subsection \<open>The expected security associations\<close>

definition ipsec_ah ::
  "IpsecRoutingProvider \<Rightarrow> NodeInfo \<Rightarrow> 32 word \<Rightarrow> NodeInfo \<Rightarrow> 32 word \<Rightarrow> int \<Rightarrow> xfrmState"
where
  "ipsec_ah p me meNodeNumeral remote remoteNodeNumeral dir =
     (let s = zero_state\<lparr>xs_Proto := XFRM_PROTO_AH, xs_Mode := XFRM_MODE_TUNNEL, xs_Limits := noLimits\<rparr> in
      if dir = XFRM_DIR_OUT
      then auth_Apply (ip_authenticationStrategy p)
        (s\<lparr>xs_Src := ni_Address me, xs_Dst := ni_Address remote, xs_Spi := ipsec_spi meNodeNumeral remoteNodeNumeral 0\<rparr>) me remote
      else auth_Apply (ip_authenticationStrategy p)
        (s\<lparr>xs_Src := ni_Address remote, xs_Dst := ni_Address me, xs_Spi := ipsec_spi remoteNodeNumeral meNodeNumeral 0\<rparr>) remote me)"

definition ipsec_esp ::
  "IpsecRoutingProvider \<Rightarrow> NodeInfo \<Rightarrow> 32 word \<Rightarrow> NodeInfo \<Rightarrow> 32 word \<Rightarrow> int \<Rightarrow> xfrmState"
where
  "ipsec_esp p me meNodeNumeral remote remoteNodeNumeral dir =
     (let s = zero_state\<lparr>xs_Proto := XFRM_PROTO_ESP, xs_Mode := XFRM_MODE_TUNNEL, xs_Limits := noLimits\<rparr> in
      if dir = XFRM_DIR_OUT
      then encap_Apply (ip_encapsulationStrategy p) (encr_Apply (ip_encryptionStrategy p)
        (s\<lparr>xs_Src := ni_Address me, xs_Dst := ni_Address remote, xs_Spi := ipsec_spi meNodeNumeral remoteNodeNumeral 1\<rparr>) me remote) me remote
      else encap_Apply (ip_encapsulationStrategy p) (encr_Apply (ip_encryptionStrategy p)
        (s\<lparr>xs_Src := ni_Address remote, xs_Dst := ni_Address me, xs_Spi := ipsec_spi remoteNodeNumeral meNodeNumeral 1\<rparr>) remote me) remote me)"

definition ipsec_node_states ::
  "IpsecRoutingProvider \<Rightarrow> NodeInfo \<Rightarrow> 32 word \<Rightarrow> NodeInfo \<Rightarrow> 32 word \<Rightarrow> xfrmState list"
where
  "ipsec_node_states p me meNodeNumeral remote remoteNodeNumeral =
     concat (map (\<lambda>dir.
       (if auth_UseAH (ip_authenticationStrategy p) then [ipsec_ah p me meNodeNumeral remote remoteNodeNumeral dir] else []) @
       (if encr_UseESP (ip_encryptionStrategy p) then [ipsec_esp p me meNodeNumeral remote remoteNodeNumeral dir] else []))
       [XFRM_DIR_IN, XFRM_DIR_OUT])"

fun ipsec_states :: "IpsecRoutingProvider \<Rightarrow> NodeInfo \<Rightarrow> 32 word \<Rightarrow> NodeInfo list \<Rightarrow> xfrmState list \<Rightarrow> gerr + xfrmState list" where
  "ipsec_states p me meNodeNumeral [] expected = Inr expected"
| "ipsec_states p me meNodeNumeral (remote # rs) expected =
     (case ni_PodCIDR remote of
        None \<Rightarrow> ipsec_states p me meNodeNumeral rs expected
      | Some cidr \<Rightarrow>
          (case computeNodeNumeral cidr of
             Inl err \<Rightarrow> Inl err
           | Inr remoteNodeNumeral \<Rightarrow>
               ipsec_states p me meNodeNumeral rs (expected @ ipsec_node_states p me meNodeNumeral remote remoteNodeNumeral)))"

subsection \<open>The expected policies\<close>

definition ipsec_udp_policies :: "xfrmPolicy list" where
  "ipsec_udp_policies =
     map (\<lambda>dir. zero_policy\<lparr>xp_Src := Some ipnetAll, xp_Dst := Some ipnetAll, xp_DstPort := 4500, xp_Dir := dir,
       xp_Proto := XFRM_PROTO_UDP, xp_Priority := 200\<rparr>) [XFRM_DIR_IN, XFRM_DIR_OUT, XFRM_DIR_FWD]"

definition ipsec_socket_policies :: "xfrmPolicy list" where
  "ipsec_socket_policies =
     map (\<lambda>dir. zero_policy\<lparr>xp_Src := Some ipnetAll, xp_Dst := Some ipnetAll, xp_Dir := dir, xp_Priority := 0\<rparr>)
       [XFRM_SOCKET_IN, XFRM_SOCKET_OUT]"

definition ipsec_tunnel_policy ::
  "NodeInfo \<Rightarrow> NodeInfo \<Rightarrow> ipnet option \<Rightarrow> ipnet option \<Rightarrow> int \<Rightarrow> xfrmPolicy"
where
  "ipsec_tunnel_policy me remote meNet remoteNet dir =
     zero_policy\<lparr>xp_Src := (if dir = XFRM_DIR_OUT then meNet else remoteNet),
       xp_Dst := (if dir = XFRM_DIR_OUT then remoteNet else meNet),
       xp_Dir := dir, xp_Priority := 100,
       xp_Tmpls := [\<lparr>xt_Dst = (if dir = XFRM_DIR_OUT then ni_Address remote else ni_Address me),
         xt_Src = (if dir = XFRM_DIR_OUT then ni_Address me else ni_Address remote),
         xt_Proto = XFRM_PROTO_ESP, xt_Mode = XFRM_MODE_TUNNEL, xt_Spi = 0, xt_Reqid = 0\<rparr>]\<rparr>"

definition ipsec_node_policies :: "NodeInfo \<Rightarrow> NodeInfo \<Rightarrow> xfrmPolicy list" where
  "ipsec_node_policies me remote =
     map (ipsec_tunnel_policy me remote (ni_PodCIDR me) (ni_PodCIDR remote)) [XFRM_DIR_IN, XFRM_DIR_OUT, XFRM_DIR_FWD] @
     map (ipsec_tunnel_policy me remote (ni_PodCIDR me) (Some (ipToIpnet (ni_Address remote)))) [XFRM_DIR_IN, XFRM_DIR_OUT, XFRM_DIR_FWD] @
     map (ipsec_tunnel_policy me remote (Some (ipToIpnet (ni_Address me))) (ni_PodCIDR remote)) [XFRM_DIR_IN, XFRM_DIR_OUT, XFRM_DIR_FWD]"

definition ipsec_policies :: "NodeInfo \<Rightarrow> NodeInfo list \<Rightarrow> xfrmPolicy list" where
  "ipsec_policies me allNodes =
     ipsec_udp_policies @ ipsec_socket_policies @ concat (map (ipsec_node_policies me) (remotes me allNodes))"

subsection \<open>EnsureCIDRs\<close>

definition Ipsec_EnsureCIDRs ::
  "'w netlink \<Rightarrow> (string \<times> nat) order \<Rightarrow> (int \<times> xfrmState) order \<Rightarrow> (int \<times> xfrmState) order \<Rightarrow>
   NodeMap \<Rightarrow> (IpsecRoutingProvider \<times> 'w, unit) io"
where
  "Ipsec_EnsureCIDRs nl ordS ordE ordA nodeMap =
     bindM getP (\<lambda>p.
       if up_to_date (ip_lastVersionApplied p) nodeMap then retM ()
       else case Snapshot ordS nodeMap of
         (None, allNodes, version) \<Rightarrow> throwM no_local_node
       | (Some me, allNodes, version) \<Rightarrow>
           (case ni_PodCIDR me of
              None \<Rightarrow> throwM (Errorf ''No CIDR assigned to local node; cannot configure tunnels'' None)
            | Some cidr \<Rightarrow>
                if ni_Address me = None
                then throwM (Errorf ''No Address assigned to local node; cannot configure tunnels'' None)
                else
                  (case computeNodeNumeral cidr of
                     Inl err \<Rightarrow> throwM err
                   | Inr meNodeNumeral \<Rightarrow>
                       (case ipsec_states p me meNodeNumeral (remotes me allNodes) [] of
                          Inl err \<Rightarrow> throwM err
                        | Inr expected \<Rightarrow>
                            bindM (wrapM ''error applying xfrm state: %v'' (liftW (XfrmStateTable_Ensure nl ordE ordA expected))) (\<lambda>_.
                              bindM (wrapM ''error applying xfrm policy: %v'' (liftW (XfrmPolicyTable_Ensure nl (ipsec_policies me allNodes))))
                                (\<lambda>_. bindM getP (\<lambda>p. putP (p\<lparr>ip_lastVersionApplied := version\<rparr>))))))))"

section \<open>The provider contract\<close>

definition ipsec_action ::
  "'w netlink \<Rightarrow> (int \<times> xfrmState) order \<Rightarrow> (int \<times> xfrmState) order \<Rightarrow> NodeInfo \<Rightarrow> NodeInfo list \<Rightarrow>
   (IpsecRoutingProvider \<times> 'w, unit) io"
where
  "ipsec_action nl ordE ordA me allNodes =
     bindM getP (\<lambda>p.
       case ni_PodCIDR me of
         None \<Rightarrow> throwM (Errorf ''No CIDR assigned to local node; cannot configure tunnels'' None)
       | Some cidr \<Rightarrow>
           if ni_Address me = None
           then throwM (Errorf ''No Address assigned to local node; cannot configure tunnels'' None)
           else
             (case computeNodeNumeral cidr of
                Inl err \<Rightarrow> throwM err
              | Inr meNodeNumeral \<Rightarrow>
                  (case ipsec_states p me meNodeNumeral (remotes me allNodes) [] of
                     Inl err \<Rightarrow> throwM err
                   | Inr expected \<Rightarrow>
                       bindM (wrapM ''error applying xfrm state: %v'' (liftW (XfrmStateTable_Ensure nl ordE ordA expected))) (\<lambda>_.
                         wrapM ''error applying xfrm policy: %v'' (liftW (XfrmPolicyTable_Ensure nl (ipsec_policies me allNodes)))))))"

lemma Ipsec_steps:
  "Ipsec_EnsureCIDRs nl ordS ordE ordA =
   ensure_steps ip_lastVersionApplied (\<lambda>v. ip_lastVersionApplied_update (\<lambda>_. v)) (ipsec_action nl ordE ordA) ordS"
  by (auto simp: fun_eq_iff Ipsec_EnsureCIDRs_def ensure_steps_def ipsec_action_def bindM_assoc
      split: prod.split option.split sum.split)

interpretation ipsec: routing_provider "Ipsec_EnsureCIDRs nl ordS ordE ordA" ip_lastVersionApplied
  for nl :: "'w netlink" and ordS ordE ordA
  unfolding Ipsec_steps
  by (rule routing_provider_steps) (auto simp: ipsec_action_def intro!: keeps_intros split: option.split sum.split)

section \<open>Numerals and SPIs\<close>

lemma or_shift: "y < 2 ^ k \<Longrightarrow> push_bit k x OR y = x * 2 ^ k + y" for x y :: nat
proof -
  assume "y < 2 ^ k"
  then have y: "take_bit k y = y" by (simp add: take_bit_nat_eq_self)
  have "push_bit k x AND take_bit k y = 0"
    by (rule bit_eqI) (auto simp: bit_and_iff bit_push_bit_iff bit_take_bit_iff)
  then have "push_bit k x + y = push_bit k x OR y" using disjunctive_add_eq_or [of "push_bit k x" y] y by simp
  then show ?thesis by (simp add: push_bit_eq_mult)
qed

lemma unat_or_shift:
  "unat (push_bit k a OR b) = unat a * 2 ^ k + unat b" if "unat b < 2 ^ k" "unat a * 2 ^ k < 2 ^ 32" for a b :: "32 word"
proof -
  have "unat (push_bit k a) = push_bit k (unat a)"
    using that(2) by (simp add: unsigned_push_bit_eq take_bit_nat_eq_self push_bit_eq_mult [where 'a = nat])
  then show ?thesis by (simp add: unsigned_or_eq or_shift [OF that(1)])
qed

lemma unat_be32: "unat (be32 [a, b, c, d]) = unat a * 2 ^ 24 + unat b * 2 ^ 16 + unat c * 2 ^ 8 + unat d"
proof -
  have lt: "unat x < 256" for x :: byte using unsigned_less [of x] by simp
  have uc: "unat (ucast x :: 32 word) = unat x" for x :: byte
    using lt [of x] by (simp add: unsigned_ucast_eq take_bit_nat_eq_self)
  let ?w = "\<lambda>x :: byte. ucast x :: 32 word"
  have 1: "unat (push_bit 8 (?w c) OR ?w d) = unat c * 2 ^ 8 + unat d"
    using lt [of c] lt [of d] unat_or_shift [of "?w d" 8 "?w c"] by (simp add: uc)
  have 2: "unat (push_bit 16 (?w b) OR push_bit 8 (?w c) OR ?w d) = unat b * 2 ^ 16 + (unat c * 2 ^ 8 + unat d)"
    using lt [of b] lt [of c] lt [of d] unat_or_shift [of "push_bit 8 (?w c) OR ?w d" 16 "?w b"] by (simp add: uc 1)
  show ?thesis
    using lt [of a] lt [of b] lt [of c] lt [of d]
      unat_or_shift [of "push_bit 16 (?w b) OR push_bit 8 (?w c) OR ?w d" 24 "?w a"] by (simp add: be32_def uc 2)
qed

lemma numeral_value:
  assumes "To4 (ipn_IP cidr) = Some [a, b, c, d]" and "IPMask_Size (ipn_Mask cidr) = (ones, bits)"
  shows "\<exists>n. computeNodeNumeral cidr = Inr n \<and> unat n < 2 ^ 14 \<and>
    unat n = (unat a * 2 ^ 24 + unat b * 2 ^ 16 + unat c * 2 ^ 8 + unat d) div 2 ^ (bits - ones) mod 2 ^ 14"
proof -
  have mask: "v AND 0x3fff = take_bit 14 v" for v :: "32 word"
  proof -
    have "(0x3fff :: 32 word) = mask 14" by (simp add: mask_eq_exp_minus_1)
    then show ?thesis by (simp only: take_bit_eq_mask)
  qed
  have "unat (take_bit 14 (drop_bit k v)) = unat v div 2 ^ k mod 2 ^ 14" for v :: "32 word" and k
    by (simp add: unsigned_take_bit_eq unat_drop_bit_eq take_bit_eq_mod [where 'a = nat] drop_bit_eq_div [where 'a = nat])
  then show ?thesis using assms unat_be32 [of a b c d] by (simp add: computeNodeNumeral_def mask)
qed

text \<open>
  C20: The numeral of an IPv4 pod network is the number of the network among the networks of its
  size, modulo 2 to the power 14: the address as a big-endian number, without its host bits, cut
  to 14 bits.  So it is below 2 to the power 14, and two networks of one size share a numeral
  exactly when their numbers agree modulo 2 to the power 14.
\<close>

theorem computeNodeNumeral_value:
  assumes "To4 (ipn_IP cidr) = Some [a, b, c, d]" and "IPMask_Size (ipn_Mask cidr) = (ones, bits)"
  shows "\<exists>n. computeNodeNumeral cidr = Inr n \<and> unat n < 2 ^ 14 \<and>
    unat n = (unat a * 2 ^ 24 + unat b * 2 ^ 16 + unat c * 2 ^ 8 + unat d) div 2 ^ (bits - ones) mod 2 ^ 14"
  by (rule numeral_value [OF assms])

lemma ipsec_spi_value:
  assumes "unat a < 2 ^ 14" "unat b < 2 ^ 14" "unat k < 4"
  shows "ipsec_spi a b k = 0xc0000000 + int (unat a) * 2 ^ 16 + int (unat b) * 4 + int (unat k)"
proof -
  have 1: "unat (push_bit 2 b OR k) = unat b * 4 + unat k" using assms unat_or_shift [of k 2 b] by simp
  have 2: "unat (push_bit 16 a OR push_bit 2 b OR k) = unat a * 2 ^ 16 + (unat b * 4 + unat k)"
    using assms unat_or_shift [of "push_bit 2 b OR k" 16 a] by (simp add: 1)
  have "(0xc0000000 :: 32 word) = push_bit 30 3" by (simp add: push_bit_eq_mult)
  then have "unat (0xc0000000 OR push_bit 16 a OR push_bit 2 b OR k) = 3 * 2 ^ 30 + (unat a * 2 ^ 16 + (unat b * 4 + unat k))"
    using assms unat_or_shift [of "push_bit 16 a OR push_bit 2 b OR k" 30 3] by (simp only:) (simp add: 2)
  then show ?thesis unfolding ipsec_spi_def uint_nat by simp
qed

lemma spi_fields:
  fixes x y z :: int
  assumes "0 \<le> x" "x < 2 ^ 14" "0 \<le> y" "y < 2 ^ 14" "0 \<le> z" "z < 4"
  defines "s \<equiv> 0xc0000000 + x * 2 ^ 16 + y * 4 + z"
  shows "0xc0000000 \<le> s" "s < 2 ^ 32" "s div 2 ^ 16 mod 2 ^ 14 = x" "s div 4 mod 2 ^ 14 = y" "s mod 4 = z"
proof -
  have "s = (y * 4 + z) + (49152 + x) * 2 ^ 16" by (simp add: s_def algebra_simps)
  then have "s div 2 ^ 16 = (y * 4 + z) div 2 ^ 16 + (49152 + x)" by (simp only: div_mult_self1) simp
  also have "(y * 4 + z) div 2 ^ 16 = 0" using assms(3-6) by (simp add: div_pos_pos_trivial)
  finally have "s div 2 ^ 16 = x + 3 * 2 ^ 14" by simp
  then have "s div 2 ^ 16 mod 2 ^ 14 = x mod 2 ^ 14" by (simp only: mod_mult_self1)
  then show "s div 2 ^ 16 mod 2 ^ 14 = x" using assms(1,2) by simp
  have eq: "s = z + (y + (49152 + x) * 2 ^ 14) * 4" by (simp add: s_def algebra_simps)
  then have "s div 4 = z div 4 + (y + (49152 + x) * 2 ^ 14)" by simp
  then have "s div 4 = y + (49152 + x) * 2 ^ 14" using assms(5,6) by simp
  then have "s div 4 mod 2 ^ 14 = y mod 2 ^ 14" by (simp only: mod_mult_self1)
  then show "s div 4 mod 2 ^ 14 = y" using assms(3,4) by simp
  have "s mod 4 = z mod 4" unfolding eq by (rule mod_mult_self1)
  then show "s mod 4 = z" using assms(5,6) by simp
  show "0xc0000000 \<le> s" "s < 2 ^ 32" using assms by (simp_all add: s_def)
qed

lemma spi_back:
  assumes "unat a < 2 ^ 14" "unat b < 2 ^ 14" "unat k < 4"
  shows "0xc0000000 \<le> ipsec_spi a b k \<and> ipsec_spi a b k < 2 ^ 32 \<and>
    ipsec_spi a b k div 2 ^ 16 mod 2 ^ 14 = uint a \<and> ipsec_spi a b k div 4 mod 2 ^ 14 = uint b \<and>
    ipsec_spi a b k mod 4 = uint k"
proof -
  have u: "uint x = int (unat x)" for x :: "32 word" by simp
  have lt: "n < 2 ^ 14 \<Longrightarrow> 0 \<le> int n \<and> int n < 2 ^ 14" "n < 4 \<Longrightarrow> 0 \<le> int n \<and> int n < 4" for n by simp_all
  show ?thesis
    unfolding ipsec_spi_value [OF assms] u
    using spi_fields [of "int (unat a)" "int (unat b)" "int (unat k)"] lt(1) [OF assms(1)] lt(1) [OF assms(2)] lt(2) [OF assms(3)]
    by blast
qed

text \<open>
  C19: The SPI of an association encodes who talks to whom: for numerals below 2 to the power 14
  and a kind below 4, the SPI is a 32-bit number with the two top bits set from which the source
  numeral, the destination numeral and the kind can be read back, so different triples have
  different SPIs.
\<close>

theorem ipsec_spi_roundtrip:
  assumes "unat a < 2 ^ 14" "unat b < 2 ^ 14" "unat k < 4"
  shows "0xc0000000 \<le> ipsec_spi a b k \<and> ipsec_spi a b k < 2 ^ 32 \<and>
    ipsec_spi a b k div 2 ^ 16 mod 2 ^ 14 = uint a \<and> ipsec_spi a b k div 4 mod 2 ^ 14 = uint b \<and>
    ipsec_spi a b k mod 4 = uint k"
  by (rule spi_back [OF assms])

section \<open>The associations of a cluster\<close>

text \<open>The numeral of a node whose pod network is IPv4.\<close>

definition ipsec_node :: "NodeInfo \<Rightarrow> bool" where
  "ipsec_node n \<longleftrightarrow> ni_PodCIDR n \<noteq> None \<and> To4 (ipn_IP (the (ni_PodCIDR n))) \<noteq> None"

definition numeral_of :: "NodeInfo \<Rightarrow> 32 word" where
  "numeral_of n = (case computeNodeNumeral (the (ni_PodCIDR n)) of Inr v \<Rightarrow> v | Inl _ \<Rightarrow> 0)"

lemma computeNodeNumeral_node: "ipsec_node n \<Longrightarrow> computeNodeNumeral (the (ni_PodCIDR n)) = Inr (numeral_of n)"
  by (auto simp: ipsec_node_def numeral_of_def computeNodeNumeral_def split: prod.split)

lemma unat_numeral_of: "unat (numeral_of n) < 2 ^ 14"
proof -
  have "unat (v AND 0x3fff :: 32 word) < 2 ^ 14" for v
  proof -
    have "v AND 0x3fff \<le> (0x3fff :: 32 word)" by (rule word_and_le1)
    then have "unat (v AND 0x3fff) \<le> 0x3fff" by (simp add: word_le_nat_alt)
    then show ?thesis by simp
  qed
  then show ?thesis by (auto simp: numeral_of_def computeNodeNumeral_def split: option.split prod.split)
qed

lemma ipsec_states_run:
  assumes "\<forall>r \<in> set rs. ipsec_node r"
  shows "ipsec_states p me m rs acc = Inr (acc @ concat (map (\<lambda>r. ipsec_node_states p me m r (numeral_of r)) rs))"
  using assms
proof (induction rs arbitrary: acc)
  case (Cons r rs)
  then obtain cidr where "ni_PodCIDR r = Some cidr" by (auto simp: ipsec_node_def)
  then show ?case using Cons computeNodeNumeral_node [of r] by simp
qed simp

text \<open>A strategy sets keys and the like, never what identifies the association.\<close>

definition strategy_ok :: "IpsecRoutingProvider \<Rightarrow> bool" where
  "strategy_ok p \<longleftrightarrow> (\<forall>s a b f. f \<in> {auth_Apply (ip_authenticationStrategy p), encr_Apply (ip_encryptionStrategy p),
       encap_Apply (ip_encapsulationStrategy p)} \<longrightarrow>
     xs_Spi (f s a b) = xs_Spi s \<and> xs_Proto (f s a b) = xs_Proto s \<and> xs_Src (f s a b) = xs_Src s \<and> xs_Dst (f s a b) = xs_Dst s)"

lemma strategies_ok:
  assumes "ip_authenticationStrategy p \<in> {HmacSha1AuthenticationStrategy, PlaintextAuthenticationStrategy}"
    and "ip_encryptionStrategy p \<in> {AesEncryptionStrategy, PlaintextEncryptionStrategy}"
    and "ip_encapsulationStrategy p \<in> {UdpEncapsulationStrategy, EspEncapsulationStrategy}"
  shows "strategy_ok p"
  using assms
  by (auto simp: strategy_ok_def HmacSha1AuthenticationStrategy_def PlaintextAuthenticationStrategy_def
      AesEncryptionStrategy_def PlaintextEncryptionStrategy_def UdpEncapsulationStrategy_def EspEncapsulationStrategy_def)

definition spi_kinds :: "IpsecRoutingProvider \<Rightarrow> 32 word list" where
  "spi_kinds p = (if auth_UseAH (ip_authenticationStrategy p) then [0] else []) @
     (if encr_UseESP (ip_encryptionStrategy p) then [1] else [])"

definition spi_triples :: "IpsecRoutingProvider \<Rightarrow> 32 word \<Rightarrow> 32 word \<Rightarrow> (32 word \<times> 32 word \<times> 32 word) list" where
  "spi_triples p m n = map (\<lambda>k. (n, m, k)) (spi_kinds p) @ map (\<lambda>k. (m, n, k)) (spi_kinds p)"

lemma node_spis:
  assumes "strategy_ok p"
  shows "map xs_Spi (ipsec_node_states p me m r n) = map (\<lambda>(a, b, k). ipsec_spi a b k) (spi_triples p m n)"
  using assms
  by (auto simp: ipsec_node_states_def ipsec_ah_def ipsec_esp_def spi_triples_def spi_kinds_def strategy_ok_def
      XFRM_DIR_IN_def XFRM_DIR_OUT_def Let_def)

lemma distinct_triples:
  assumes "spi_kinds p \<noteq> []"
  shows "distinct (concat (map (spi_triples p m) ns)) \<longleftrightarrow> distinct (m # ns)"
proof (induction ns)
  case (Cons n ns)
  obtain k where k: "k \<in> set (spi_kinds p)" using assms by (cases "spi_kinds p") auto
  have own: "distinct (spi_triples p m n) \<longleftrightarrow> n \<noteq> m"
    using assms by (auto simp: spi_triples_def spi_kinds_def split: if_splits)
  have "set (spi_triples p m n) \<inter> set (concat (map (spi_triples p m) ns)) = {} \<longleftrightarrow> n \<notin> set ns" if "n \<noteq> m" "m \<notin> set ns"
  proof
    assume "set (spi_triples p m n) \<inter> set (concat (map (spi_triples p m) ns)) = {}"
    then show "n \<notin> set ns" using k by (auto simp: spi_triples_def)
  next
    assume "n \<notin> set ns"
    then show "set (spi_triples p m n) \<inter> set (concat (map (spi_triples p m) ns)) = {}"
      using that by (auto simp: spi_triples_def)
  qed
  then show ?case using Cons.IH own by auto
qed simp

lemma distinct_spis:
  assumes ok: "strategy_ok p" and kinds: "spi_kinds p \<noteq> []" and m: "unat m < 2 ^ 14"
  shows "distinct (map xs_Spi (concat (map (\<lambda>r. ipsec_node_states p me m r (numeral_of r)) rs))) \<longleftrightarrow>
    distinct (m # map numeral_of rs)"
proof -
  let ?ts = "concat (map (spi_triples p m) (map numeral_of rs))"
  have "map xs_Spi (concat (map (\<lambda>r. ipsec_node_states p me m r (numeral_of r)) rs)) = map (\<lambda>(a, b, k). ipsec_spi a b k) ?ts"
    by (induction rs) (simp_all add: node_spis [OF ok])
  moreover have "inj_on (\<lambda>(a, b, k). ipsec_spi a b k) (set ?ts)"
  proof (rule inj_onI)
    fix t t' assume in_ts: "t \<in> set ?ts" "t' \<in> set ?ts" and eq': "(\<lambda>(a, b, k). ipsec_spi a b k) t = (\<lambda>(a, b, k). ipsec_spi a b k) t'"
    obtain a b k a' b' k' where tt: "t = (a, b, k)" "t' = (a', b', k')" by (cases t, cases t')
    have t: "(a, b, k) \<in> set ?ts" "(a', b', k') \<in> set ?ts" and eq: "ipsec_spi a b k = ipsec_spi a' b' k'"
      using in_ts eq' by (simp_all only: tt prod.case)
    have small: "unat x < 2 ^ 14 \<and> unat y < 2 ^ 14 \<and> unat z < 4" if "(x, y, z) \<in> set ?ts" for x y z
      using that m unat_numeral_of by (auto simp: spi_triples_def spi_kinds_def split: if_splits)
    have spi: "uint x = ipsec_spi x y z div 2 ^ 16 mod 2 ^ 14 \<and> uint y = ipsec_spi x y z div 4 mod 2 ^ 14 \<and>
        uint z = ipsec_spi x y z mod 4" if "(x, y, z) \<in> set ?ts" for x y z
      using small [OF that] spi_back by metis
    show "t = t'" unfolding tt using spi [OF t(1)] spi [OF t(2)] eq by (simp add: word_uint_eq_iff)
  qed
  ultimately show ?thesis using distinct_triples [OF kinds, of m "map numeral_of rs"] by (simp add: distinct_map)
qed

section \<open>Properties\<close>

lemma node_states_sym: "set (ipsec_node_states p X nX Y nY) = set (ipsec_node_states p Y nY X nX)"
  by (auto simp: ipsec_node_states_def ipsec_ah_def ipsec_esp_def XFRM_DIR_IN_def XFRM_DIR_OUT_def Let_def)

lemma node_states_cong:
  "ip_authenticationStrategy p = ip_authenticationStrategy q \<Longrightarrow> ip_encryptionStrategy p = ip_encryptionStrategy q \<Longrightarrow>
   ip_encapsulationStrategy p = ip_encapsulationStrategy q \<Longrightarrow> ipsec_node_states p X nX Y nY = ipsec_node_states q X nX Y nY"
  by (simp add: ipsec_node_states_def ipsec_ah_def ipsec_esp_def Let_def)

text \<open>
  C6: Two nodes agree on their security associations.  When agents with the same strategies run
  on the nodes X and Y and each sees the other, the associations that the agent of X computes for
  the pair are expected by both agents, with the same SPIs, addresses and keys; and every
  association that the agent of X expects from or to the address of Y, for a Y whose address no
  other node has, is expected by the agent of Y.
\<close>

theorem ipsec_peers_agree:
  assumes X: "ipsec_states p X (numeral_of X) rsX [] = Inr sX" "Y \<in> set rsX" "\<forall>r \<in> set rsX. ipsec_node r"
    and Y: "ipsec_states q Y (numeral_of Y) rsY [] = Inr sY" "X \<in> set rsY" "\<forall>r \<in> set rsY. ipsec_node r"
    and same: "ip_authenticationStrategy p = ip_authenticationStrategy q" "ip_encryptionStrategy p = ip_encryptionStrategy q"
      "ip_encapsulationStrategy p = ip_encapsulationStrategy q" and ok: "strategy_ok p"
    and addr: "\<forall>r \<in> set rsX. r \<noteq> Y \<longrightarrow> ni_Address r \<noteq> ni_Address Y" "ni_Address X \<noteq> ni_Address Y"
  shows "set (ipsec_node_states p X (numeral_of X) Y (numeral_of Y)) \<subseteq> set sX \<inter> set sY \<and>
    (\<forall>s \<in> set sX. xs_Src s = ni_Address Y \<or> xs_Dst s = ni_Address Y \<longrightarrow> s \<in> set sY)"
proof -
  have sX: "set sX = (\<Union>r \<in> set rsX. set (ipsec_node_states p X (numeral_of X) r (numeral_of r)))"
    using X(1) ipsec_states_run [OF X(3), of p X "numeral_of X" "[]"] by auto
  have sY: "set sY = (\<Union>r \<in> set rsY. set (ipsec_node_states p Y (numeral_of Y) r (numeral_of r)))"
    using Y(1) ipsec_states_run [OF Y(3), of q Y "numeral_of Y" "[]"] node_states_cong [OF same] by auto
  let ?s = "set (ipsec_node_states p X (numeral_of X) Y (numeral_of Y))"
  have sub: "?s \<subseteq> set sX" "?s \<subseteq> set sY"
    using X(2) Y(2) node_states_sym [of p X "numeral_of X" Y "numeral_of Y"] unfolding sX sY by blast+
  have "s \<in> ?s" if s: "s \<in> set sX" "xs_Src s = ni_Address Y \<or> xs_Dst s = ni_Address Y" for s
  proof -
    obtain r where r: "r \<in> set rsX" "s \<in> set (ipsec_node_states p X (numeral_of X) r (numeral_of r))" using s(1) sX by blast
    then have "{xs_Src s, xs_Dst s} = {ni_Address X, ni_Address r}" using ok
      by (auto simp: ipsec_node_states_def ipsec_ah_def ipsec_esp_def strategy_ok_def Let_def split: if_splits)
    then have "ni_Address r = ni_Address Y" using s(2) addr(2) by (auto simp: doubleton_eq_iff)
    then have "r = Y" using r(1) addr(1) by (cases "r = Y") auto
    then show ?thesis using r(2) by simp
  qed
  then show ?thesis using sub by blast
qed

text \<open>The tables of associations and of policies, where a change of one leaves the other alone.\<close>

definition ipsec_kernel ::
  "'w netlink \<Rightarrow> ('w \<Rightarrow> xfrmState list) \<Rightarrow> ('w \<Rightarrow> xfrmPolicy list) \<Rightarrow> (xfrmState \<Rightarrow> bool) \<Rightarrow> (xfrmPolicy \<Rightarrow> bool) \<Rightarrow> bool"
where
  "ipsec_kernel nl states policies acceptS acceptP \<longleftrightarrow>
     state_kernel nl states acceptS \<and> policy_kernel nl policies acceptP \<and>
     (\<forall>s. keeps_ext policies (nl_XfrmStateAdd nl s) \<and> keeps_ext policies (nl_XfrmStateUpdate nl s) \<and>
        keeps_ext policies (nl_XfrmStateDel nl s)) \<and>
     (\<forall>p. keeps_ext states (nl_XfrmPolicyAdd nl p) \<and> keeps_ext states (nl_XfrmPolicyUpdate nl p) \<and>
        keeps_ext states (nl_XfrmPolicyDel nl p))"

lemma states_keep_policies:
  assumes "ipsec_kernel nl states policies acceptS acceptP"
  shows "keeps policies (XfrmStateTable_Ensure nl ordE ordA es)"
proof -
  have "keeps_ext policies (nl_XfrmStateList nl)" using assms by (simp add: ipsec_kernel_def state_kernel_def keeps_ext_def)
  then show ?thesis using assms
    by (auto simp: XfrmStateTable_Ensure_def Let_def ipsec_kernel_def intro!: keeps_intros split: option.split)
qed

lemma policies_keep_states:
  assumes "ipsec_kernel nl states policies acceptS acceptP"
  shows "keeps states (XfrmPolicyTable_Ensure nl ps)"
proof -
  have "keeps_ext states (nl_XfrmPolicyList nl)" using assms by (simp add: ipsec_kernel_def policy_kernel_def keeps_ext_def)
  then show ?thesis using assms
    by (auto simp: XfrmPolicyTable_Ensure_def Let_def ipsec_kernel_def intro!: keeps_intros split: prod.split)
qed

lemma ipsec_node_remotes:
  "\<forall>r \<in> set (remotes me nodes). To4 (ipn_IP (the (ni_PodCIDR r))) \<noteq> None \<Longrightarrow> \<forall>r \<in> set (remotes me nodes). ipsec_node r"
  by (auto simp: ipsec_node_def in_remotes)

definition ipsec_expected :: "IpsecRoutingProvider \<Rightarrow> NodeInfo \<Rightarrow> NodeInfo list \<Rightarrow> xfrmState list" where
  "ipsec_expected p me nodes = concat (map (\<lambda>r. ipsec_node_states p me (numeral_of me) r (numeral_of r)) (remotes me nodes))"

lemma ipsec_action_run:
  assumes me: "ipsec_node me" "ni_Address me \<noteq> None" and rs: "\<forall>r \<in> set (remotes me nodes). ipsec_node r"
  shows "ipsec_action nl ordE ordA me nodes (p, w) =
    bindM (wrapM ''error applying xfrm state: %v'' (liftW (XfrmStateTable_Ensure nl ordE ordA (ipsec_expected p me nodes)))) (\<lambda>_.
      wrapM ''error applying xfrm policy: %v'' (liftW (XfrmPolicyTable_Ensure nl (ipsec_policies me nodes)))) (p, w)"
proof -
  obtain cidr a where "ni_PodCIDR me = Some cidr" "ni_Address me = Some a" using me by (auto simp: ipsec_node_def)
  then show ?thesis using computeNodeNumeral_node [OF me(1)] ipsec_states_run [OF rs, of p me "numeral_of me" "[]"]
    by (simp add: ipsec_action_def ipsec_expected_def)
qed


text \<open>
  C40: When two of the local and the remote nodes have the same numeral (their network numbers
  agree modulo 2 to the power 14), two expected associations have the same SPI and EnsureCIDRs
  ends the process instead of returning an error; nothing has been changed.
\<close>

theorem Ipsec_numeral_collision_fatal:
  assumes list: "nl_XfrmStateList nl w = (Inr actual, w1)"
    and snap: "Snapshot ordS nm = (Some me, nodes, v)" and stale: "\<not> up_to_date (ip_lastVersionApplied p) nm"
    and me: "ipsec_node me" "ni_Address me \<noteq> None"
    and v4: "\<forall>r \<in> set (remotes me nodes). To4 (ipn_IP (the (ni_PodCIDR r))) \<noteq> None"
    and ok: "strategy_ok p" "spi_kinds p \<noteq> []" and num: "\<not> distinct (map numeral_of (me # remotes me nodes))"
  shows "Ipsec_EnsureCIDRs nl ordS ordE ordA nm (p, w) = (Fatal ''Found duplicate ESP SPI %d %v %v'', (p, w1))"
proof -
  let ?es = "ipsec_expected p me nodes"
  have "\<not> distinct (map xs_Spi ?es)"
    using distinct_spis [OF ok unat_numeral_of, of me me "remotes me nodes"] num by (simp add: ipsec_expected_def)
  then have "XfrmStateTable_Ensure nl ordE ordA ?es w = (Fatal ''Found duplicate ESP SPI %d %v %v'', w1)"
    by (rule XfrmStateTable_duplicate [OF list])
  then show ?thesis
    unfolding Ipsec_steps ensure_steps_run [of ip_lastVersionApplied, OF stale snap]
    using ipsec_action_run [OF me ipsec_node_remotes [OF v4], of nl ordE ordA p w] by (simp add: bindM_def wrap_liftW)
qed

section \<open>Examples\<close>

definition ipsec_sample :: IpsecRoutingProvider where
  "ipsec_sample = \<lparr>ip_authenticationStrategy = HmacSha1AuthenticationStrategy, ip_encryptionStrategy = AesEncryptionStrategy,
     ip_encapsulationStrategy = UdpEncapsulationStrategy, ip_udpEncapListener = None, ip_lastVersionApplied = 0\<rparr>"

lemma ipsec_sample_ok: "strategy_ok ipsec_sample" "spi_kinds ipsec_sample \<noteq> []"
  by (rule strategies_ok) (simp_all add: ipsec_sample_def spi_kinds_def HmacSha1AuthenticationStrategy_def)

lemma pod_net_mask: "IPMask_Size [255, 255, 255, 0] = (24, 32)"
  by (simp add: IPMask_Size_def net_eval)

lemma ipsec_node_sample: "ipsec_node (ni_sample name n)"
  by (simp add: ipsec_node_def ni_sample_def pod_net_def To4_def)

lemma numeral_of_sample: "unat (numeral_of (ni_sample name n)) = unat n"
proof -
  have lt: "unat n < 256" using unsigned_less [of n] by simp
  obtain m where "computeNodeNumeral (pod_net n) = Inr m"
    "unat m = (unat (10 :: byte) * 2 ^ 24 + unat (0 :: byte) * 2 ^ 16 + unat n * 2 ^ 8 + unat (0 :: byte)) div 2 ^ (32 - 24) mod 2 ^ 14"
    using numeral_value [of "pod_net n" 10 0 n 0 24 32] by (auto simp: pod_net_def To4_def pod_net_mask)
  moreover have "(655360 + k) mod 16384 = k" if "k < 256" for k :: nat
    using mod_mult_self1 [of k 40 16384] that by (simp add: add.commute)
  ultimately show ?thesis using lt by (simp add: numeral_of_def ni_sample_def)
qed

theorem computeNodeNumeral_value_witness:
  "\<exists>n. computeNodeNumeral \<lparr>ipn_IP = Some [100, 96, 5, 0], ipn_Mask = [255, 255, 255, 0]\<rparr> = Inr n \<and> unat n = 8197"
  using computeNodeNumeral_value [of "\<lparr>ipn_IP = Some [100, 96, 5, 0], ipn_Mask = [255, 255, 255, 0]\<rparr>" 100 96 5 0 24 32]
  by (simp add: To4_def pod_net_mask) blast

theorem ipsec_spi_roundtrip_witness:
  "ipsec_spi 5 7 1 div 2 ^ 16 mod 2 ^ 14 = uint (5 :: 32 word) \<and> ipsec_spi 5 7 1 mod 4 = uint (1 :: 32 word)"
  using ipsec_spi_roundtrip [of 5 7 1] by simp

theorem ipsec_peers_agree_witness:
  "\<exists>sX sY. ipsec_states ipsec_sample (ni_sample ''a'' 1) (numeral_of (ni_sample ''a'' 1)) [ni_sample ''b'' 2] [] = Inr sX \<and>
    ipsec_states ipsec_sample (ni_sample ''b'' 2) (numeral_of (ni_sample ''b'' 2)) [ni_sample ''a'' 1] [] = Inr sY \<and>
    set (ipsec_node_states ipsec_sample (ni_sample ''a'' 1) (numeral_of (ni_sample ''a'' 1)) (ni_sample ''b'' 2)
      (numeral_of (ni_sample ''b'' 2))) \<subseteq> set sX \<inter> set sY"
proof -
  let ?X = "ni_sample ''a'' 1" and ?Y = "ni_sample ''b'' 2"
  have nodes: "\<forall>r \<in> set [?Y]. ipsec_node r" "\<forall>r \<in> set [?X]. ipsec_node r" by (simp_all add: ipsec_node_sample)
  have addr: "ni_Address ?X \<noteq> ni_Address ?Y" by (simp add: ni_sample_def)
  obtain sX where sX: "ipsec_states ipsec_sample ?X (numeral_of ?X) [?Y] [] = Inr sX"
    using ipsec_states_run [OF nodes(1), of ipsec_sample ?X "numeral_of ?X" "[]"] by blast
  obtain sY where sY: "ipsec_states ipsec_sample ?Y (numeral_of ?Y) [?X] [] = Inr sY"
    using ipsec_states_run [OF nodes(2), of ipsec_sample ?Y "numeral_of ?Y" "[]"] by blast
  have "set (ipsec_node_states ipsec_sample ?X (numeral_of ?X) ?Y (numeral_of ?Y)) \<subseteq> set sX \<inter> set sY"
    using ipsec_peers_agree [OF sX _ nodes(1) sY _ nodes(2) refl refl refl ipsec_sample_ok(1) _ addr] by simp
  then show ?thesis using sX sY by blast
qed

lemma ref_ipsec_kernel: "ipsec_kernel ref_netlink rw_states rw_policies (\<lambda>_. True) (\<lambda>_. True)"
  unfolding ipsec_kernel_def
  by (simp add: ref_state_kernel ref_policy_kernel)
    (simp add: ref_calls keeps_ext_def ref_add_def ref_set_def ref_del_def)

lemma sample_policies_distinct: "distinct_on policy_key (ipsec_policies (ni_sample ''a'' 1) [ni_sample ''b'' 2, ni_sample ''a'' 1])"
  by (simp add: distinct_on_def ipsec_policies_def ipsec_udp_policies_def ipsec_socket_policies_def ipsec_node_policies_def
      ipsec_tunnel_policy_def zero_policy_def policy_key_def nm_sample_remotes net_norm_def ipToIpnet_def IPv4Mask_def
      XFRM_DIR_IN_def XFRM_DIR_OUT_def XFRM_DIR_FWD_def XFRM_SOCKET_IN_def XFRM_SOCKET_OUT_def XFRM_PROTO_UDP_def IPPROTO_UDP_def)
    (simp add: ni_sample_def pod_net_def ipnetAll_def)

lemma ipsec_sample_nodes:
  "ni_Address (ni_sample name n) \<noteq> None" "\<forall>r \<in> set [ni_sample name n]. To4 (ipn_IP (the (ni_PodCIDR r))) \<noteq> None"
  by (simp_all add: ni_sample_def pod_net_def To4_def)


text \<open>Two networks of the size of a node that are 64 * 256 networks apart have the same numeral.\<close>

definition colliding_nodes :: NodeMap where
  "colliding_nodes = nm_sample\<lparr>nm_heap := [ni_sample ''a'' 1, (ni_sample ''b'' 2)\<lparr>ni_PodCIDR :=
     Some \<lparr>ipn_IP = Some [10, 64, 1, 0], ipn_Mask = [255, 255, 255, 0]\<rparr>\<rparr>]\<rparr>"

theorem Ipsec_numeral_collision_fatal_witness:
  "Ipsec_EnsureCIDRs ref_netlink rev rev rev colliding_nodes (ipsec_sample, empty_world) =
    (Fatal ''Found duplicate ESP SPI %d %v %v'', (ipsec_sample, empty_world))"
proof -
  let ?b = "(ni_sample ''b'' 2)\<lparr>ni_PodCIDR := Some \<lparr>ipn_IP = Some [10, 64, 1, 0], ipn_Mask = [255, 255, 255, 0]\<rparr>\<rparr>"
  have snap: "Snapshot rev colliding_nodes = (Some (ni_sample ''a'' 1), [?b, ni_sample ''a'' 1], 2)"
    by (simp add: Snapshot_def colliding_nodes_def nm_sample_def me_of_def)
  have rem: "remotes (ni_sample ''a'' 1) [?b, ni_sample ''a'' 1] = [?b]" by (simp add: remotes_def ni_sample_def)
  have stale: "\<not> up_to_date (ip_lastVersionApplied ipsec_sample) colliding_nodes" by (simp add: up_to_date_def ipsec_sample_def)
  obtain m where m: "computeNodeNumeral \<lparr>ipn_IP = Some [10, 64, 1, 0], ipn_Mask = [255, 255, 255, 0]\<rparr> = Inr m" "unat m = 1"
    using numeral_value [of "\<lparr>ipn_IP = Some [10, 64, 1, 0], ipn_Mask = [255, 255, 255, 0]\<rparr>" 10 64 1 0 24 32]
    by (auto simp: To4_def pod_net_mask)
  then have "unat (numeral_of ?b) = unat (numeral_of (ni_sample ''a'' 1))" unfolding numeral_of_sample by (simp add: numeral_of_def)
  then have "numeral_of ?b = numeral_of (ni_sample ''a'' 1)" by (rule unsigned_word_eqI)
  then have num: "\<not> distinct (map numeral_of (ni_sample ''a'' 1 # remotes (ni_sample ''a'' 1) [?b, ni_sample ''a'' 1]))"
    by (simp add: rem)
  have v4: "\<forall>r \<in> set (remotes (ni_sample ''a'' 1) [?b, ni_sample ''a'' 1]). To4 (ipn_IP (the (ni_PodCIDR r))) \<noteq> None"
    by (simp add: rem To4_def)
  show ?thesis
    by (rule Ipsec_numeral_collision_fatal [OF _ snap stale ipsec_node_sample ipsec_sample_nodes(1) v4 ipsec_sample_ok num, of _ _ "[]"])
      (simp add: ref_calls ref_list_def empty_world_def)
qed

end
