(* ===== verification/Agent.thy ===== *)
theory Agent
  imports Agent_Options Routing_Controller Layer2 Gre Vxlan Vxlan2 Ipsec
begin

text \<open>
  The start of the agent (\<^verbatim>\<open>src/cmd/networking-agent/main.go\<close>): which node is the local one, which links
  carry the traffic, which provider is built, and the controllers that are started.

  Outside code: the file system, the environment and host name, the listing of the network
  interfaces, the API client's construction, and what the providers call (netlink, sockets,
  \<^verbatim>\<open>modprobe\<close>).  The loop that waits for signals at the end of \<^verbatim>\<open>run\<close> only ends the process and is
  not modelled.
\<close>

section \<open>The local node\<close>

text \<open>\<^verbatim>\<open>strings.TrimSpace\<close> on ASCII text.\<close>

definition is_space :: "char \<Rightarrow> bool" where
  "is_space c \<longleftrightarrow> c \<in> {CHR 0x09, CHR 0x0A, CHR 0x0B, CHR 0x0C, CHR 0x0D, CHR '' ''}"

definition TrimSpace :: "string \<Rightarrow> string" where
  "TrimSpace s = rev (dropWhile is_space (rev (dropWhile is_space s)))"

definition invalid_uuid :: string where
  "invalid_uuid = ''03000200-0400-0500-0006-000700080009''"

text \<open>\<open>env\<close> is the value of \<^verbatim>\<open>NODE_NAME\<close>, empty when it is not set.\<close>

definition agent_matcher ::
  "'w files \<Rightarrow> ('w, string) ext \<Rightarrow> string \<Rightarrow> Options \<Rightarrow> ('w, NodePredicate) io" where
  "agent_matcher fs Hostname env options =
     (if env \<noteq> '''' then retM (\<lambda>node. node_Name node = env)
      else if opt_MachineIDPath options \<noteq> '''' then
        bindM (wrapM ''error reading machine-id file %q: %v'' (callM (fs_ReadFile fs (opt_MachineIDPath options)))) (\<lambda>b.
          retM (\<lambda>node. node_MachineID node = TrimSpace b))
      else if opt_SystemUUIDPath options \<noteq> '''' then
        bindM (wrapM ''error reading system-uuid file %q: %v'' (callM (fs_ReadFile fs (opt_SystemUUIDPath options)))) (\<lambda>b.
          if TrimSpace b = invalid_uuid
          then throwM (Errorf ''detected well-known invalid system-uuid 03000200-0400-0500-0006-000700080009'' None)
          else retM (\<lambda>node. node_SystemUUID node = TrimSpace b))
      else if opt_BootIDPath options \<noteq> '''' then
        bindM (wrapM ''error reading boot-id file %q: %v'' (callM (fs_ReadFile fs (opt_BootIDPath options)))) (\<lambda>b.
          retM (\<lambda>node. node_BootID node = TrimSpace b))
      else
        bindM (if opt_NodeName options = ''''
               then wrapM ''error getting hostname: %v'' (callM Hostname)
               else retM (opt_NodeName options))
          (\<lambda>matchNodeName. retM (\<lambda>node. node_Name node = matchNodeName)))"

section \<open>The links\<close>

record interface =
  if_Name :: string
  if_Flags :: "64 word"

definition FlagLoopback :: "64 word" where
  "FlagLoopback = 4"

fun transform :: "('a \<Rightarrow> 'b) \<Rightarrow> 'a list \<Rightarrow> 'b list" where
  "transform fn [] = []"
| "transform fn (t # ts) = fn t # transform fn ts"

fun link_candidates :: "interface list \<Rightarrow> interface list" where
  "link_candidates [] = []"
| "link_candidates (networkInterface # rest) =
     (if if_Flags networkInterface AND FlagLoopback \<noteq> 0 then link_candidates rest
      else if \<not> HasPrefix (if_Name networkInterface) ''eth'' \<and> \<not> HasPrefix (if_Name networkInterface) ''en''
      then link_candidates rest
      else networkInterface # link_candidates rest)"

definition findTargetLinks :: "('w, interface list) ext \<Rightarrow> ('w, string list) io" where
  "findTargetLinks Interfaces =
     bindM (wrapM ''error querying interfaces to determine primary network interface: %v'' (callM Interfaces)) (\<lambda>networkInterfaces.
       let candidates = link_candidates networkInterfaces in
       if candidates = [] then throwM (Errorf ''unable to determine interface (no interfaces found)'' None)
       else retM (transform if_Name candidates))"

definition agent_links :: "('w, interface list) ext \<Rightarrow> Options \<Rightarrow> ('w, string list) io" where
  "agent_links Interfaces options =
     (let targetLinkNames = (if opt_TargetLinkName options \<noteq> '''' then [opt_TargetLinkName options] else []) in
      if length targetLinkNames = 0 then
        tryM (findTargetLinks Interfaces)
          (\<lambda>err. throwM (Errorf ''unable to determine network device; pass --target to specify: %w'' (Some err)))
          (\<lambda>links. if length links = 0
                   then throwM (Errorf ''unable to determine network device; pass --target to specify: %w'' None)
                   else retM links)
      else retM targetLinkNames)"

section \<open>The provider\<close>

datatype agent_provider =
    ProviderLayer2 Layer2RoutingProvider
  | ProviderGre GreRoutingProvider
  | ProviderVxlan VxlanRoutingProvider
  | ProviderVxlan2 Vxlan2RoutingProvider
  | ProviderIpsec IpsecRoutingProvider

definition ipsec_strategies :: "IPSECOptions \<Rightarrow> gerr + AuthenticationStrategy \<times> EncryptionStrategy \<times> EncapsulationStrategy" where
  "ipsec_strategies ipsec =
     (case (if ipsec_Encryption ipsec = ''none'' then Some PlaintextEncryptionStrategy
            else if ipsec_Encryption ipsec = ''aes'' then Some AesEncryptionStrategy else None) of
        None \<Rightarrow> Inl (Errorf ''unknown ipsec-encryption: %v'' None)
      | Some encr \<Rightarrow>
          (case (if ipsec_Authentication ipsec = ''none'' then Some PlaintextAuthenticationStrategy
                 else if ipsec_Authentication ipsec = ''sha1'' then Some HmacSha1AuthenticationStrategy else None) of
             None \<Rightarrow> Inl (Errorf ''unknown ipsec-authentication: %v'' None)
           | Some authn \<Rightarrow>
               (case (if ipsec_Encapsulation ipsec = ''udp'' then Some UdpEncapsulationStrategy
                      else if ipsec_Encapsulation ipsec = ''esp'' then Some EspEncapsulationStrategy else None) of
                  None \<Rightarrow> Inl (Errorf ''unknown ipsec-encapsulation: %v'' None)
                | Some encap \<Rightarrow> Inr (authn, encr, encap))))"

definition agent_ipsec ::
  "'w netlink \<Rightarrow> 'w sockets \<Rightarrow> (string \<Rightarrow> ('w, string) ext) \<Rightarrow> IPSECOptions \<Rightarrow> ('w, IpsecRoutingProvider) io" where
  "agent_ipsec nl sys modprobe ipsec =
     (case ipsec_strategies ipsec of
        Inl err \<Rightarrow> throwM err
      | Inr (authn, encr, encap) \<Rightarrow>
          bindM (wrapM ''failed to build provider %q: %v'' (NewIpsecRoutingProvider sys modprobe authn encr encap)) (\<lambda>p.
            tryM (Ipsec_Flush nl) (\<lambda>err. throwM (Errorf ''cannot flush tables'' None)) (\<lambda>_. retM p)))"

definition buildM :: "('a \<Rightarrow> agent_provider) \<Rightarrow> ('w, 'a) io \<Rightarrow> ('w, agent_provider) io" where
  "buildM con m = bindM (wrapM ''failed to build provider %q: %v'' m) (\<lambda>p. retM (con p))"

definition build_provider ::
  "'w netlink \<Rightarrow> 'w sockets \<Rightarrow> (string \<Rightarrow> ('w, string) ext) \<Rightarrow> Options \<Rightarrow> string list \<Rightarrow> ('w, agent_provider) io" where
  "build_provider nl sys modprobe options targetLinkNames =
     (let name = opt_Provider options;
          overlayCIDR = map_option snd (ParseCIDR (opt_PodCIDR options));
          notOne = throwM (Errorf ''expected exactly one target link with layer2; got %v'' None) in
      if name = ''layer2'' then
        (if length targetLinkNames \<noteq> 1 then notOne
         else buildM ProviderLayer2 (NewLayer2RoutingProvider nl (targetLinkNames ! 0)))
      else if name = ''gre'' then buildM ProviderGre NewGreRoutingProvider
      else if name = ''vxlan-legacy'' then
        (if length targetLinkNames \<noteq> 1 then notOne
         else buildM ProviderVxlan (NewVxlanRoutingProvider nl overlayCIDR (targetLinkNames ! 0)))
      else if name = ''vxlan'' then buildM ProviderVxlan2 (NewVxlan2RoutingProvider nl overlayCIDR targetLinkNames)
      else if name = ''ipsec'' then bindM (agent_ipsec nl sys modprobe (opt_IPSEC options)) (\<lambda>p. retM (ProviderIpsec p))
      else throwM (Errorf ''provider not known: %q'' None))"

section \<open>The start of the agent\<close>

text \<open>The outside code that the start uses, in the order of its use.\<close>

record 'w agent_env =
  ae_files :: "'w files"
  ae_Unmarshal :: "string \<Rightarrow> Options \<Rightarrow> gerr + Options"
  ae_ParseDuration :: "string \<Rightarrow> gerr + int"
  ae_klogFlags :: "library_flag list"
  ae_osArgs :: "string list"
  ae_InClusterConfig :: "('w, unit) ext"
  ae_NewForConfig :: "('w, 'w kube_nodes \<times> 'w kube_status) ext"
  ae_NODE_NAME :: string
  ae_Hostname :: "('w, string) ext"
  ae_Interfaces :: "('w, interface list) ext"
  ae_netlink :: "'w netlink"
  ae_sockets :: "'w sockets"
  ae_modprobe :: "string \<Rightarrow> ('w, string) ext"
  ae_NeighSubscribe :: "('w, int) ext"

text \<open>The orders in which the runtime visits the maps of the providers.\<close>

record orders =
  or_nodes :: "(string \<times> nat) order"
  or_links :: "(string \<times> link) order"
  or_actualLinks :: "(string \<times> link) order"
  or_tunnels :: "(string \<times> link) order"
  or_addrs :: "(string \<times> addr) order"
  or_actualAddrs :: "(string \<times> addr) order"
  or_neighs :: "(string \<times> neigh) order"
  or_routes :: "(string \<times> route) order"
  or_states :: "(int \<times> xfrmState) order"
  or_actualStates :: "(int \<times> xfrmState) order"

text \<open>A method of one of the providers, called through the interface.\<close>

definition viaP :: "('q \<Rightarrow> agent_provider) \<Rightarrow> ('q \<times> 'w, 'a) io \<Rightarrow> 'q \<Rightarrow> 'w \<Rightarrow> 'a outcome \<times> agent_provider \<times> 'w" where
  "viaP con m q w = (case m (q, w) of (r, (q', w')) \<Rightarrow> (r, (con q', w')))"

definition agent_EnsureCIDRs :: "'w agent_env \<Rightarrow> orders \<Rightarrow> NodeMap \<Rightarrow> (agent_provider \<times> 'w, unit) io" where
  "agent_EnsureCIDRs env od nm s =
     (case s of (p, w) \<Rightarrow>
       (case p of
          ProviderLayer2 q \<Rightarrow> viaP ProviderLayer2 (Layer2_EnsureCIDRs (ae_netlink env) (or_nodes od) (or_routes od) nm) q w
        | ProviderGre q \<Rightarrow>
            viaP ProviderGre (Gre_EnsureCIDRs (ae_netlink env) (or_nodes od) (or_links od) (or_actualLinks od) (or_tunnels od) (or_routes od) nm) q w
        | ProviderVxlan q \<Rightarrow>
            viaP ProviderVxlan
              (Vxlan_EnsureCIDRs (ae_netlink env) (\<lambda>path data. fs_WriteFile (ae_files env) path data 438) (ae_NeighSubscribe env)
                 (or_nodes od) (or_addrs od) (or_actualAddrs od) (or_neighs od) (or_routes od) nm) q w
        | ProviderVxlan2 q \<Rightarrow>
            viaP ProviderVxlan2
              (Vxlan2_EnsureCIDRs (ae_netlink env) (or_nodes od) (or_addrs od) (or_actualAddrs od) (or_neighs od) (or_routes od) nm) q w
        | ProviderIpsec q \<Rightarrow>
            viaP ProviderIpsec (Ipsec_EnsureCIDRs (ae_netlink env) (or_nodes od) (or_states od) (or_actualStates od) nm) q w))"

text \<open>What is running when the start is over: the two controllers, and the provider's fields.\<close>

record 'w agent =
  ag_nodeController :: "'w NodeController"
  ag_controller :: "(agent_provider, 'w) Controller"
  ag_provider :: agent_provider

definition agent_cniWriter :: "'w files \<Rightarrow> Options \<Rightarrow> (ipnet option \<Rightarrow> ('w, unit) io) option" where
  "agent_cniWriter fs options =
     (if opt_CNIConfigPath options \<noteq> '''' then Some (WriteCNIConfig fs \<lparr>scw_Path = opt_CNIConfigPath options\<rparr>) else None)"

definition agent_run :: "'w agent_env \<Rightarrow> orders \<Rightarrow> ('w, 'w agent) io" where
  "agent_run env od =
     bindM (agent_options (ae_files env) (ae_Unmarshal env) (ae_ParseDuration env) (ae_klogFlags env) (ae_osArgs env)) (\<lambda>options.
       bindM (wrapM ''error building client configuration: %v'' (callM (ae_InClusterConfig env))) (\<lambda>config.
         bindM (wrapM ''error building REST client: %v'' (callM (ae_NewForConfig env))) (\<lambda>(kubeNodes, kubeStatus).
           bindM (agent_matcher (ae_files env) (ae_Hostname env) (ae_NODE_NAME env) options) (\<lambda>matcher.
             bindM (agent_links (ae_Interfaces env) options) (\<lambda>targetLinkNames.
               bindM (build_provider (ae_netlink env) (ae_sockets env) (ae_modprobe env) options targetLinkNames) (\<lambda>provider.
                 case NewNodeController kubeNodes (NewNodeMap matcher) of
                   Inl err \<Rightarrow> throwM (Errorf ''Failed to build node controller: %v'' (Some err))
                 | Inr c \<Rightarrow>
                     (case NewController kubeStatus (agent_EnsureCIDRs env od) (agent_cniWriter (ae_files env) options) of
                        Inl err \<Rightarrow> throwM (Errorf ''Failed to build routing controller: %v'' (Some err))
                      | Inr rc \<Rightarrow> retM \<lparr>ag_nodeController = c, ag_controller = rc, ag_provider = provider\<rparr>)))))))"

section \<open>Whatever the provider, the contract holds\<close>

primrec agent_applied :: "agent_provider \<Rightarrow> 64 word" where
  "agent_applied (ProviderLayer2 q) = l2_lastVersionApplied q"
| "agent_applied (ProviderGre q) = gre_lastVersionApplied q"
| "agent_applied (ProviderVxlan q) = vx_lastVersionApplied q"
| "agent_applied (ProviderVxlan2 q) = v2_lastVersionApplied q"
| "agent_applied (ProviderIpsec q) = ip_lastVersionApplied q"

lemma viaP_eq: "viaP con m q w = (r, (p', w')) \<longleftrightarrow> (\<exists>q'. m (q, w) = (r, (q', w')) \<and> p' = con q')"
  by (auto simp: viaP_def split: prod.splits)

interpretation agent: routing_provider "agent_EnsureCIDRs env od" agent_applied
  for env :: "'w agent_env" and od
proof
  fix p nm w r p' w'
  show "agent_EnsureCIDRs env od nm (p, w) = (Ret (), (p, w))" if "up_to_date (agent_applied p) nm"
    using that
    by (cases p)
      (simp_all add: agent_EnsureCIDRs_def viaP_def layer2.ensure_skip gre.ensure_skip vxlan.ensure_skip vxlan2.ensure_skip
        ipsec.ensure_skip)
  show "agent_EnsureCIDRs env od nm (p, w) = (Err no_local_node, (p, w))"
    if "\<not> up_to_date (agent_applied p) nm" "\<not> IsReady nm"
    using that
    by (cases p)
      (simp_all add: agent_EnsureCIDRs_def viaP_def layer2.ensure_not_ready gre.ensure_not_ready vxlan.ensure_not_ready
        vxlan2.ensure_not_ready ipsec.ensure_not_ready)
  show "agent_applied p' = nm_version nm" if "agent_EnsureCIDRs env od nm (p, w) = (Ret (), (p', w'))" "IsReady nm"
    using that
    by (cases p)
      (auto simp: agent_EnsureCIDRs_def viaP_eq dest: layer2.ensure_commit gre.ensure_commit vxlan.ensure_commit
        vxlan2.ensure_commit ipsec.ensure_commit)
  show "agent_applied p' = agent_applied p" if "agent_EnsureCIDRs env od nm (p, w) = (r, (p', w'))" "r \<noteq> Ret ()"
    using that
    by (cases p)
      (auto simp: agent_EnsureCIDRs_def viaP_eq dest: layer2.ensure_failed gre.ensure_failed vxlan.ensure_failed
        vxlan2.ensure_failed ipsec.ensure_failed)
qed

section \<open>The start\<close>

primrec provider_name :: "agent_provider \<Rightarrow> string" where
  "provider_name (ProviderLayer2 q) = ''layer2''"
| "provider_name (ProviderGre q) = ''gre''"
| "provider_name (ProviderVxlan q) = ''vxlan-legacy''"
| "provider_name (ProviderVxlan2 q) = ''vxlan''"
| "provider_name (ProviderIpsec q) = ''ipsec''"

lemma transform_map: "transform fn xs = map fn xs"
  by (induction xs) auto

lemma link_candidates_filter:
  "link_candidates is =
     filter (\<lambda>i. if_Flags i AND FlagLoopback = 0 \<and> (HasPrefix (if_Name i) ''eth'' \<or> HasPrefix (if_Name i) ''en'')) is"
  by (induction "is") auto

text \<open>The links of the agent: the one of the options, or every candidate, and never none.\<close>

lemma agent_links_nonempty: "agent_links Interfaces options w = (Ret links, w') \<Longrightarrow> links \<noteq> []"
  by (auto simp: agent_links_def Let_def tryM_eq_Ret split: if_splits)

lemma buildM_eq_Ret: "buildM con m w = (Ret p, w') \<longleftrightarrow> (\<exists>q. m w = (Ret q, w') \<and> p = con q)"
  by (auto simp: buildM_def bindM_eq_Ret wrapM_eq_Ret)

lemma build_provider_name:
  assumes "build_provider nl sys modprobe options links w = (Ret p, w')"
  shows "provider_name p = opt_Provider options"
  using assms
  by (auto simp: build_provider_def Let_def buildM_eq_Ret bindM_eq_Ret split: if_splits)

lemma agent_ipsec_fresh: "agent_ipsec nl sys modprobe ipsec w = (Ret p, w') \<Longrightarrow> ip_lastVersionApplied p = 0"
  by (auto simp: agent_ipsec_def NewIpsecRoutingProvider_def bindM_eq_Ret wrapM_eq_Ret tryM_eq_Ret
      split: sum.splits prod.splits)

lemma build_provider_fresh:
  assumes "build_provider nl sys modprobe options links w = (Ret p, w')"
  shows "agent_applied p = 0"
  using assms
  by (auto simp: build_provider_def Let_def buildM_eq_Ret bindM_eq_Ret NewLayer2RoutingProvider_def NewGreRoutingProvider_def
      NewVxlanRoutingProvider_def NewVxlan2RoutingProvider_def agent_ipsec_fresh split: if_splits option.splits)

lemma agent_run_inv:
  assumes "agent_run env od w = (Ret a, w')"
  obtains options w1 matcher w2 w3 links w4 kubeNodes kubeStatus where
    "agent_options (ae_files env) (ae_Unmarshal env) (ae_ParseDuration env) (ae_klogFlags env) (ae_osArgs env) w = (Ret options, w1)"
    "agent_matcher (ae_files env) (ae_Hostname env) (ae_NODE_NAME env) options w2 = (Ret matcher, w3)"
    "build_provider (ae_netlink env) (ae_sockets env) (ae_modprobe env) options links w4 = (Ret (ag_provider a), w')"
    "ag_nodeController a = \<lparr>nc_kubeClient = kubeNodes, nc_nodeMap = NewNodeMap matcher\<rparr>"
    "ag_controller a = \<lparr>rc_provider = agent_EnsureCIDRs env od, rc_kubeClient = kubeStatus,
       rc_cniConfigWriter = agent_cniWriter (ae_files env) options\<rparr>"
  using assms
  by (auto simp: agent_run_def bindM_eq_Ret NewNodeController_def NewController_def)

section \<open>Properties\<close>

text \<open>
  A machine to run the model on: the reference kernel with one Ethernet link, a configuration file
  that asks for layer 2, and a server with the two nodes of the examples.
\<close>

definition env_sample :: "ref_world agent_env" where
  "env_sample =
     \<lparr>ae_files = \<lparr>fs_ReadFile = (\<lambda>p w. (Inr ''provider: layer2'', w)), fs_WriteFile = (\<lambda>p b mode w. (Inr (), w))\<rparr>,
      ae_Unmarshal = (\<lambda>data options. Inr (options\<lparr>opt_Provider := ''layer2''\<rparr>)),
      ae_ParseDuration = (\<lambda>s. Inr 0), ae_klogFlags = [], ae_osArgs = [''/networking-agent''],
      ae_InClusterConfig = (\<lambda>w. (Inr (), w)),
      ae_NewForConfig =
        (\<lambda>w. (Inr (\<lparr>kn_List = (\<lambda>w. (Inr ([node_a, node_b], ''7''), w)), kn_Watch = (\<lambda>rv w. (Inr 0, w)), kn_Stop = (\<lambda>h w. w)\<rparr>,
                    \<lparr>ks_Marshal = (\<lambda>cs. Inr ''''), ks_Now = (\<lambda>w. (0, w)), ks_PatchStatus = (\<lambda>node patch w. (Inr (), w))\<rparr>), w)),
      ae_NODE_NAME = ''a'', ae_Hostname = (\<lambda>w. (Inr ''a'', w)),
      ae_Interfaces = (\<lambda>w. (Inr [\<lparr>if_Name = ''lo'', if_Flags = 5\<rparr>, \<lparr>if_Name = ''eth0'', if_Flags = 3\<rparr>], w)),
      ae_netlink = ref_netlink,
      ae_sockets = \<lparr>sys_Socket = (\<lambda>d t pr w. (Inr 3, w)), sys_SetsockoptString = (\<lambda>f l o1 v w. (Inr (), w)),
        sys_SetsockoptInt = (\<lambda>f l o1 v w. (Inr (), w)), sys_Bind = (\<lambda>f port w. (Inr (), w)), sys_Close = (\<lambda>f w. (Inr (), w))\<rparr>,
      ae_modprobe = (\<lambda>m w. (Inr '''', w)), ae_NeighSubscribe = (\<lambda>w. (Inr 4, w))\<rparr>"

definition od_sample :: orders where
  "od_sample = \<lparr>or_nodes = rev, or_links = rev, or_actualLinks = rev, or_tunnels = rev, or_addrs = rev, or_actualAddrs = rev,
     or_neighs = rev, or_routes = rev, or_states = rev, or_actualStates = rev\<rparr>"

definition eth_world :: ref_world where
  "eth_world = empty_world\<lparr>rw_links := [eth_link]\<rparr>"

lemma env_sample_options:
  "agent_options (ae_files env_sample) (ae_Unmarshal env_sample) (ae_ParseDuration env_sample) (ae_klogFlags env_sample)
     (ae_osArgs env_sample) w = (Ret ((InitDefaults zero_Options)\<lparr>opt_Provider := ''layer2''\<rparr>), w)"
  by (simp add: env_sample_def agent_options_def LoadFrom_def Let_def bindM_def tryM_def callM_def Flags_Parse_first
      verbosity_keeps_options split: option.splits)

lemma env_sample_run:
  "\<exists>a. agent_run env_sample od_sample eth_world = (Ret a, eth_world) \<and> ag_provider a = ProviderLayer2 l2_sample"
proof -
  let ?o = "(InitDefaults zero_Options)\<lparr>opt_Provider := ''layer2''\<rparr>"
  have links: "agent_links (ae_Interfaces env_sample) ?o eth_world = (Ret [''eth0''], eth_world)"
    by (simp add: env_sample_def agent_links_def findTargetLinks_def InitDefaults_def Let_def bindM_def tryM_def wrapM_def callM_def
        FlagLoopback_def HasPrefix_def)
  have build: "build_provider (ae_netlink env_sample) sys modprobe ?o [''eth0''] eth_world = (Ret (ProviderLayer2 l2_sample), eth_world)"
    for sys modprobe
    by (simp add: env_sample_def build_provider_def buildM_def NewLayer2RoutingProvider_def Let_def ref_eval eth_world_def
        eth_link_def l2_sample_def)
  have "agent_matcher (ae_files env_sample) (ae_Hostname env_sample) (ae_NODE_NAME env_sample) ?o =
      retM (\<lambda>node. node_Name node = ''a'')"
    by (simp add: env_sample_def agent_matcher_def)
  moreover have "callM (ae_InClusterConfig env_sample) = retM ()" by (simp add: env_sample_def callM_def fun_eq_iff)
  moreover have "\<exists>kn ks. callM (ae_NewForConfig env_sample) = retM (kn, ks)" by (simp add: env_sample_def callM_def fun_eq_iff)
  ultimately show ?thesis
    by (auto simp: agent_run_def env_sample_options links build bindM_def wrapM_def NewNodeController_def NewController_def)
qed

text \<open>The layer 2 provider of the examples on a map that has the local node only.\<close>

lemma env_sample_layer2_alone:
  assumes "Snapshot rev m = (Some (nodeView node_a), [nodeView node_a], v)"
  shows "\<exists>w'. agent_EnsureCIDRs env_sample od_sample m (ProviderLayer2 l2_sample, empty_world) =
    (Ret (), (ProviderLayer2 (l2_sample\<lparr>l2_lastVersionApplied := v\<rparr>), w'))"
proof -
  have routes: "layer2_routes l2_sample (nodeView node_a) [nodeView node_a] = []"
    by (simp add: layer2_routes_def remotes_def)
  obtain w' where "Layer2_EnsureCIDRs ref_netlink rev rev m (l2_sample, empty_world) =
      (Ret (), (l2_sample\<lparr>l2_lastVersionApplied := v\<rparr>, w'))"
    using Layer2_installs [OF ref_route_kernel assms, of l2_sample empty_world rev] unfolding routes
    by (auto simp: up_to_date_def l2_sample_def empty_world_def)
  then show ?thesis by (simp add: agent_EnsureCIDRs_def viaP_def env_sample_def od_sample_def)
qed

text \<open>C13: Whichever provider the options name, the routing controller can rely on the contract of
  \<^verbatim>\<open>EnsureCIDRs\<close>.  After a success on a ready node map the provider has applied its version and calling it
  again with the same map does nothing; and whatever the watcher has done to the map since then, as
  long as it is less than 2 to the power 64 changes, a later call is only skipped when the nodes and
  the local node are those that were applied.  After a failure, of any kind, the same map is tried
  again.\<close>

theorem agent_provider_contract:
  assumes "agent_EnsureCIDRs env od nm (p, w) = (r, (p', w'))" and "IsReady nm" and "nm_version nm \<noteq> 0" and "wf_NodeMap nm"
  shows "(r = Ret () \<longrightarrow>
      agent_applied p' = nm_version nm \<and> agent_EnsureCIDRs env od nm (p', w') = (Ret (), (p', w')) \<and>
      (\<forall>n nm'. nodeMap_run n nm nm' \<and> n < 2 ^ 64 \<and> up_to_date (agent_applied p') nm' \<longrightarrow>
         lookupNode nm' = lookupNode nm \<and> me_of nm' = me_of nm)) \<and>
    (r \<noteq> Ret () \<longrightarrow> agent_applied p' = agent_applied p \<and> \<not> up_to_date (agent_applied p') nm)"
proof (cases "r = Ret ()")
  case True
  then have run: "agent_EnsureCIDRs env od nm (p, w) = (Ret (), (p', w'))" using assms(1) by simp
  show ?thesis
    using agent.ensure_commit [OF run assms(2)] agent.applied_once [OF run assms(2,3)]
      agent.skip_sound [OF run assms(2,4)] True
    by (auto simp: same_nodes_def)
next
  case False
  then show ?thesis using agent.ensure_failed [OF assms(1) False] agent.failure_retried [OF assms(1) False] by simp
qed

theorem agent_provider_contract_witness:
  "\<exists>m p' w'. m = MarkReady (snd (UpdateNode node_a (NewNodeMap (\<lambda>node. node_Name node = ''a'')))) \<and>
     agent_EnsureCIDRs env_sample od_sample m (ProviderLayer2 l2_sample, empty_world) = (Ret (), (p', w')) \<and>
     agent_EnsureCIDRs env_sample od_sample m (p', w') = (Ret (), (p', w'))"
proof -
  let ?m = "MarkReady (snd (UpdateNode node_a (NewNodeMap (\<lambda>node. node_Name node = ''a''))))"
  have wf: "wf_NodeMap ?m"
    unfolding UpdateNode_def by (intro wf_NodeMap_MarkReady wf_NodeMap_updateNode wf_NodeMap_NewNodeMap)
  have eq: "?m = \<lparr>nm_mePredicate = (\<lambda>node. node_Name node = ''a''), nm_ready = True, nm_nodes = [(''a'', 0)],
      nm_version = 1, nm_me = Some 0, nm_heap = [nodeView node_a]\<rparr>"
    by (simp add: UpdateNode_def updateNode_fresh NewNodeMap_def newly_me_def MarkReady_def)
  have snap: "Snapshot rev ?m = (Some (nodeView node_a), [nodeView node_a], 1)"
    unfolding eq by (simp add: Snapshot_def me_of_def)
  obtain w' where run: "agent_EnsureCIDRs env_sample od_sample ?m (ProviderLayer2 l2_sample, empty_world) =
      (Ret (), (ProviderLayer2 (l2_sample\<lparr>l2_lastVersionApplied := 1\<rparr>), w'))"
    using env_sample_layer2_alone [OF snap] by blast
  have "IsReady ?m" "nm_version ?m \<noteq> 0" unfolding eq by (simp_all add: IsReady_def)
  from agent_provider_contract [OF run this wf] run show ?thesis by blast
qed

text \<open>When the start succeeds, the running provider is of the kind that the options name and has
  applied nothing yet, the node map is empty and not ready, and the routing controller runs that
  provider.\<close>

lemma agent_run_builds:
  assumes "agent_run env od w = (Ret a, w')"
  shows "agent_applied (ag_provider a) = 0 \<and> rc_provider (ag_controller a) = agent_EnsureCIDRs env od \<and>
    (\<exists>matcher. nc_nodeMap (ag_nodeController a) = NewNodeMap matcher) \<and>
    (\<exists>options w1. agent_options (ae_files env) (ae_Unmarshal env) (ae_ParseDuration env) (ae_klogFlags env) (ae_osArgs env) w =
        (Ret options, w1) \<and> provider_name (ag_provider a) = opt_Provider options)"
proof -
  from assms obtain options w1 matcher w2 w3 links w4 kubeNodes kubeStatus where
    o: "agent_options (ae_files env) (ae_Unmarshal env) (ae_ParseDuration env) (ae_klogFlags env) (ae_osArgs env) w = (Ret options, w1)"
    and p: "build_provider (ae_netlink env) (ae_sockets env) (ae_modprobe env) options links w4 = (Ret (ag_provider a), w')"
    and c: "ag_nodeController a = \<lparr>nc_kubeClient = kubeNodes, nc_nodeMap = NewNodeMap matcher\<rparr>"
    and rc: "ag_controller a = \<lparr>rc_provider = agent_EnsureCIDRs env od, rc_kubeClient = kubeStatus,
       rc_cniConfigWriter = agent_cniWriter (ae_files env) options\<rparr>"
    by (rule agent_run_inv)
  then show ?thesis using build_provider_name [OF p] build_provider_fresh [OF p] by auto
qed

lemma agent_run_builds_example:
  "\<exists>a. agent_run env_sample od_sample eth_world = (Ret a, eth_world) \<and> provider_name (ag_provider a) = ''layer2'' \<and>
     agent_applied (ag_provider a) = 0"
proof -
  obtain a where a: "agent_run env_sample od_sample eth_world = (Ret a, eth_world)" using env_sample_run by blast
  from agent_run_builds [OF this] show ?thesis by (auto simp: a env_sample_options)
qed

text \<open>C16: The agent finds itself: started with \<^verbatim>\<open>NODE_NAME\<close>, once the server has listed a node of that
  name and as long as that node is not deleted, the local entry of the node map is the view of
  exactly the node of that name that the server has.\<close>

theorem agent_identifies_itself:
  assumes "agent_run env od w0 = (Ret a, w0')" and "ae_NODE_NAME env \<noteq> ''''"
    and "range_order ord" and "kn_List kc w = (Inr (items, rv), w1)" and "kn_Watch kc rv w1 = (Inr watcher, w2)"
    and "ae_NODE_NAME env \<in> node_Name ` set items"
    and "\<forall>event \<in> set events. ordinary event \<and> keeps_node (ae_NODE_NAME env) event"
    and "runOnce kc ord (map ChanEvent events) (nc_nodeMap (ag_nodeController a), w) = (r, (m', w'))"
  shows "me_of m' = map_option nodeView (fold server_event events (listed items) (ae_NODE_NAME env))"
proof -
  let ?self = "ae_NODE_NAME env" and ?m = "nc_nodeMap (ag_nodeController a)"
  from assms(1) obtain options v1 matcher v2 v3 kubeNodes where
    "agent_matcher (ae_files env) (ae_Hostname env) ?self options v2 = (Ret matcher, v3)"
    "ag_nodeController a = \<lparr>nc_kubeClient = kubeNodes, nc_nodeMap = NewNodeMap matcher\<rparr>" by (rule agent_run_inv)
  then have m: "?m = NewNodeMap (\<lambda>node. node_Name node = ?self)" using assms(2) by (simp add: agent_matcher_def)
  have wf: "wf_NodeMap ?m" and me: "me_named ?self ?m" by (simp_all add: m wf_NodeMap_NewNodeMap me_named_NewNodeMap)
  have "me_named ?self m'" by (rule runOnce_me_named [OF wf me assms(4-8)])
  moreover have "\<forall>event \<in> set events. ordinary event" using assms(7) by blast
  then obtain m'' where "runOnce kc ord (map ChanEvent events) (?m, w) = (Ret Running, (m'', w2))"
    "nodes.mirrors m'' (fold server_event events (listed items))"
    using runOnce_mirrors [OF wf assms(3-5)] by blast
  ultimately show ?thesis using assms(8) by (simp add: me_named_me_of nodes.mirrors_def)
qed

theorem agent_identifies_itself_witness:
  "\<exists>a m'. agent_run env_sample od_sample eth_world = (Ret a, eth_world) \<and>
     runOnce kube_sample rev [] (nc_nodeMap (ag_nodeController a), 0) = (Ret Running, (m', 1)) \<and> me_of m' = Some (nodeView node_a)"
proof -
  obtain a where a: "agent_run env_sample od_sample eth_world = (Ret a, eth_world)" using env_sample_run by blast
  have name: "ae_NODE_NAME env_sample = ''a''" by (simp add: env_sample_def)
  have srv: "kn_List kube_sample 0 = (Inr ([node_a, node_b], ''7''), 0)" "kn_Watch kube_sample ''7'' 0 = (Inr 0, 1)"
    by (simp_all add: kube_sample_def)
  obtain m' where run: "runOnce kube_sample rev (map ChanEvent []) (nc_nodeMap (ag_nodeController a), 0) = (Ret Running, (m', 1))"
    by (simp add: runOnce_def srv Let_def)
  have "me_of m' = Some (nodeView node_a)"
    using agent_identifies_itself [OF a _ range_order_rev srv _ _ run] by (simp add: name listed_def lastNamed_def)
  then show ?thesis using a run by auto
qed

text \<open>The start refuses what it cannot run, before any of the provider's calls: a provider that is
  not known, a provider for one link when several were found, and IPsec options that name no
  strategy, each with an error and no effect.\<close>

lemma build_provider_rejects:
  assumes "opt_Provider options \<notin> {''layer2'', ''gre'', ''vxlan-legacy'', ''vxlan'', ''ipsec''} \<or>
    opt_Provider options \<in> {''layer2'', ''vxlan-legacy''} \<and> length links \<noteq> 1 \<or>
    opt_Provider options = ''ipsec'' \<and>
      (ipsec_Encryption (opt_IPSEC options) \<notin> {''none'', ''aes''} \<or>
       ipsec_Authentication (opt_IPSEC options) \<notin> {''none'', ''sha1''} \<or>
       ipsec_Encapsulation (opt_IPSEC options) \<notin> {''udp'', ''esp''})"
  shows "\<exists>e. build_provider nl sys modprobe options links w = (Err e, w)"
  using assms
  by (elim disjE conjE) (auto simp: build_provider_def agent_ipsec_def ipsec_strategies_def Let_def)

lemma build_provider_rejects_example:
  "\<exists>e. build_provider ref_netlink (ae_sockets env_sample) (ae_modprobe env_sample)
     ((InitDefaults zero_Options)\<lparr>opt_Provider := ''layer2''\<rparr>) [''eth0'', ''eth1''] eth_world = (Err e, eth_world)"
  by (rule build_provider_rejects) simp

end
