(* ===== verification/System.thy ===== *)
theory System
  imports Agent
begin

text \<open>
  The running agent: the goroutines of the node watcher and the routing controller, the API server
  and the kernel, step by step in any order.

  The steps are those of the code: a round of the watcher (\<^verbatim>\<open>runOnce\<close>) lists the nodes, replaces the
  map and watches; the watch delivers one event after the other; a list, a watch or the channel can
  fail at any time, and the next round starts.  The controller calls \<^verbatim>\<open>EnsureCIDRs\<close> on the map of the
  moment.  The server changes its nodes at any time, also between the reply to a list and the
  replacement of the map, and sends the changes since the list in order, which is what watching
  from the version of the list means.  Anybody may change the kernel.

  Two fields are not of the program: the node map that the provider has last applied, and a bound
  on the changes of the map since then.  The invariant relates them to the server, and the
  conclusion is that an agent at rest has applied what the server has.
\<close>

section \<open>Steps\<close>

datatype watch_phase = Idle | Listed "k8s_node list" | Watching

record ('p, 'w) system =
  sy_server :: "string \<Rightarrow> k8s_node option"
  sy_phase :: watch_phase
  sy_pending :: "watch_event list"
  sy_map :: NodeMap
  sy_provider :: 'p
  sy_world :: 'w
  sy_applied :: "NodeMap option"
  sy_changes :: nat

text \<open>What a step of the watcher does to the map, and the entries that it may have changed.\<close>

definition with_map :: "NodeMap \<Rightarrow> nat \<Rightarrow> ('p, 'w) system \<Rightarrow> ('p, 'w) system" where
  "with_map m n s = s\<lparr>sy_map := m, sy_changes := sy_changes s + n\<rparr>"

definition replace_cost :: "k8s_node list \<Rightarrow> NodeMap \<Rightarrow> nat" where
  "replace_cost items m = length items + length (nm_nodes (snd (updateNodes items m)))"

text \<open>\<open>applied\<close> is the version that a provider has applied.\<close>

inductive system_step ::
  "(NodeMap \<Rightarrow> ('p \<times> 'w, unit) io) \<Rightarrow> ('p \<Rightarrow> 64 word) \<Rightarrow> ('p, 'w) system \<Rightarrow> ('p, 'w) system \<Rightarrow> bool"
  for ensure applied
where
  Server_change: "ordinary event \<Longrightarrow>
    system_step ensure applied s
      (s\<lparr>sy_server := server_event event (sy_server s),
        sy_pending := (if sy_phase s = Idle then [] else sy_pending s @ [event])\<rparr>)"
| Node_list: "sy_phase s = Idle \<Longrightarrow> listed items = sy_server s \<Longrightarrow>
    system_step ensure applied s (s\<lparr>sy_phase := Listed items, sy_pending := []\<rparr>)"
| Node_replace: "sy_phase s = Listed items \<Longrightarrow> range_order ord \<Longrightarrow>
    system_step ensure applied s
      (with_map (MarkReady (snd (ReplaceAllNodes ord items (sy_map s)))) (replace_cost items (sy_map s)) s\<lparr>sy_phase := Watching\<rparr>)"
| Watch_fails: "sy_phase s = Listed items \<Longrightarrow> range_order ord \<Longrightarrow>
    system_step ensure applied s
      (with_map (MarkReady (snd (ReplaceAllNodes ord items (sy_map s)))) (replace_cost items (sy_map s)) s
        \<lparr>sy_phase := Idle, sy_pending := []\<rparr>)"
| Node_event: "sy_phase s = Watching \<Longrightarrow> sy_pending s = event # events \<Longrightarrow>
    watch_loop [ChanEvent event] (sy_map s) = (Ret Running, m) \<Longrightarrow>
    system_step ensure applied s (with_map m 1 s\<lparr>sy_pending := events\<rparr>)"
| Watch_ends: "system_step ensure applied s (s\<lparr>sy_phase := Idle, sy_pending := []\<rparr>)"
| Apply: "IsReady (sy_map s) \<Longrightarrow> \<not> up_to_date (applied (sy_provider s)) (sy_map s) \<Longrightarrow>
    ensure (sy_map s) (sy_provider s, sy_world s) = (Ret (), (p, w)) \<Longrightarrow>
    system_step ensure applied s (s\<lparr>sy_provider := p, sy_world := w, sy_applied := Some (sy_map s), sy_changes := 0\<rparr>)"
| Skip: "IsReady (sy_map s) \<Longrightarrow> up_to_date (applied (sy_provider s)) (sy_map s) \<Longrightarrow>
    ensure (sy_map s) (sy_provider s, sy_world s) = (Ret (), (p, w)) \<Longrightarrow>
    system_step ensure applied s (s\<lparr>sy_provider := p, sy_world := w\<rparr>)"
| Apply_fails: "IsReady (sy_map s) \<Longrightarrow>
    ensure (sy_map s) (sy_provider s, sy_world s) = (Err e, (p, w)) \<Longrightarrow>
    system_step ensure applied s (s\<lparr>sy_provider := p, sy_world := w\<rparr>)"
| World: "system_step ensure applied s (s\<lparr>sy_world := w\<rparr>)"

text \<open>The agent as it is started: an empty map, and a provider that has applied nothing.\<close>

definition system_start :: "('p \<Rightarrow> 64 word) \<Rightarrow> ('p, 'w) system \<Rightarrow> bool" where
  "system_start applied s \<longleftrightarrow> (\<exists>matcher. sy_map s = NewNodeMap matcher) \<and> sy_phase s = Idle \<and> sy_pending s = [] \<and>
     applied (sy_provider s) = 0 \<and> sy_applied s = None \<and> sy_changes s = 0"

inductive system_reachable ::
  "(NodeMap \<Rightarrow> ('p \<times> 'w, unit) io) \<Rightarrow> ('p \<Rightarrow> 64 word) \<Rightarrow> ('p, 'w) system \<Rightarrow> bool"
  for ensure applied
where
  Start: "system_start applied s \<Longrightarrow> system_reachable ensure applied s"
| Step: "system_reachable ensure applied s \<Longrightarrow> system_step ensure applied s s' \<Longrightarrow> system_reachable ensure applied s'"

section \<open>The invariant of the watcher\<close>

text \<open>The nodes that the agent will have seen when everything that was sent has arrived are the server's.\<close>

definition watcher_inv :: "('p, 'w) system \<Rightarrow> bool" where
  "watcher_inv s \<longleftrightarrow> wf_NodeMap (sy_map s) \<and> (\<forall>event \<in> set (sy_pending s). ordinary event) \<and>
     (case sy_phase s of
        Idle \<Rightarrow> True
      | Listed items \<Rightarrow> fold server_event (sy_pending s) (listed items) = sy_server s
      | Watching \<Rightarrow> IsReady (sy_map s) \<and> (\<exists>D. nodes.mirrors (sy_map s) D \<and> fold server_event (sy_pending s) D = sy_server s))"

lemma watch_loop_event:
  assumes "ordinary event" and "watch_loop [ChanEvent event] m = (Ret Running, m')"
  shows "wf_NodeMap m \<Longrightarrow> wf_NodeMap m'" and "nodes.mirrors m S \<Longrightarrow> nodes.mirrors m' (server_event event S)"
    and "IsReady m' = IsReady m"
proof -
  obtain m'' where "\<And>ins. watch_loop (ChanEvent event # ins) m = watch_loop ins m''" and ready: "IsReady m'' = IsReady m"
    and m'': "wf_NodeMap m \<longrightarrow> wf_NodeMap m''" "\<And>S. nodes.mirrors m S \<Longrightarrow> nodes.mirrors m'' (server_event event S)"
    using watch_loop_ordinary [OF assms(1)] by metis
  then have "m' = m''" using assms(2) by simp
  then show "wf_NodeMap m \<Longrightarrow> wf_NodeMap m'" and "nodes.mirrors m S \<Longrightarrow> nodes.mirrors m' (server_event event S)"
    and "IsReady m' = IsReady m"
    using m'' ready by simp_all
qed

lemma fold_server_snoc: "fold server_event (events @ [event]) S = server_event event (fold server_event events S)"
  by simp

lemma watcher_inv_step:
  assumes "system_step ensure applied s s'" and "watcher_inv s"
  shows "watcher_inv s'"
  using assms(1)
proof (cases rule: system_step.cases)
  case (Server_change event)
  then show ?thesis using assms(2)
    by (auto simp: watcher_inv_def fold_server_snoc simp del: server_event.simps split: watch_phase.splits)
next
  case (Node_replace items ord)
  have "nodes.mirrors (MarkReady (snd (ReplaceAllNodes ord items (sy_map s)))) (listed items)"
    using mirrors_ReplaceAllNodes Node_replace(3) assms(2) by (simp add: watcher_inv_def)
  then show ?thesis using Node_replace assms(2) by (auto simp: watcher_inv_def with_map_def nodes.mirrors_def MarkReady_ready)
next
  case (Watch_fails items ord)
  then show ?thesis using assms(2)
    by (auto simp: watcher_inv_def with_map_def intro!: wf_NodeMap_MarkReady wf_NodeMap_ReplaceAllNodes)
next
  case (Node_event event events m)
  then have "ordinary event" using assms(2) by (simp add: watcher_inv_def)
  from watch_loop_event [OF this Node_event(4)] show ?thesis
    using Node_event assms(2) by (auto simp: watcher_inv_def with_map_def simp del: server_event.simps)
qed (use assms(2) in \<open>auto simp: watcher_inv_def split: watch_phase.splits\<close>)

section \<open>The invariant of the provider\<close>

definition provider_inv :: "('p \<Rightarrow> 64 word) \<Rightarrow> ('p, 'w) system \<Rightarrow> bool" where
  "provider_inv applied s \<longleftrightarrow>
     (case sy_applied s of
        None \<Rightarrow> applied (sy_provider s) = 0
      | Some m0 \<Rightarrow> wf_NodeMap m0 \<and> IsReady m0 \<and> applied (sy_provider s) = nm_version m0 \<and>
          nodeMap_run (sy_changes s) m0 (sy_map s))"

text \<open>Every change of the map by the watcher is a run of the methods of the node map.\<close>

lemma run_replace:
  assumes "nodeMap_run n m0 m" and "range_order ord"
  shows "nodeMap_run (n + replace_cost items m) m0 (MarkReady (snd (ReplaceAllNodes ord items m)))"
  unfolding replace_cost_def by (intro nodeMap_run.RunReady nodeMap_run.RunReplace assms)

lemma run_event:
  assumes "ordinary event" and "watch_loop [ChanEvent event] m = (Ret Running, m')" and "nodeMap_run n m0 m"
  shows "nodeMap_run (n + 1) m0 m'"
proof (cases "ev_Type event = Bookmark")
  case True
  then show ?thesis using assms(2) nodeMap_run.RunBound [OF assms(3), of 1] by simp
next
  case False
  with assms(1) obtain node where "ev_Object event = Some node" and "ev_Type event \<in> {Added, Modified, Deleted}"
    by (auto simp: ordinary_def)
  then have "m' = snd (UpdateNode node m) \<or> m' = RemoveNode node m" using assms(2) by auto
  then show ?thesis using nodeMap_run.RunUpdate [OF assms(3), of node] nodeMap_run.RunRemove [OF assms(3), of node] by auto
qed

lemma provider_inv_with_map:
  assumes "provider_inv applied s" and "\<And>m0. nodeMap_run (sy_changes s) m0 (sy_map s) \<Longrightarrow> nodeMap_run (sy_changes s + n) m0 m"
  shows "provider_inv applied (with_map m n s\<lparr>sy_phase := ph, sy_pending := q\<rparr>)"
    and "provider_inv applied (with_map m n s\<lparr>sy_phase := ph\<rparr>)" and "provider_inv applied (with_map m n s\<lparr>sy_pending := q\<rparr>)"
  using assms by (auto simp: provider_inv_def with_map_def split: option.splits)

context routing_provider
begin

lemma provider_inv_step:
  assumes "system_step ensure applied s s'" and "watcher_inv s" and inv: "provider_inv applied s"
  shows "provider_inv applied s'"
  using assms(1)
proof (cases rule: system_step.cases)
  case (Node_replace items ord)
  then show ?thesis using provider_inv_with_map(2) [OF inv] run_replace by blast
next
  case (Watch_fails items ord)
  then show ?thesis using provider_inv_with_map(1) [OF inv] run_replace by blast
next
  case (Node_event event events m)
  then have "ordinary event" using assms(2) by (simp add: watcher_inv_def)
  then show ?thesis using provider_inv_with_map(3) [OF inv] run_event Node_event by blast
next
  case (Apply p w)
  then show ?thesis using ensure_commit [of "sy_map s" "sy_provider s" "sy_world s" p w] assms(2)
    by (auto simp: provider_inv_def watcher_inv_def nodeMap_run.RunStart)
next
  case (Skip p w)
  then have "p = sy_provider s" using ensure_skip by simp
  then show ?thesis using inv Skip(1) by (simp add: provider_inv_def split: option.splits)
next
  case (Apply_fails e p w)
  then have "applied p = applied (sy_provider s)"
    using ensure_failed [of "sy_map s" "sy_provider s" "sy_world s"] by blast
  then show ?thesis using inv Apply_fails(1) by (simp add: provider_inv_def split: option.splits)
qed (use inv in \<open>auto simp: provider_inv_def split: option.splits\<close>)

lemma system_inv: "system_reachable ensure applied s \<Longrightarrow> watcher_inv s \<and> provider_inv applied s"
proof (induction rule: system_reachable.induct)
  case (Start s)
  then show ?case
    by (auto simp: system_start_def watcher_inv_def provider_inv_def wf_NodeMap_NewNodeMap)
next
  case (Step s s')
  then show ?case using watcher_inv_step provider_inv_step by blast
qed

text \<open>At rest, what was applied is what the server has.\<close>

lemma at_rest_consistent:
  assumes "system_reachable ensure applied s" and "sy_phase s = Watching" and "sy_pending s = []"
    and "up_to_date (applied (sy_provider s)) (sy_map s)" and "sy_changes s < 2 ^ 64"
  shows "\<exists>m0. sy_applied s = Some m0 \<and> (\<forall>name. lookupNode m0 name = map_option nodeView (sy_server s name)) \<and>
    me_of m0 = me_of (sy_map s)"
proof -
  have w: "watcher_inv s" and p: "provider_inv applied s" using system_inv [OF assms(1)] by auto
  have "nodes.mirrors (sy_map s) (sy_server s)" using w assms(2,3) by (auto simp: watcher_inv_def)
  then have look: "lookupNode (sy_map s) = (\<lambda>name. map_option nodeView (sy_server s name))" by (simp add: nodes.mirrors_def)
  have "applied (sy_provider s) \<noteq> 0" using assms(4) by (simp add: up_to_date_def)
  then obtain m0 where m0: "sy_applied s = Some m0" "wf_NodeMap m0" "applied (sy_provider s) = nm_version m0"
    "nodeMap_run (sy_changes s) m0 (sy_map s)"
    using p by (auto simp: provider_inv_def split: option.splits)
  have "same_nodes m0 (sy_map s)"
    using nodeMap_run_same_version [OF m0(4,2) assms(5)] m0(3) assms(4) by (simp add: up_to_date_def IsVersion_def)
  then show ?thesis using m0(1) look by (simp add: same_nodes_def fun_eq_iff)
qed

text \<open>The agent can always come to rest: the watcher's steps deliver what was sent.\<close>

lemma deliver_pending:
  assumes "watcher_inv s" and "sy_phase s = Watching"
  shows "\<exists>s'. (system_step ensure applied)\<^sup>*\<^sup>* s s' \<and> sy_server s' = sy_server s \<and> sy_phase s' = Watching \<and>
    sy_pending s' = [] \<and> watcher_inv s'"
  using assms
proof (induction "sy_pending s" arbitrary: s)
  case Nil
  then show ?case by (intro exI [of _ s]) simp
next
  case (Cons event events)
  then have "ordinary event" by (metis list.set_intros(1) watcher_inv_def)
  then obtain m where m: "watch_loop [ChanEvent event] (sy_map s) = (Ret Running, m)"
    using watch_loop_ordinary [of event "sy_map s"] by (metis watch_loop.simps(1))
  let ?s = "with_map m 1 s\<lparr>sy_pending := events\<rparr>"
  have step: "system_step ensure applied s ?s"
    by (rule system_step.Node_event [OF Cons.prems(2) Cons.hyps(2) [symmetric] m(1)])
  have "watcher_inv ?s" by (rule watcher_inv_step [OF step Cons.prems(1)])
  then obtain s' where "(system_step ensure applied)\<^sup>*\<^sup>* ?s s'" "sy_server s' = sy_server ?s" "sy_phase s' = Watching"
    "sy_pending s' = []" "watcher_inv s'"
    using Cons.hyps(1) [of ?s] Cons.prems(2) by (auto simp: with_map_def)
  moreover from this(1) have "(system_step ensure applied)\<^sup>*\<^sup>* s s'" using step by (meson converse_rtranclp_into_rtranclp)
  ultimately show ?case by (auto simp: with_map_def)
qed

lemma start_watching:
  assumes "watcher_inv s" and "listed items = sy_server s"
  shows "\<exists>s'. (system_step ensure applied)\<^sup>*\<^sup>* s s' \<and> sy_server s' = sy_server s \<and> sy_phase s' = Watching \<and> watcher_inv s'"
proof -
  have replace: "\<exists>s'. system_step ensure applied s s' \<and> sy_server s' = sy_server s \<and> sy_phase s' = Watching \<and> watcher_inv s'"
    if "watcher_inv s" "sy_phase s = Listed items" for s :: "('p, 'w) system" and items
    using system_step.Node_replace [OF that(2) range_order_id, of ensure applied] watcher_inv_step [OF _ that(1)]
    by (fastforce simp: with_map_def)
  show ?thesis
  proof (cases "sy_phase s")
    case Idle
    let ?s = "s\<lparr>sy_phase := Listed items, sy_pending := []\<rparr>"
    have step: "system_step ensure applied s ?s" by (rule system_step.Node_list [OF Idle assms(2)])
    have "watcher_inv ?s" by (rule watcher_inv_step [OF step assms(1)])
    then obtain s' where "system_step ensure applied ?s s'" "sy_server s' = sy_server ?s" "sy_phase s' = Watching" "watcher_inv s'"
      using replace [of ?s items] by auto
    then show ?thesis using step by (intro exI [of _ s']) (auto intro: converse_rtranclp_into_rtranclp)
  next
    case (Listed items)
    then show ?thesis using replace [OF assms(1) Listed] by blast
  next
    case Watching
    then show ?thesis using assms(1) by blast
  qed
qed

lemma comes_to_rest:
  assumes "system_reachable ensure applied s" and "listed items = sy_server s"
    and ok: "\<And>m p w. IsReady m \<Longrightarrow> nodes.mirrors m (sy_server s) \<Longrightarrow> \<exists>p' w'. ensure m (p, w) = (Ret (), (p', w'))"
  shows "\<exists>s'. (system_step ensure applied)\<^sup>*\<^sup>* s s' \<and> sy_server s' = sy_server s \<and> sy_phase s' = Watching \<and>
    sy_pending s' = [] \<and> applied (sy_provider s') = nm_version (sy_map s')"
proof -
  have "watcher_inv s" using system_inv [OF assms(1)] by blast
  then obtain s1 where s1: "(system_step ensure applied)\<^sup>*\<^sup>* s s1" "sy_server s1 = sy_server s" "sy_phase s1 = Watching" "watcher_inv s1"
    using start_watching assms(2) by blast
  then obtain s2 where s2: "(system_step ensure applied)\<^sup>*\<^sup>* s1 s2" "sy_server s2 = sy_server s" "sy_phase s2 = Watching"
    "sy_pending s2 = []" "watcher_inv s2"
    using deliver_pending [OF s1(4,3)] by auto
  then have ready: "IsReady (sy_map s2)" and mir: "nodes.mirrors (sy_map s2) (sy_server s)" by (auto simp: watcher_inv_def)
  have run: "(system_step ensure applied)\<^sup>*\<^sup>* s s2" using s1(1) s2(1) by (rule rtranclp_trans)
  show ?thesis
  proof (cases "up_to_date (applied (sy_provider s2)) (sy_map s2)")
    case True
    then show ?thesis using run s2 by (auto simp: up_to_date_def IsVersion_def)
  next
    case False
    obtain p w where e: "ensure (sy_map s2) (sy_provider s2, sy_world s2) = (Ret (), (p, w))" using ok [OF ready mir] by blast
    let ?s = "s2\<lparr>sy_provider := p, sy_world := w, sy_applied := Some (sy_map s2), sy_changes := 0\<rparr>"
    have "system_step ensure applied s2 ?s" using ready False e by (rule system_step.Apply)
    then have "(system_step ensure applied)\<^sup>*\<^sup>* s ?s" using run by (rule rtranclp.rtrancl_into_rtrancl [rotated])
    then show ?thesis using s2 ensure_commit [OF e ready] by (intro exI [of _ ?s]) simp
  qed
qed

end

section \<open>A round of the watcher is a run of the system\<close>

lemma events_are_steps:
  assumes "sy_phase s = Watching" and "sy_pending s = []" and "\<forall>event \<in> set events. ordinary event"
    and "watch_loop (map ChanEvent events) (sy_map s) = (Ret Running, m)"
  shows "\<exists>s'. (system_step ensure applied)\<^sup>*\<^sup>* s s' \<and> sy_map s' = m \<and> sy_phase s' = Watching \<and> sy_pending s' = [] \<and>
    sy_server s' = fold server_event events (sy_server s)"
  using assms
proof (induction events arbitrary: s)
  case Nil
  then show ?case by (intro exI [of _ s]) simp
next
  case (Cons event events)
  then obtain m1 where m1: "\<And>ins. watch_loop (ChanEvent event # ins) (sy_map s) = watch_loop ins m1"
    using watch_loop_ordinary [of event "sy_map s"] by (metis list.set_intros(1))
  have one: "watch_loop [ChanEvent event] (sy_map s) = (Ret Running, m1)" by (simp only: m1 watch_loop.simps(1))
  let ?s1 = "s\<lparr>sy_server := server_event event (sy_server s), sy_pending := [event]\<rparr>"
  let ?s2 = "with_map m1 1 ?s1\<lparr>sy_pending := []\<rparr>"
  have "system_step ensure applied s ?s1"
    using system_step.Server_change [of event ensure applied s] Cons.prems by simp
  moreover have "system_step ensure applied ?s1 ?s2"
    using one by (intro system_step.Node_event [of _ event]) (simp_all add: Cons.prems(1))
  moreover have loop: "watch_loop (map ChanEvent events) (sy_map ?s2) = (Ret Running, m)"
    using Cons.prems(4) by (simp add: with_map_def m1 del: watch_loop.simps(4))
  have at2: "sy_phase ?s2 = Watching" "sy_pending ?s2 = []" "\<forall>event \<in> set events. ordinary event"
    using Cons.prems(1,3) by (simp_all add: with_map_def)
  obtain s' where "(system_step ensure applied)\<^sup>*\<^sup>* ?s2 s'" "sy_map s' = m" "sy_phase s' = Watching"
    "sy_pending s' = []" "sy_server s' = fold server_event events (sy_server ?s2)"
    using Cons.IH [OF at2 loop] by blast
  then show ?case
    using calculation
    by (intro exI [of _ s']) (auto simp: with_map_def simp del: server_event.simps intro: converse_rtranclp_into_rtranclp)
qed

lemma runOnce_is_steps:
  assumes "sy_phase s = Idle" and "range_order ord" and "kn_List kc v = (Inr (items, rv), v1)" and "listed items = sy_server s"
    and "kn_Watch kc rv v1 = (Inr watcher, v2)" and "\<forall>event \<in> set events. ordinary event"
    and "runOnce kc ord (map ChanEvent events) (sy_map s, v) = (Ret Running, (m, v'))"
  shows "\<exists>s'. (system_step ensure applied)\<^sup>*\<^sup>* s s' \<and> sy_map s' = m \<and> sy_phase s' = Watching \<and> sy_pending s' = [] \<and>
    sy_server s' = fold server_event events (sy_server s)"
proof -
  let ?m = "MarkReady (snd (ReplaceAllNodes ord items (sy_map s)))"
  let ?s1 = "s\<lparr>sy_phase := Listed items, sy_pending := []\<rparr>"
  let ?s2 = "with_map ?m (replace_cost items (sy_map s)) ?s1\<lparr>sy_phase := Watching\<rparr>"
  have "watch_loop (map ChanEvent events) ?m = (Ret Running, m)"
    using assms(7) by (auto simp: runOnce_def assms(3,5) Let_def split: prod.splits outcome.splits progress.splits)
  then obtain s' where "(system_step ensure applied)\<^sup>*\<^sup>* ?s2 s'" "sy_map s' = m" "sy_phase s' = Watching" "sy_pending s' = []"
    "sy_server s' = fold server_event events (sy_server ?s2)"
    using events_are_steps [of ?s2 events m] assms(6) by (auto simp: with_map_def)
  moreover have "system_step ensure applied s ?s1" by (rule system_step.Node_list [OF assms(1,4)])
  moreover have "system_step ensure applied ?s1 ?s2"
    using system_step.Node_replace [of ?s1 items ord ensure applied] assms(2) by simp
  ultimately show ?thesis
    by (intro exI [of _ s']) (auto simp: with_map_def intro: converse_rtranclp_into_rtranclp)
qed

section \<open>Properties\<close>

text \<open>The start of a run: a server with one node, which is listed and put into the map.\<close>

definition sy_start_sample :: "(agent_provider, ref_world) system" where
  "sy_start_sample =
     \<lparr>sy_server = [''a'' \<mapsto> node_a], sy_phase = Idle, sy_pending = [], sy_map = NewNodeMap (\<lambda>node. node_Name node = ''a''),
      sy_provider = ProviderLayer2 l2_sample, sy_world = empty_world, sy_applied = None, sy_changes = 0\<rparr>"

definition nm_one_sample :: NodeMap where
  "nm_one_sample =
     \<lparr>nm_mePredicate = (\<lambda>node. node_Name node = ''a''), nm_ready = True, nm_nodes = [(''a'', 0)],
      nm_version = 1, nm_me = Some 0, nm_heap = [nodeView node_a]\<rparr>"

definition sy_sample :: "(agent_provider, ref_world) system" where
  "sy_sample = sy_start_sample\<lparr>sy_phase := Watching, sy_map := nm_one_sample, sy_changes := 2\<rparr>"

lemma sy_start_sample_start: "system_start agent_applied sy_start_sample"
  by (auto simp: system_start_def sy_start_sample_def l2_sample_def)

lemma sy_sample_steps:
  "system_step ensure applied sy_start_sample (sy_start_sample\<lparr>sy_phase := Listed [node_a]\<rparr>)"
  "system_step ensure applied (sy_start_sample\<lparr>sy_phase := Listed [node_a]\<rparr>) sy_sample"
proof -
  let ?s1 = "sy_start_sample\<lparr>sy_phase := Listed [node_a]\<rparr>" and ?new = "NewNodeMap (\<lambda>node. node_Name node = ''a'')"
  have "system_step ensure applied sy_start_sample (sy_start_sample\<lparr>sy_phase := Listed [node_a], sy_pending := []\<rparr>)"
    by (rule system_step.Node_list) (auto simp: sy_start_sample_def listed_def lastNamed_def)
  then show "system_step ensure applied sy_start_sample ?s1" by (simp add: sy_start_sample_def)
  have "MarkReady (snd (ReplaceAllNodes rev [node_a] ?new)) = nm_one_sample" and "replace_cost [node_a] ?new = 2"
    by (simp_all add: ReplaceAllNodes_eq Let_def updateNodes_Cons updateNode_fresh NewNodeMap_def newly_me_def MarkReady_def
        removeUnlisted_Cons nm_one_sample_def replace_cost_def)
  then show "system_step ensure applied ?s1 sy_sample"
    using system_step.Node_replace [of ?s1 "[node_a]" rev ensure applied] by (simp add: sy_start_sample_def sy_sample_def with_map_def numeral_2_eq_2)
qed

lemma nm_one_sample_snapshot: "Snapshot rev nm_one_sample = (Some (nodeView node_a), [nodeView node_a], 1)"
  by (simp add: nm_one_sample_def Snapshot_def me_of_def)

text \<open>C3: Eventual consistency, the safety half.  In every state that the agent can reach, by any
  interleaving of watcher, controller, server and kernel, with any provider and any failures: when the
  watch has delivered everything and the provider considers itself up to date, the node map that the
  provider has last applied holds exactly the view of the nodes that the server has, and the local
  node of the moment.  The only bound is that of the version counter.\<close>

theorem agent_at_rest_consistent:
  assumes "system_reachable (agent_EnsureCIDRs env od) agent_applied s"
    and "sy_phase s = Watching" and "sy_pending s = []"
    and "up_to_date (agent_applied (sy_provider s)) (sy_map s)" and "sy_changes s < 2 ^ 64"
  shows "\<exists>m0. sy_applied s = Some m0 \<and> (\<forall>name. lookupNode m0 name = map_option nodeView (sy_server s name)) \<and>
    me_of m0 = me_of (sy_map s)"
  by (rule agent.at_rest_consistent [OF assms])

theorem agent_at_rest_consistent_witness:
  "\<exists>s m0. system_reachable (agent_EnsureCIDRs env_sample od_sample) agent_applied s \<and> sy_phase s = Watching \<and>
     sy_server s = [''a'' \<mapsto> node_a] \<and> sy_applied s = Some m0 \<and> lookupNode m0 ''a'' = Some (nodeView node_a)"
proof -
  let ?step = "system_step (agent_EnsureCIDRs env_sample od_sample) agent_applied"
  have reach: "system_reachable (agent_EnsureCIDRs env_sample od_sample) agent_applied sy_sample"
    using sy_start_sample_start sy_sample_steps by (blast intro: system_reachable.intros)
  let ?p = "ProviderLayer2 (l2_sample\<lparr>l2_lastVersionApplied := 1\<rparr>)"
  obtain w' where run: "agent_EnsureCIDRs env_sample od_sample nm_one_sample (ProviderLayer2 l2_sample, empty_world) = (Ret (), (?p, w'))"
    using env_sample_layer2_alone [OF nm_one_sample_snapshot] by blast
  let ?s = "sy_sample\<lparr>sy_provider := ?p, sy_world := w', sy_applied := Some (sy_map sy_sample), sy_changes := 0\<rparr>"
  have "?step sy_sample ?s"
    using run by (intro system_step.Apply)
      (simp_all add: sy_sample_def sy_start_sample_def nm_one_sample_def IsReady_def up_to_date_def l2_sample_def)
  then have reach3: "system_reachable (agent_EnsureCIDRs env_sample od_sample) agent_applied ?s"
    using reach by (blast intro: system_reachable.Step)
  have "up_to_date (agent_applied (sy_provider ?s)) (sy_map ?s)"
    by (simp add: sy_sample_def nm_one_sample_def up_to_date_def IsVersion_def)
  from agent_at_rest_consistent [OF reach3 _ _ this] reach3 show ?thesis
    by (intro exI [of _ ?s]) (auto simp: sy_sample_def sy_start_sample_def)
qed



end
