(* ===== verification/Agent_Main.thy ===== *)
theory Agent_Main
  imports System
begin

text \<open>
  The process of the agent: \<^verbatim>\<open>main\<close> of \<^verbatim>\<open>src/cmd/networking-agent/main.go\<close>, with the version banner at
  the head of \<^verbatim>\<open>run\<close> and the loop at its end that waits for a signal.  What \<^verbatim>\<open>select\<close> delivers to that loop is
  its input; \<open>agent_run\<close> is what lies between.  The goroutines that \<^verbatim>\<open>run\<close> starts are those of
  \<open>System\<close>; here it is shown how they end.
\<close>

section \<open>The banner\<close>

definition banner_gitVersion :: "string \<Rightarrow> string" where
  "banner_gitVersion gitVersion =
     (if gitVersion \<noteq> '''' then
        let gitVersion = (if length gitVersion > 6 then take 6 gitVersion else gitVersion) in ''git-'' @ gitVersion
      else gitVersion)"

text \<open>\<^verbatim>\<open>Version\<close> and \<^verbatim>\<open>GitVersion\<close> of \<^verbatim>\<open>src/version.go\<close>, which the build may set.\<close>

record versions =
  ver_Version :: string
  ver_GitVersion :: string

definition version_zero :: versions where
  "version_zero = \<lparr>ver_Version = '''', ver_GitVersion = ''''\<rparr>"

definition banner :: "versions \<Rightarrow> string" where
  "banner v = ''kopeio-networking '' @ ver_Version v @ '' '' @ banner_gitVersion (ver_GitVersion v) @ [CHR 0x0A]"

section \<open>The loop that waits for a signal\<close>

datatype main_select =
    MainDone gerr
  | MainSignal string

text \<open>The exit status of the process, and whether the context has been cancelled.\<close>

fun signal_loop :: "main_select list \<Rightarrow> bool \<Rightarrow> nat progress \<times> bool" where
  "signal_loop [] cancelled = (Running, cancelled)"
| "signal_loop (MainDone err # ins) cancelled = (Returned 0, cancelled)"
| "signal_loop (MainSignal sig # ins) cancelled = signal_loop ins True"

text \<open>
  What \<^verbatim>\<open>select\<close> can deliver: the context is done only when \<^verbatim>\<open>cancel\<close> was called, as the context of \<^verbatim>\<open>main\<close> is
  never done.
\<close>

fun main_possible :: "main_select list \<Rightarrow> bool \<Rightarrow> bool" where
  "main_possible [] cancelled \<longleftrightarrow> True"
| "main_possible (MainDone err # ins) cancelled \<longleftrightarrow> cancelled \<and> main_possible ins cancelled"
| "main_possible (MainSignal sig # ins) cancelled \<longleftrightarrow> main_possible ins True"

text \<open>\<open>Fprintf\<close> writes to the standard output.\<close>

definition agent_main ::
  "'w agent_env \<Rightarrow> orders \<Rightarrow> (string \<Rightarrow> 'w \<Rightarrow> 'w) \<Rightarrow> versions \<Rightarrow> main_select list \<Rightarrow> ('w, nat progress) io" where
  "agent_main env od Fprintf v ins w =
     (case agent_run env od (Fprintf (banner v) w) of
        (Ret a, w') \<Rightarrow> (Ret (fst (signal_loop ins False)), w')
      | (Err err, w') \<Rightarrow> (Fatal ''unexpected error: %v'', w')
      | (Fatal msg, w') \<Rightarrow> (Fatal msg, w')
      | (Panic msg, w') \<Rightarrow> (Panic msg, w'))"

section \<open>Lemmas\<close>

lemma banner_gitVersion_length: "length (banner_gitVersion g) \<le> 10"
  by (simp add: banner_gitVersion_def Let_def)

lemma signal_loop_exits:
  "MainDone err \<in> set ins \<Longrightarrow> fst (signal_loop ins cancelled) = Returned 0"
  by (induction ins cancelled rule: signal_loop.induct) auto

lemma signal_loop_running:
  "(\<forall>err. MainDone err \<notin> set ins) \<Longrightarrow> fst (signal_loop ins cancelled) = Running"
  by (induction ins cancelled rule: signal_loop.induct) auto

lemma main_possible_signal:
  "main_possible ins False \<Longrightarrow> MainDone err \<in> set ins \<Longrightarrow> \<exists>sig. MainSignal sig \<in> set ins"
  by (induction ins "False" rule: main_possible.induct) auto

lemma signal_loop_cancelled: "main_possible ins c \<Longrightarrow> snd (signal_loop ins c) \<longleftrightarrow> c \<or> (\<exists>sig. MainSignal sig \<in> set ins)"
  by (induction ins c rule: signal_loop.induct) auto

text \<open>A round of the watcher that sees the end of the context in its watch stops the watcher.\<close>

lemma watch_loop_cancelled:
  assumes "\<forall>event \<in> set events. ordinary event"
  shows "\<exists>m'. watch_loop (map ChanEvent events @ [CtxDone err]) m = (Ret (Returned (True, Some err)), m')"
  using assms
proof (induction events arbitrary: m)
  case (Cons event events)
  then obtain m1 where "\<And>ins. watch_loop (ChanEvent event # ins) m = watch_loop ins m1"
    using watch_loop_ordinary [of event m] by (metis list.set_intros(1))
  then show ?case using Cons by simp
qed simp

lemma NodeController_Run_cancelled:
  assumes "kn_List (nc_kubeClient c) w = (Inr (items, rv), w1)" and "kn_Watch (nc_kubeClient c) rv w1 = (Inr watcher, w2)"
    and "\<forall>event \<in> set events. ordinary event"
  shows "\<exists>m. NodeController_Run c [(ord, map ChanEvent events @ [CtxDone err])] w =
    (Ret (Returned ()), (m, kn_Stop (nc_kubeClient c) watcher w2))"
proof -
  let ?m = "MarkReady (snd (ReplaceAllNodes ord items (nc_nodeMap c)))"
  obtain m' where "watch_loop (map ChanEvent events @ [CtxDone err]) ?m = (Ret (Returned (True, Some err)), m')"
    using watch_loop_cancelled [OF assms(3)] by blast
  then show ?thesis by (simp add: NodeController_Run_def runOnce_def assms(1,2) Let_def)
qed

lemma controller_loop_cancelled: "ob_ctxErr ob = Some err \<Longrightarrow> controller_loop c (ob # obs) s = (Ret (Returned err), s)"
  by (simp add: controller_iteration_def bindM_def)

lemma runWatcher_list_fails:
  assumes "\<forall>w. \<exists>e w1. kn_List kc w = (Inl e, w1)"
  shows "\<exists>w'. runWatcher kc rounds (m, w) = (Ret Running, (m, w'))"
proof (induction rounds arbitrary: w)
  case (Cons r rounds)
  obtain e w1 where "kn_List kc w = (Inl e, w1)" using assms by blast
  then show ?case using Cons.IH [of w1] by (cases r) (simp add: runOnce_def)
qed simp

lemma controller_waits: "\<forall>nm \<in> set nms. \<not> IsReady nm \<Longrightarrow> controller_runWatcher c nms obs s = (Ret Running, s)"
  by (induction nms) auto

section \<open>Properties\<close>

text \<open>C17: The agent ends when it is told to, and only then.  Once started, the process runs until a signal
  arrived and the end of the context, which the signal causes and nothing else, was seen; then it exits
  with status 0.  On the way the watcher, in its watch, stops the watch and returns, and the routing
  controller returns at its next iteration without calling the provider.\<close>

theorem agent_shuts_down:
  assumes "agent_run env od (Fprintf (banner v) w) = (Ret a, w')" and "main_possible ins False"
  shows "agent_main env od Fprintf v ins w = (Ret (if \<exists>err. MainDone err \<in> set ins then Returned 0 else Running), w') \<and>
    ((\<exists>err. MainDone err \<in> set ins) \<longrightarrow> (\<exists>sig. MainSignal sig \<in> set ins)) \<and>
    (snd (signal_loop ins False) \<longleftrightarrow> (\<exists>sig. MainSignal sig \<in> set ins)) \<and>
    (\<forall>items rv w0 w1 w2 watcher events ord err.
       kn_List (nc_kubeClient (ag_nodeController a)) w0 = (Inr (items, rv), w1) \<and>
       kn_Watch (nc_kubeClient (ag_nodeController a)) rv w1 = (Inr watcher, w2) \<and> (\<forall>event \<in> set events. ordinary event) \<longrightarrow>
       (\<exists>m. NodeController_Run (ag_nodeController a) [(ord, map ChanEvent events @ [CtxDone err])] w0 =
          (Ret (Returned ()), (m, kn_Stop (nc_kubeClient (ag_nodeController a)) watcher w2)))) \<and>
    (\<forall>ob obs err s. ob_ctxErr ob = Some err \<longrightarrow> controller_loop (ag_controller a) (ob # obs) s = (Ret (Returned err), s))"
proof (intro conjI)
  show "agent_main env od Fprintf v ins w = (Ret (if \<exists>err. MainDone err \<in> set ins then Returned 0 else Running), w')"
    using signal_loop_exits [of _ ins False] signal_loop_running [of ins False] by (auto simp: agent_main_def assms(1))
  show "(\<exists>err. MainDone err \<in> set ins) \<longrightarrow> (\<exists>sig. MainSignal sig \<in> set ins)" using main_possible_signal [OF assms(2)] by blast
  show "snd (signal_loop ins False) \<longleftrightarrow> (\<exists>sig. MainSignal sig \<in> set ins)" using signal_loop_cancelled [OF assms(2)] by simp
qed (auto intro!: NodeController_Run_cancelled controller_loop_cancelled simp del: controller_loop.simps)

theorem agent_shuts_down_witness:
  "agent_main env_sample od_sample (\<lambda>line w. w) version_zero [MainSignal ''terminated'', MainDone (ExtErr ''context canceled'')] eth_world =
     (Ret (Returned 0), eth_world)"
proof -
  let ?ins = "[MainSignal ''terminated'', MainDone (ExtErr ''context canceled'')]"
  obtain a where run: "agent_run env_sample od_sample eth_world = (Ret a, eth_world)" using env_sample_run by blast
  have "main_possible ?ins False" by simp
  from agent_shuts_down [of env_sample od_sample "\<lambda>line w. w" version_zero eth_world a eth_world, OF run this]
  show ?thesis by simp
qed

text \<open>C39: A cancellation before the first list has succeeded is not seen by either goroutine.  A list with a
  cancelled context fails, and the watcher takes that for an error of the server and lists again, round
  after round; the node map never becomes ready, and the loop of the routing controller that waits for it
  does not look at the context.  Neither of them ever returns.\<close>

theorem cancel_before_ready_unseen:
  assumes "\<forall>w. \<exists>e w1. kn_List kc w = (Inl e, w1)" and "\<not> IsReady m"
  shows "(\<exists>w'. runWatcher kc rounds (m, w) = (Ret Running, (m, w'))) \<and>
    controller_runWatcher c (replicate n m) obs s = (Ret Running, s)"
proof
  show "\<exists>w'. runWatcher kc rounds (m, w) = (Ret Running, (m, w'))" by (rule runWatcher_list_fails [OF assms(1)])
  show "controller_runWatcher c (replicate n m) obs s = (Ret Running, s)" using assms(2) by (intro controller_waits) simp
qed

theorem cancel_before_ready_unseen_witness:
  "(\<exists>w'. runWatcher (kube_sample\<lparr>kn_List := \<lambda>w. (Inl (ExtErr ''context canceled''), w)\<rparr>)
       [(rev, [CtxDone (ExtErr ''context canceled'')]), (rev, [])] (NewNodeMap (\<lambda>node. True), 0) =
     (Ret Running, (NewNodeMap (\<lambda>node. True), w'))) \<and>
   controller_runWatcher rc_sample (replicate 3 (NewNodeMap (\<lambda>node. True))) [] (0, []) = (Ret Running, (0, []))"
  by (rule cancel_before_ready_unseen) (auto simp: NewNodeMap_def IsReady_def)

end
