(* ===== verification/Reads.thy ===== *)
theory Reads
  imports System
begin

text \<open>
  \<^verbatim>\<open>EnsureCIDRs\<close> reads the node map twice, each time under the mutex: \<^verbatim>\<open>IsVersion\<close> decides whether there is anything to
  do, \<^verbatim>\<open>Snapshot\<close> takes the nodes.  The watcher may change the map in between.  Here the two reads are steps of
  their own, and the system with them is shown to refine the one of \<open>System\<close>, in which a call reads
  the map once: every call that applies something does what one with the map of the second read does.
\<close>

section \<open>A call with two reads\<close>

definition agent_after :: "'w agent_env \<Rightarrow> orders \<Rightarrow> NodeMap \<Rightarrow> (agent_provider \<times> 'w, unit) io" where
  "agent_after env od nm s =
     (case s of (p, w) \<Rightarrow>
       (case p of
          ProviderLayer2 q \<Rightarrow>
            viaP ProviderLayer2
              (ensure_after (\<lambda>v. l2_lastVersionApplied_update (\<lambda>_. v)) (layer2_action (ae_netlink env) (or_routes od)) (or_nodes od) nm) q w
        | ProviderGre q \<Rightarrow>
            viaP ProviderGre
              (ensure_after (\<lambda>v. gre_lastVersionApplied_update (\<lambda>_. v))
                 (\<lambda>me nodes. liftW (gre_action (ae_netlink env) (or_links od) (or_actualLinks od) (or_tunnels od) (or_routes od) me nodes))
                 (or_nodes od) nm) q w
        | ProviderVxlan q \<Rightarrow>
            viaP ProviderVxlan
              (ensure_after (\<lambda>v. vx_lastVersionApplied_update (\<lambda>_. v))
                 (vxlan_action (ae_netlink env) (\<lambda>path data. fs_WriteFile (ae_files env) path data 438) (ae_NeighSubscribe env)
                    (or_addrs od) (or_actualAddrs od) (or_neighs od) (or_routes od)) (or_nodes od) nm) q w
        | ProviderVxlan2 q \<Rightarrow>
            viaP ProviderVxlan2
              (ensure_after (\<lambda>v. v2_lastVersionApplied_update (\<lambda>_. v))
                 (vxlan2_action (ae_netlink env) (or_addrs od) (or_actualAddrs od) (or_neighs od) (or_routes od)) (or_nodes od) nm) q w
        | ProviderIpsec q \<Rightarrow>
            viaP ProviderIpsec
              (ensure_after (\<lambda>v. ip_lastVersionApplied_update (\<lambda>_. v))
                 (ipsec_action (ae_netlink env) (or_states od) (or_actualStates od)) (or_nodes od) nm) q w))"

interpretation agent_reads: reading_provider "agent_EnsureCIDRs env od" agent_applied "agent_after env od"
  for env :: "'w agent_env" and od
proof
  show "agent_EnsureCIDRs env od nm (p, w) = agent_after env od nm (p, w)" if "\<not> up_to_date (agent_applied p) nm" for p nm w
    using that
    by (cases p)
      (simp_all add: agent_EnsureCIDRs_def agent_after_def viaP_def Layer2_steps Gre_steps Vxlan_steps Vxlan2_steps Ipsec_steps
        ensure_steps_after)
qed

section \<open>The steps\<close>

text \<open>The steps of everybody but the controller: those of a system whose provider never returns.\<close>

definition no_provider :: "NodeMap \<Rightarrow> ('p \<times> 'w, unit) io" where
  "no_provider nm s = (Panic '''', s)"

text \<open>A state is one of the system, and whether a call stands between its two reads.\<close>

inductive reads_step ::
  "(NodeMap \<Rightarrow> ('p \<times> 'w, unit) io) \<Rightarrow> ('p \<Rightarrow> 64 word) \<Rightarrow> ('p, 'w) system \<times> bool \<Rightarrow> ('p, 'w) system \<times> bool \<Rightarrow> bool"
  for after applied
where
  Others: "system_step no_provider applied s s' \<Longrightarrow> reads_step after applied (s, checked) (s', checked)"
| Check_skips: "IsReady (sy_map s) \<Longrightarrow> up_to_date (applied (sy_provider s)) (sy_map s) \<Longrightarrow>
    reads_step after applied (s, False) (s, False)"
| Check: "IsReady (sy_map s) \<Longrightarrow> \<not> up_to_date (applied (sy_provider s)) (sy_map s) \<Longrightarrow>
    reads_step after applied (s, False) (s, True)"
| Snapshot_applies: "after (sy_map s) (sy_provider s, sy_world s) = (Ret (), (p, w)) \<Longrightarrow>
    reads_step after applied (s, True)
      (s\<lparr>sy_provider := p, sy_world := w, sy_applied := Some (sy_map s), sy_changes := 0\<rparr>, False)"
| Snapshot_fails: "after (sy_map s) (sy_provider s, sy_world s) = (Err e, (p, w)) \<Longrightarrow>
    reads_step after applied (s, True) (s\<lparr>sy_provider := p, sy_world := w\<rparr>, False)"

text \<open>Reachable with fewer than 2 to the power 64 changes of the map between two applications.\<close>

inductive reads_reachable ::
  "(NodeMap \<Rightarrow> ('p \<times> 'w, unit) io) \<Rightarrow> ('p \<Rightarrow> 64 word) \<Rightarrow> ('p, 'w) system \<times> bool \<Rightarrow> bool"
  for after applied
where
  Reads_start: "system_start applied s \<Longrightarrow> reads_reachable after applied (s, False)"
| Reads_step: "reads_reachable after applied x \<Longrightarrow> reads_step after applied x y \<Longrightarrow> sy_changes (fst y) < 2 ^ 64 \<Longrightarrow>
    reads_reachable after applied y"

section \<open>The other steps\<close>

lemma no_provider_step:
  assumes "system_step no_provider applied s s'"
  shows "system_step ensure applied s s'"
  using assms
proof (cases rule: system_step.cases)
  case (Server_change event)
  then show ?thesis using system_step.Server_change [of event ensure applied s] by simp
next
  case (Node_event event events m)
  then show ?thesis using system_step.Node_event [of s event events m ensure applied] by (simp only:)
qed (auto simp: no_provider_def intro: system_step.intros)

text \<open>They leave provider and applied map alone; what they do to the map is a run of its methods, and counted.\<close>

lemma no_provider_frame:
  assumes "system_step no_provider applied s s'" and "watcher_inv s"
  shows "sy_provider s' = sy_provider s \<and> sy_applied s' = sy_applied s \<and> (IsReady (sy_map s) \<longrightarrow> IsReady (sy_map s')) \<and>
    (\<exists>k. sy_changes s' = sy_changes s + k \<and> (\<forall>n m. nodeMap_run n m (sy_map s) \<longrightarrow> nodeMap_run (n + k) m (sy_map s')))"
  using assms(1)
proof (cases rule: system_step.cases)
  case (Node_replace items ord)
  then show ?thesis using run_replace by (auto simp: with_map_def MarkReady_ready)
next
  case (Watch_fails items ord)
  then show ?thesis using run_replace by (auto simp: with_map_def MarkReady_ready)
next
  case (Node_event event events m)
  then have "ordinary event" using assms(2) by (simp add: watcher_inv_def)
  moreover have "IsReady m = IsReady (sy_map s)" using watch_loop_event(3) [OF calculation Node_event(4)] .
  ultimately show ?thesis using Node_event(1) run_event [OF _ Node_event(4)] by (auto simp: with_map_def intro: exI [of _ 1])
qed (auto simp: no_provider_def)

section \<open>Refinement\<close>

text \<open>A version that has moved on does not come back within 2 to the power 64 changes.\<close>

lemma version_moved:
  assumes "nodeMap_run n1 m0 m1" and "nm_version m1 \<noteq> nm_version m0" and "nodeMap_run n2 m1 m2" and "wf_NodeMap m0"
    and "n1 + n2 < 2 ^ 64"
  shows "nm_version m2 \<noteq> nm_version m0"
proof -
  obtain d1 where d1: "d1 \<le> n1" "nm_version m1 = nm_version m0 + of_nat d1" and wf: "wf_NodeMap m1"
    using nodeMap_run_drifted [OF assms(1,4)] by (auto simp: drifted_def)
  obtain d2 where d2: "d2 \<le> n2" "nm_version m2 = nm_version m1 + of_nat d2"
    using nodeMap_run_drifted [OF assms(3) wf] by (auto simp: drifted_def)
  have "d1 \<noteq> 0" using assms(2) d1(2) by (cases d1) auto
  moreover have "d1 + d2 < 2 ^ 64" using d1(1) d2(1) assms(5) by simp
  ultimately have "\<not> 2 ^ 64 dvd d1 + d2" by (auto dest: dvd_imp_le)
  then have "(of_nat (d1 + d2) :: 64 word) \<noteq> 0" using word_of_nat_eq_0_iff [where 'a = 64, of "d1 + d2"] by simp
  then show ?thesis using d1(2) d2(2) by (simp add: add.assoc)
qed

text \<open>Between the two reads of a call: the map has moved away from the applied one, and stays away.\<close>

definition moved :: "('p \<Rightarrow> 64 word) \<Rightarrow> ('p, 'w) system \<Rightarrow> bool" where
  "moved applied s \<longleftrightarrow> applied (sy_provider s) = 0 \<or>
     (\<exists>m0 m1 n1 n2. sy_applied s = Some m0 \<and> nodeMap_run n1 m0 m1 \<and> nm_version m1 \<noteq> nm_version m0 \<and>
        nodeMap_run n2 m1 (sy_map s) \<and> n1 + n2 \<le> sy_changes s)"

lemma moved_others:
  assumes "system_step no_provider applied s s'" and "watcher_inv s" and "moved applied s"
  shows "moved applied s'"
proof -
  obtain k where k: "sy_provider s' = sy_provider s" "sy_applied s' = sy_applied s" "sy_changes s' = sy_changes s + k"
    "\<And>n m. nodeMap_run n m (sy_map s) \<Longrightarrow> nodeMap_run (n + k) m (sy_map s')"
    using no_provider_frame [OF assms(1,2)] by blast
  from assms(3) consider "applied (sy_provider s) = 0"
    | m0 m1 n1 n2 where "sy_applied s = Some m0" "nodeMap_run n1 m0 m1" "nm_version m1 \<noteq> nm_version m0"
      "nodeMap_run n2 m1 (sy_map s)" "n1 + n2 \<le> sy_changes s"
    unfolding moved_def by blast
  then show ?thesis
  proof cases
    case (2 m0 m1 n1 n2)
    then have "nodeMap_run (n2 + k) m1 (sy_map s')" "n1 + (n2 + k) \<le> sy_changes s'" using k by simp_all
    then show ?thesis unfolding moved_def using 2(1-3) k(2) by metis
  qed (simp add: moved_def k(1))
qed

lemma moved_check:
  assumes "provider_inv applied s" and "\<not> up_to_date (applied (sy_provider s)) (sy_map s)"
  shows "moved applied s"
proof (cases "applied (sy_provider s) = 0")
  case False
  then obtain m0 where m0: "sy_applied s = Some m0" "applied (sy_provider s) = nm_version m0" "nodeMap_run (sy_changes s) m0 (sy_map s)"
    using assms(1) by (auto simp: provider_inv_def split: option.splits)
  moreover from this have "nm_version (sy_map s) \<noteq> nm_version m0" using assms(2) False by (simp add: up_to_date_def IsVersion_def)
  ultimately show ?thesis unfolding moved_def using nodeMap_run.RunStart [of "sy_map s"] by (metis add.right_neutral order_refl)
qed (simp add: moved_def)

lemma moved_not_up_to_date:
  assumes "moved applied s" and "provider_inv applied s" and "sy_changes s < 2 ^ 64"
  shows "\<not> up_to_date (applied (sy_provider s)) (sy_map s)"
proof (cases "applied (sy_provider s) = 0")
  case False
  then obtain m0 m1 n1 n2 where m: "sy_applied s = Some m0" "nodeMap_run n1 m0 m1" "nm_version m1 \<noteq> nm_version m0"
      "nodeMap_run n2 m1 (sy_map s)" "n1 + n2 \<le> sy_changes s"
    using assms(1) unfolding moved_def by blast
  then have "wf_NodeMap m0" "applied (sy_provider s) = nm_version m0" using assms(2) by (auto simp: provider_inv_def)
  then show ?thesis using version_moved [OF m(2-4)] m(5) assms(3) by (auto simp: up_to_date_def IsVersion_def)
qed (simp add: up_to_date_def)

context reading_provider
begin

lemma reads_refine:
  assumes "reads_reachable after applied x"
  shows "system_reachable ensure applied (fst x) \<and> sy_changes (fst x) < 2 ^ 64 \<and>
    (snd x \<longrightarrow> IsReady (sy_map (fst x)) \<and> moved applied (fst x))"
  using assms
proof (induction rule: reads_reachable.induct)
  case (Reads_start s)
  then show ?case using system_reachable.Start [OF Reads_start, of ensure] by (simp add: system_start_def)
next
  case (Reads_step x y)
  then have reach: "system_reachable ensure applied (fst x)" and small: "sy_changes (fst x) < 2 ^ 64" by auto
  then have w: "watcher_inv (fst x)" and p: "provider_inv applied (fst x)" using system_inv by auto
  from Reads_step.hyps(2) show ?case
  proof (cases rule: reads_step.cases)
    case (Others s s' c)
    then have "system_reachable ensure applied s'" using reach system_reachable.Step [OF _ no_provider_step [OF Others(3)]] by simp
    then show ?thesis using Others Reads_step no_provider_frame [OF Others(3)] moved_others [OF Others(3)] w by auto
  next
    case (Check s)
    then show ?thesis using reach small moved_check p by auto
  next
    case (Snapshot_applies s p' w')
    then have m: "\<not> up_to_date (applied (sy_provider s)) (sy_map s)" "IsReady (sy_map s)"
      using Reads_step.IH moved_not_up_to_date p by auto
    then have "ensure (sy_map s) (sy_provider s, sy_world s) = (Ret (), (p', w'))" using Snapshot_applies(3) after_check by simp
    with m have "system_step ensure applied s
        (s\<lparr>sy_provider := p', sy_world := w', sy_applied := Some (sy_map s), sy_changes := 0\<rparr>)" by (intro system_step.Apply)
    then show ?thesis using Snapshot_applies reach by (simp add: system_reachable.Step)
  next
    case (Snapshot_fails s e p' w')
    then have m: "\<not> up_to_date (applied (sy_provider s)) (sy_map s)" "IsReady (sy_map s)"
      using Reads_step.IH moved_not_up_to_date p by auto
    then have "ensure (sy_map s) (sy_provider s, sy_world s) = (Err e, (p', w'))" using Snapshot_fails(3) after_check by simp
    with m have "system_step ensure applied s (s\<lparr>sy_provider := p', sy_world := w'\<rparr>)" by (intro system_step.Apply_fails)
    then show ?thesis using Snapshot_fails reach small by (simp add: system_reachable.Step)
  qed (use reach small in auto)
qed

end

section \<open>Properties\<close>

text \<open>C10: The two reads of the node map in \<^verbatim>\<open>EnsureCIDRs\<close> act like one.  Every state that the agent can reach when
  the watcher, the server and others take steps between the two reads, with less than 2 to the power 64
  changes of the map between two applications, can be reached by calls that read the map once; and between the
  two reads, what is left of the call does at every moment what a whole call would do.\<close>

theorem agent_reads_refine:
  assumes "reads_reachable (agent_after env od) agent_applied (s, checked)"
  shows "system_reachable (agent_EnsureCIDRs env od) agent_applied s \<and>
    (checked \<longrightarrow> agent_EnsureCIDRs env od (sy_map s) (sy_provider s, sy_world s) =
       agent_after env od (sy_map s) (sy_provider s, sy_world s))"
proof -
  have reach: "system_reachable (agent_EnsureCIDRs env od) agent_applied s" and small: "sy_changes s < 2 ^ 64"
    and mv: "checked \<Longrightarrow> moved agent_applied s"
    using agent_reads.reads_refine [OF assms] by auto
  have "provider_inv agent_applied s" using agent.system_inv [OF reach] by blast
  then have "\<not> up_to_date (agent_applied (sy_provider s)) (sy_map s)" if checked using moved_not_up_to_date [OF mv _ small] that by blast
  then show ?thesis using reach by (auto intro!: agent_reads.after_check)
qed

theorem agent_reads_refine_witness:
  "\<exists>s :: (agent_provider, ref_world) system. reads_reachable (agent_after env_sample od_sample) agent_applied (s, True) \<and>
     sy_map s = RemoveNode node_a nm_one_sample \<and>
     agent_EnsureCIDRs env_sample od_sample (sy_map s) (sy_provider s, sy_world s) =
       agent_after env_sample od_sample (sy_map s) (sy_provider s, sy_world s)"
proof -
  let ?R = "reads_reachable (agent_after env_sample od_sample) agent_applied"
  let ?del = "\<lparr>ev_Type = Deleted, ev_Object = Some node_a\<rparr>"
  have "?R (sy_start_sample, False)" using sy_start_sample_start by (rule reads_reachable.Reads_start)
  then have "?R (sy_start_sample\<lparr>sy_phase := Listed [node_a]\<rparr>, False)"
    by (rule reads_reachable.Reads_step [OF _ reads_step.Others [OF sy_sample_steps(1)]]) (simp add: sy_start_sample_def)
  then have "?R (sy_sample, False)"
    by (rule reads_reachable.Reads_step [OF _ reads_step.Others [OF sy_sample_steps(2)]]) (simp add: sy_sample_def)
  then have checked: "?R (sy_sample, True)"
    by (rule reads_reachable.Reads_step [OF _ reads_step.Check])
      (simp_all add: sy_sample_def sy_start_sample_def nm_one_sample_def IsReady_def up_to_date_def l2_sample_def)
  obtain s1 where change: "system_step no_provider agent_applied sy_sample s1" and s1: "sy_phase s1 = Watching" "sy_pending s1 = [?del]"
    "sy_map s1 = nm_one_sample" "sy_changes s1 = 2"
    using system_step.Server_change [of ?del no_provider agent_applied sy_sample]
    by (simp add: ordinary_def sy_sample_def sy_start_sample_def)
  have R1: "?R (s1, True)" using s1(4) by (intro reads_reachable.Reads_step [OF checked reads_step.Others [OF change]]) simp
  have event: "system_step no_provider agent_applied s1 (with_map (RemoveNode node_a nm_one_sample) 1 s1\<lparr>sy_pending := []\<rparr>)"
    by (rule system_step.Node_event [OF s1(1,2)]) (simp add: s1(3))
  have "?R (with_map (RemoveNode node_a nm_one_sample) 1 s1\<lparr>sy_pending := []\<rparr>, True)"
    using s1(4) by (intro reads_reachable.Reads_step [OF R1 reads_step.Others [OF event]]) (simp add: with_map_def)
  from this agent_reads_refine [OF this] show ?thesis
    by (intro exI [of _ "with_map (RemoveNode node_a nm_one_sample) 1 s1\<lparr>sy_pending := []\<rparr>"]) (simp add: with_map_def)
qed

end
