(* ===== verification/Overlay.thy ===== *)
theory Overlay
  imports Vxlan2
begin

text \<open>
  The first call of the second VXLAN provider's \<^verbatim>\<open>EnsureCIDRs\<close> (\<^verbatim>\<open>src/pkg/routing/vxlan2/vxlan2routing.go\<close>) on a
  machine that has no VXLAN link yet: the set-up of the link and the tables of neighbours and routes, one after the other.
  The calls that configure links leave the tables alone, and the other way round.
\<close>

definition setup_keeps :: "'w netlink \<Rightarrow> ('w \<Rightarrow> 'v) \<Rightarrow> bool" where
  "setup_keeps nl v \<longleftrightarrow>
     (\<forall>n. keeps_ext v (nl_LinkByName nl n)) \<and> (\<forall>l. keeps_ext v (nl_LinkAdd nl l)) \<and>
     (\<forall>l a. keeps_ext v (nl_LinkSetHardwareAddr nl l a)) \<and> (\<forall>l m. keeps_ext v (nl_LinkSetMTU nl l m)) \<and>
     (\<forall>l. keeps_ext v (nl_LinkSetUp nl l)) \<and> (\<forall>l. keeps_ext v (nl_AddrList nl l)) \<and>
     (\<forall>l a. keeps_ext v (nl_AddrAdd nl l a)) \<and> (\<forall>l a. keeps_ext v (nl_AddrDel nl l a))"

definition tables_keep :: "'w netlink \<Rightarrow> ('w \<Rightarrow> 'v) \<Rightarrow> bool" where
  "tables_keep nl v \<longleftrightarrow>
     (\<forall>i. keeps_ext v (nl_NeighList nl i)) \<and> (\<forall>n. keeps_ext v (nl_NeighSet nl n)) \<and> (\<forall>l. keeps_ext v (nl_RouteList nl l)) \<and>
     (\<forall>r. keeps_ext v (nl_RouteAdd nl r)) \<and> (\<forall>r. keeps_ext v (nl_RouteDel nl r))"

lemma keeps_mapToMAC2: "keeps v (mapToMAC2 a)"
  by (auto simp: mapToMAC2_def intro!: keeps_intros split: option.split)

lemma keeps_findLink: "setup_keeps nl v \<Longrightarrow> keeps v (vxlan2_findLink nl p me mac)"
  by (auto simp: vxlan2_findLink_def setup_keeps_def intro!: keeps_intros split: gerr.split option.split)

lemma keeps_EnsureLink:
  assumes "setup_keeps nl v"
  shows "keeps v (Vxlan2_EnsureLink nl ordE ordA p me cidr)"
proof -
  have "keeps v (EnsureLinkAddresses nl ordE ordA l es)" for l es using assms by (intro keeps_EnsureLinkAddresses) (auto simp: setup_keeps_def)
  then show ?thesis using assms keeps_mapToMAC2 keeps_findLink [OF assms]
    by (auto simp: Vxlan2_EnsureLink_def setup_keeps_def intro!: keeps_intros)
qed

lemma keeps_entries: "keeps v (vxlan2_entries nl i rs ns rts)"
  by (induction rs arbitrary: ns rts) (auto intro!: keeps_intros keeps_mapToMAC2)

lemma keeps_apply:
  assumes "tables_keep nl v"
  shows "keeps v (vxlan2_apply nl ordN ordR me nodes l)"
proof -
  have "keeps v (NeighTable_Ensure nl ordN l ns)" for ns
    using assms by (auto simp: NeighTable_Ensure_def Let_def tables_keep_def intro!: keeps_intros)
  moreover have "keeps v (RouteTable_Ensure nl ordR (Some l) rs True)" for rs
    using assms by (auto simp: RouteTable_Ensure_def Let_def tables_keep_def intro!: keeps_intros split: sum.split prod.split)
  ultimately show ?thesis using keeps_entries by (auto simp: vxlan2_apply_def intro!: keeps_intros)
qed

text \<open>The set-up first; then the call goes on as a later one does.\<close>

lemma Vxlan2_EnsureCIDRs_setup:
  assumes stale: "\<not> up_to_date (v2_lastVersionApplied p) nm" and snap: "Snapshot ordS nm = (Some me, nodes, v)"
    and me: "ni_PodCIDR me = Some cidr" "ni_Address me \<noteq> None" and p: "v2_link p = None"
    and link: "Vxlan2_EnsureLink nl ordE ordA p (ni_Address me) cidr w = (Ret l, w1)" "is_vxlan l"
  shows "Vxlan2_EnsureCIDRs nl ordS ordE ordA ordN ordR nm (p, w) =
    Vxlan2_EnsureCIDRs nl ordS ordE ordA ordN ordR nm (p\<lparr>v2_link := Some l\<rparr>, w1)"
proof -
  have stale': "\<not> up_to_date (v2_lastVersionApplied (p\<lparr>v2_link := Some l\<rparr>)) nm" using stale by simp
  have "bindM (vxlan2_setUp nl ordE ordA (ni_Address me) cidr) g (p, w) = g () (p\<lparr>v2_link := Some l\<rparr>, w1)" for g :: "unit \<Rightarrow> (_, unit) io"
    using p link by (simp add: vxlan2_setUp_def bindM_def getP_def)
  moreover have "bindM (vxlan2_setUp nl ordE ordA (ni_Address me) cidr) g (p\<lparr>v2_link := Some l\<rparr>, w1) = g () (p\<lparr>v2_link := Some l\<rparr>, w1)"
    for g :: "unit \<Rightarrow> (_, unit) io" by (simp add: vxlan2_setUp_def bindM_def getP_def)
  ultimately show ?thesis
    unfolding Vxlan2_steps ensure_steps_run [of v2_lastVersionApplied, OF stale snap] ensure_steps_run [of v2_lastVersionApplied, OF stale' snap]
    using me by (auto simp: vxlan2_action_def bindM_assoc)
qed

text \<open>
  The way of a packet to the pod network of a node: route, neighbour entry and forwarding entry of the link with the index
  \<open>i\<close>, to the node's address.
\<close>

definition overlay_path :: "('w \<Rightarrow> neigh list) \<Rightarrow> ('w \<Rightarrow> route list) \<Rightarrow> int \<Rightarrow> 'w \<Rightarrow> NodeInfo \<Rightarrow> bool" where
  "overlay_path neighs routes i w r \<longleftrightarrow>
     (\<exists>x \<in> set (routes w). \<exists>a \<in> set (neighs w). \<exists>f \<in> set (neighs w).
        rt_LinkIndex x = i \<and> ipnetEqual (rt_Dst x) (ni_PodCIDR r) \<and>
        ng_LinkIndex a = i \<and> ng_Family a = FAMILY_V4 \<and> IP_Equal (rt_Gw x) (ng_IP a) \<and>
        ng_LinkIndex f = i \<and> ng_Family f = AF_BRIDGE \<and> hw_bytes (ng_HardwareAddr f) = hw_bytes (ng_HardwareAddr a) \<and>
        IP_Equal (ng_IP f) (ni_Address r))"

text \<open>What the addresses of the remote nodes have to be for their entries not to get in each other's way.\<close>

definition overlay_addresses :: "NodeInfo list \<Rightarrow> bool" where
  "overlay_addresses rs \<longleftrightarrow>
     (\<forall>r \<in> set rs. To4 (pod_ip r) \<noteq> None) \<and> distinct (map (\<lambda>r. mac_of (pod_ip r)) rs) \<and>
     distinct (concat (map (\<lambda>r. [IP_String (pod_ip r), IP_String (ni_Address r)]) rs)) \<and>
     distinct_on (\<lambda>r. ipnet_key (ni_PodCIDR r)) rs"

definition overlay_machine ::
  "'w netlink \<Rightarrow> ('w \<Rightarrow> link list) \<Rightarrow> ('w \<Rightarrow> addr list) \<Rightarrow> ('w \<Rightarrow> neigh list) \<Rightarrow> ('w \<Rightarrow> route list) \<Rightarrow> (neigh \<Rightarrow> bool) \<Rightarrow> string \<Rightarrow> bool" where
  "overlay_machine nl links addrs neighs routes shown n \<longleftrightarrow>
     link_config nl links addrs n (\<lambda>_. True) (\<lambda>_. True) \<and> overlay_kernel nl neighs routes shown (\<lambda>_. True) (\<lambda>_. True) \<and>
     setup_keeps nl neighs \<and> setup_keeps nl routes \<and> tables_keep nl links \<and>
     (\<forall>r f. \<exists>g. nl_RouteSetFlag nl r f = r\<lparr>rt_Flags := g\<rparr>)"

lemma Vxlan2_first_call:
  assumes ker: "overlay_machine nl links addrs neighs routes shown (vxlan2_name p)"
    and ord: "range_order ordE" "range_order ordA" "range_order ordN" "range_order ordR"
    and snap: "Snapshot ordS nm = (Some me, nodes, v)" and stale: "\<not> up_to_date (v2_lastVersionApplied p) nm"
    and me: "ni_PodCIDR me = Some cidr" "ni_Address me \<noteq> None" "To4 (ipn_IP cidr) \<noteq> None" and p: "v2_link p = None"
    and fresh: "named (vxlan2_name p) (links w) = []" "addrs w = []" "managed_addr (vxlan2_addr p cidr)"
    and rs: "overlay_addresses (remotes me nodes)" and T: "distinct_on route_key (routes w)"
    and other: "\<forall>x \<in> set (routes w). \<forall>r \<in> set (remotes me nodes). route_key x \<noteq> ipnet_key (ni_PodCIDR r)"
  shows "\<exists>l k w'. Vxlan2_EnsureCIDRs nl ordS ordE ordA ordN ordR nm (p, w) =
      (Ret (), (p\<lparr>v2_link := Some l, v2_lastVersionApplied := v\<rparr>, w')) \<and>
    named (vxlan2_name p) (links w') = [k] \<and> lk_Index k = lk_Index l \<and> lk_HardwareAddr k = mac_of (ipn_IP cidr) \<and>
    lk_MTU k = v2_mtu p \<and> and (lk_Flags k) FlagUp \<noteq> 0 \<and>
    (\<forall>r \<in> set (remotes me nodes). overlay_path neighs routes (lk_Index k) w' r)"
proof -
  have k: "link_config nl links addrs (vxlan2_name p) (\<lambda>_. True) (\<lambda>_. True)" "overlay_kernel nl neighs routes shown (\<lambda>_. True) (\<lambda>_. True)"
    "setup_keeps nl neighs" "setup_keeps nl routes" "tables_keep nl links" "\<forall>r f. \<exists>g. nl_RouteSetFlag nl r f = r\<lparr>rt_Flags := g\<rparr>"
    using ker unfolding overlay_machine_def by blast+
  have one: "length (named (vxlan2_name p) (links w)) \<le> 1" using fresh(1) by simp
  have adT: "distinct_on addr_expected_key (filter managed_addr (addrs w))"
    "\<forall>x \<in> set (addrs w). addr_clash x (vxlan2_addr p cidr) \<longrightarrow> addrEqual x (vxlan2_addr p cidr)"
    using fresh(2) by simp_all
  obtain l d w1 where link: "Vxlan2_EnsureLink nl ordE ordA p (ni_Address me) cidr w = (Ret l, w1)" "named (vxlan2_name p) (links w1) = [d]"
    "lk_Index d = lk_Index l" "lk_HardwareAddr d = mac_of (ipn_IP cidr)" "lk_MTU d = v2_mtu p" "and (lk_Flags d) FlagUp \<noteq> 0" "is_vxlan l"
    using Vxlan2_EnsureLink_run [OF k(1) ord(1,2) me(3) one TrueI fresh(3) TrueI adT, of "ni_Address me"] fresh(1) by auto
  have same: "routes w1 = routes w"
    using keeps_snd [OF keeps_EnsureLink [OF k(4)], of ordE ordA p "ni_Address me" cidr w] link(1) by simp
  let ?p = "p\<lparr>v2_link := Some l\<rparr>"
  have stale': "\<not> up_to_date (v2_lastVersionApplied ?p) nm" using stale by simp
  moreover have "ni_PodCIDR me \<noteq> None" using me(1) by simp
  moreover have "distinct_on route_key (filter (on_link (Some l)) (routes w1))" using T same by (simp add: distinct_on_filter)
  ultimately obtain w' where run: "Vxlan2_EnsureCIDRs nl ordS ordE ordA ordN ordR nm (?p, w1) = (Ret (), (?p\<lparr>v2_lastVersionApplied := v\<rparr>, w'))"
    and paths: "\<forall>r \<in> set (remotes me nodes). overlay_path neighs routes (lk_Index l) w' r"
    using Vxlan2_EnsureCIDRs_reachable [OF k(2) ord(3,4) k(6) snap, of ?p l w1 ordE ordA] me(2) rs other
    by (fastforce simp: overlay_addresses_def overlay_path_def same)
  have "vxlan2_apply nl ordN ordR me nodes l w1 = (Ret (), w')"
    using run unfolding Vxlan2_steps ensure_steps_run [of v2_lastVersionApplied, OF stale' snap]
    by (cases "vxlan2_apply nl ordN ordR me nodes l w1"; cases "fst (vxlan2_apply nl ordN ordR me nodes l w1)")
      (use me in \<open>auto simp: vxlan2_action_def vxlan2_setUp_def bindM_def getP_def\<close>)
  then have "links w' = links w1" using keeps_snd [OF keeps_apply [OF k(5)], of ordN ordR me nodes l w1] by simp
  then show ?thesis
    using Vxlan2_EnsureCIDRs_setup [OF stale snap me(1,2) p link(1,7), of ordN ordR] run paths link by auto
qed

lemma ref_overlay_machine: "overlay_machine ref_netlink rw_links rw_addrs rw_neighs rw_routes (\<lambda>_. True) n"
proof -
  have "setup_keeps ref_netlink rw_neighs" "setup_keeps ref_netlink rw_routes" "tables_keep ref_netlink rw_links"
    by (simp_all add: setup_keeps_def tables_keep_def keeps_ext_def ref_calls ref_list_def ref_add_def ref_set_def ref_del_def ref_update_def
        ref_LinkAdd_def ref_LinkByName_def Let_def split: option.split)
  then show ?thesis unfolding overlay_machine_def using ref_link_config ref_overlay_kernel ref_RouteSetFlag by blast
qed

end
