(* ===== verification/Api_Types.thy ===== *)
theory Api_Types
  imports Net_Prelude
begin

text \<open>
  The API object of the operator (\<^verbatim>\<open>src/operator/api/v1alpha1\<close>): the types of \<^verbatim>\<open>networking_types.go\<close>, its
  accessors, the registration with the scheme (\<^verbatim>\<open>groupversion_info.go\<close>), and the deep copies of \<^verbatim>\<open>zz_generated.deepcopy.go\<close>.

  Metadata and the embedded structures are types of the API machinery and of the declarative pattern.
  They hold pointers of their own, so their deep copies, which are outside code, work on a store of cells.
  A slice of objects is the address of an array in a second store.  A pointer to an object that may be
  nil is an option.
\<close>

section \<open>The types\<close>

record TypeMeta =
  tm_Kind :: string
  tm_APIVersion :: string

record ('c, 'p) NetworkingSpec =
  ns_CommonSpec :: 'c
  ns_PatchSpec :: 'p

record 's NetworkingStatus =
  nst_CommonStatus :: 's

record ('m, 'c, 'p, 's) Networking =
  net_TypeMeta :: TypeMeta
  net_ObjectMeta :: 'm
  net_Spec :: "('c, 'p) NetworkingSpec"
  net_Status :: "'s NetworkingStatus"

record 'g NetworkingList =
  nl_TypeMeta :: TypeMeta
  nl_ListMeta :: 'g
  nl_Items :: "nat option"

definition ComponentName :: "('m, 'c, 'p, 's) Networking \<Rightarrow> string" where
  "ComponentName o1 = ''networking''"

definition CommonSpec :: "('m, 'c, 'p, 's) Networking \<Rightarrow> 'c" where
  "CommonSpec o1 = ns_CommonSpec (net_Spec o1)"

definition PatchSpec :: "('m, 'c, 'p, 's) Networking \<Rightarrow> 'p" where
  "PatchSpec o1 = ns_PatchSpec (net_Spec o1)"

definition GetCommonStatus :: "('m, 'c, 'p, 's) Networking \<Rightarrow> 's" where
  "GetCommonStatus o1 = nst_CommonStatus (net_Status o1)"

definition SetCommonStatus :: "'s \<Rightarrow> ('m, 'c, 'p, 's) Networking \<Rightarrow> ('m, 'c, 'p, 's) Networking" where
  "SetCommonStatus s o1 = o1\<lparr>net_Status := (net_Status o1)\<lparr>nst_CommonStatus := s\<rparr>\<rparr>"

lemma status_roundtrip:
  "GetCommonStatus (SetCommonStatus st o1) = st" "CommonSpec (SetCommonStatus st o1) = CommonSpec o1"
  "PatchSpec (SetCommonStatus st o1) = PatchSpec o1"
  by (simp_all add: GetCommonStatus_def SetCommonStatus_def CommonSpec_def PatchSpec_def)

section \<open>Registration with the scheme\<close>

text \<open>
  The scheme builder is outside code.  It is known here by what it was made with and by the calls of
  \<^verbatim>\<open>Register\<close> it has had; \<^verbatim>\<open>SchemeBuilder\<close> is a pointer, so that \<^verbatim>\<open>AddToScheme\<close>, whenever it is called after the
  initialisation of the package, works with the objects registered by \<^verbatim>\<open>init\<close>.
\<close>

record GroupVersion =
  gv_Group :: string
  gv_Version :: string

datatype api_object = NetworkingObject | NetworkingListObject

record scheme_Builder =
  bld_GroupVersion :: GroupVersion
  bld_Registered :: "api_object list list"

definition api_GroupVersion :: GroupVersion where
  "api_GroupVersion = \<lparr>gv_Group = ''addons.kope.io'', gv_Version = ''v1alpha1''\<rparr>"

definition SchemeBuilder :: scheme_Builder where
  "SchemeBuilder = \<lparr>bld_GroupVersion = api_GroupVersion, bld_Registered = []\<rparr>"

definition scheme_Register :: "api_object list \<Rightarrow> scheme_Builder \<Rightarrow> scheme_Builder" where
  "scheme_Register objects bld = bld\<lparr>bld_Registered := bld_Registered bld @ [objects]\<rparr>"

definition api_init :: "scheme_Builder \<Rightarrow> scheme_Builder" where
  "api_init = scheme_Register [NetworkingObject, NetworkingListObject]"

definition api_AddToScheme :: "(scheme_Builder \<Rightarrow> ('w, unit) ext) \<Rightarrow> ('w, unit) ext" where
  "api_AddToScheme AddToScheme = AddToScheme (api_init SchemeBuilder)"

section \<open>Deep copies\<close>

text \<open>A deep copy takes a value and the cells, and returns the copy and the cells with those it allocated.\<close>

type_synonym ('a, 'x) copier = "'a \<Rightarrow> 'x list \<Rightarrow> 'a \<times> 'x list"

record ('m, 'p, 's, 'g, 'x) deepcopies =
  dc_ObjectMeta :: "('m, 'x) copier"
  dc_PatchSpec :: "('p, 'x) copier"
  dc_CommonStatus :: "('s, 'x) copier"
  dc_ListMeta :: "('g, 'x) copier"

record ('m, 'c, 'p, 's, 'x) api_store =
  as_cells :: "'x list"
  as_arrays :: "('m, 'c, 'p, 's) Networking list list"

definition NetworkingSpec_DeepCopyInto :: "('m, 'p, 's, 'g, 'x) deepcopies \<Rightarrow> (('c, 'p) NetworkingSpec, 'x) copier" where
  "NetworkingSpec_DeepCopyInto dc in1 h =
     (let (patch, h1) = dc_PatchSpec dc (ns_PatchSpec in1) h in (in1\<lparr>ns_PatchSpec := patch\<rparr>, h1))"

definition NetworkingStatus_DeepCopyInto :: "('m, 'p, 's, 'g, 'x) deepcopies \<Rightarrow> ('s NetworkingStatus, 'x) copier" where
  "NetworkingStatus_DeepCopyInto dc in1 h =
     (let (status, h1) = dc_CommonStatus dc (nst_CommonStatus in1) h in (in1\<lparr>nst_CommonStatus := status\<rparr>, h1))"

definition Networking_DeepCopyInto :: "('m, 'p, 's, 'g, 'x) deepcopies \<Rightarrow> (('m, 'c, 'p, 's) Networking, 'x) copier" where
  "Networking_DeepCopyInto dc in1 h =
     (let (meta, h1) = dc_ObjectMeta dc (net_ObjectMeta in1) h;
          (spec, h2) = NetworkingSpec_DeepCopyInto dc (net_Spec in1) h1;
          (status, h3) = NetworkingStatus_DeepCopyInto dc (net_Status in1) h2
      in (in1\<lparr>net_ObjectMeta := meta, net_Spec := spec, net_Status := status\<rparr>, h3))"

text \<open>The loop over the items.\<close>

fun copy_items :: "('a, 'x) copier \<Rightarrow> ('a list, 'x) copier" where
  "copy_items c [] h = ([], h)"
| "copy_items c (x # xs) h = (let (y, h1) = c x h; (ys, h2) = copy_items c xs h1 in (y # ys, h2))"

definition NetworkingList_DeepCopyInto ::
  "('m, 'p, 's, 'g, 'x) deepcopies \<Rightarrow> 'g NetworkingList \<Rightarrow> ('m, 'c, 'p, 's, 'x) api_store \<Rightarrow>
   'g NetworkingList \<times> ('m, 'c, 'p, 's, 'x) api_store" where
  "NetworkingList_DeepCopyInto dc in1 st =
     (let (meta, h1) = dc_ListMeta dc (nl_ListMeta in1) (as_cells st);
          out = in1\<lparr>nl_ListMeta := meta\<rparr>
      in case nl_Items in1 of
           None \<Rightarrow> (out, st\<lparr>as_cells := h1\<rparr>)
         | Some a \<Rightarrow>
             let (items, h2) = copy_items (Networking_DeepCopyInto dc) (as_arrays st ! a) h1
             in (out\<lparr>nl_Items := Some (length (as_arrays st))\<rparr>, st\<lparr>as_cells := h2, as_arrays := as_arrays st @ [items]\<rparr>))"

text \<open>The copies behind a pointer, and those that return the interface \<^verbatim>\<open>runtime.Object\<close>.\<close>

definition via_pointer :: "('a \<Rightarrow> 'st \<Rightarrow> 'a \<times> 'st) \<Rightarrow> 'a option \<Rightarrow> 'st \<Rightarrow> 'a option \<times> 'st" where
  "via_pointer DeepCopyInto in1 st =
     (case in1 of None \<Rightarrow> (None, st) | Some x \<Rightarrow> (let (out, st') = DeepCopyInto x st in (Some out, st')))"

definition as_object :: "('a \<Rightarrow> 'st \<Rightarrow> 'a \<times> 'st) \<Rightarrow> 'a option \<Rightarrow> 'st \<Rightarrow> 'a option \<times> 'st" where
  "as_object DeepCopyInto in1 st =
     (case via_pointer DeepCopyInto in1 st of (Some c, st') \<Rightarrow> (Some c, st') | (None, st') \<Rightarrow> (None, st'))"

definition Networking_DeepCopy ::
  "('m, 'p, 's, 'g, 'x) deepcopies \<Rightarrow> ('m, 'c, 'p, 's) Networking option \<Rightarrow> 'x list \<Rightarrow> ('m, 'c, 'p, 's) Networking option \<times> 'x list" where
  "Networking_DeepCopy dc = via_pointer (Networking_DeepCopyInto dc)"

definition Networking_DeepCopyObject ::
  "('m, 'p, 's, 'g, 'x) deepcopies \<Rightarrow> ('m, 'c, 'p, 's) Networking option \<Rightarrow> 'x list \<Rightarrow> ('m, 'c, 'p, 's) Networking option \<times> 'x list" where
  "Networking_DeepCopyObject dc = as_object (Networking_DeepCopyInto dc)"

definition NetworkingList_DeepCopy ::
  "('m, 'p, 's, 'g, 'x) deepcopies \<Rightarrow> 'g NetworkingList option \<Rightarrow> ('m, 'c, 'p, 's, 'x) api_store \<Rightarrow>
   'g NetworkingList option \<times> ('m, 'c, 'p, 's, 'x) api_store" where
  "NetworkingList_DeepCopy dc = via_pointer (NetworkingList_DeepCopyInto dc)"

definition NetworkingList_DeepCopyObject ::
  "('m, 'p, 's, 'g, 'x) deepcopies \<Rightarrow> 'g NetworkingList option \<Rightarrow> ('m, 'c, 'p, 's, 'x) api_store \<Rightarrow>
   'g NetworkingList option \<times> ('m, 'c, 'p, 's, 'x) api_store" where
  "NetworkingList_DeepCopyObject dc = as_object (NetworkingList_DeepCopyInto dc)"

definition NetworkingSpec_DeepCopy ::
  "('m, 'p, 's, 'g, 'x) deepcopies \<Rightarrow> ('c, 'p) NetworkingSpec option \<Rightarrow> 'x list \<Rightarrow> ('c, 'p) NetworkingSpec option \<times> 'x list" where
  "NetworkingSpec_DeepCopy dc = via_pointer (NetworkingSpec_DeepCopyInto dc)"

definition NetworkingStatus_DeepCopy ::
  "('m, 'p, 's, 'g, 'x) deepcopies \<Rightarrow> 's NetworkingStatus option \<Rightarrow> 'x list \<Rightarrow> 's NetworkingStatus option \<times> 'x list" where
  "NetworkingStatus_DeepCopy dc = via_pointer (NetworkingStatus_DeepCopyInto dc)"

lemma as_object_via_pointer: "as_object c = via_pointer c"
  by (auto simp: fun_eq_iff as_object_def split: option.splits prod.splits)

section \<open>What a deep copy is\<close>

text \<open>
  \<open>view\<close> is what can be read through a value, \<open>foot\<close> the cells that it is read from.  A deep copy reads the
  same, allocates, and is read from cells that it allocated only.
\<close>

definition unchanged :: "nat set \<Rightarrow> 'x list \<Rightarrow> 'x list \<Rightarrow> bool" where
  "unchanged A h h' \<longleftrightarrow> (\<forall>a \<in> A. a < length h \<and> a < length h' \<and> h' ! a = h ! a)"

definition framed :: "('a \<Rightarrow> 'x list \<Rightarrow> 'v) \<Rightarrow> ('a \<Rightarrow> 'x list \<Rightarrow> nat set) \<Rightarrow> bool" where
  "framed view foot \<longleftrightarrow> (\<forall>x h h'. unchanged (foot x h) h h' \<longrightarrow> view x h' = view x h \<and> foot x h' = foot x h)"

definition copies :: "('a, 'x) copier \<Rightarrow> ('a \<Rightarrow> 'x list \<Rightarrow> 'v) \<Rightarrow> ('a \<Rightarrow> 'x list \<Rightarrow> nat set) \<Rightarrow> 'a \<Rightarrow> bool" where
  "copies copy view foot x \<longleftrightarrow>
     (\<forall>h y h'. copy x h = (y, h') \<longrightarrow> (\<exists>new. h' = h @ new) \<and>
        (foot x h \<subseteq> {..<length h} \<longrightarrow> view y h' = view x h \<and> foot y h' \<subseteq> {length h..<length h'}))"

definition deep_copier :: "('a, 'x) copier \<Rightarrow> ('a \<Rightarrow> 'x list \<Rightarrow> 'v) \<Rightarrow> ('a \<Rightarrow> 'x list \<Rightarrow> nat set) \<Rightarrow> bool" where
  "deep_copier copy view foot \<longleftrightarrow> framed view foot \<and> (\<forall>x. copies copy view foot x)"

lemma unchanged_append: "A \<subseteq> {..<length h} \<Longrightarrow> unchanged A h (h @ new)"
  by (auto simp: unchanged_def nth_append)

lemma unchanged_Un: "unchanged (A \<union> B) h h' \<longleftrightarrow> unchanged A h h' \<and> unchanged B h h'"
  by (auto simp: unchanged_def)

lemma framed_append:
  "framed view foot \<Longrightarrow> foot x h \<subseteq> {..<length h} \<Longrightarrow> view x (h @ new) = view x h \<and> foot x (h @ new) = foot x h"
  using unchanged_append unfolding framed_def by blast

lemma copiesD:
  assumes "copies copy view foot x" and "copy x h = (y, h')"
  shows "\<exists>new. h' = h @ new" and "foot x h \<subseteq> {..<length h} \<Longrightarrow> view y h' = view x h"
    and "foot x h \<subseteq> {..<length h} \<Longrightarrow> foot y h' \<subseteq> {length h..<length h'}"
  using assms unfolding copies_def by blast+

text \<open>Two copies, one after the other.\<close>

lemma copies_two:
  assumes fr: "framed v1 f1" "framed v2 f2" and c: "copies c1 v1 f1 x" "copies c2 v2 f2 y"
    and run: "c1 x h = (x', h1)" "c2 y h1 = (y', h2)"
  shows "\<exists>new. h2 = h @ new"
    and "f1 x h \<union> f2 y h \<subseteq> {..<length h} \<Longrightarrow>
      v1 x' h2 = v1 x h \<and> v2 y' h2 = v2 y h \<and> f1 x' h2 \<union> f2 y' h2 \<subseteq> {length h..<length h2}"
proof -
  obtain n1 n2 where n: "h1 = h @ n1" "h2 = h1 @ n2" using copiesD(1) [OF c(1) run(1)] copiesD(1) [OF c(2) run(2)] by blast
  then show "\<exists>new. h2 = h @ new" by simp
  assume "f1 x h \<union> f2 y h \<subseteq> {..<length h}"
  then have closed: "f1 x h \<subseteq> {..<length h}" "f2 y h \<subseteq> {..<length h}" by auto
  have x': "v1 x' h1 = v1 x h" "f1 x' h1 \<subseteq> {length h..<length h1}" using copiesD(2,3) [OF c(1) run(1) closed(1)] by auto
  then have "f1 x' h1 \<subseteq> {..<length h1}" by auto
  note later = framed_append [OF fr(1) this, of n2, folded n(2)]
  have y: "v2 y h1 = v2 y h" "f2 y h1 = f2 y h" unfolding n(1) using framed_append [OF fr(2) closed(2)] by auto
  then have "f2 y h1 \<subseteq> {..<length h1}" using closed(2) n(1) by auto
  from copiesD(2,3) [OF c(2) run(2) this] have "v2 y' h2 = v2 y h" "f2 y' h2 \<subseteq> {length h1..<length h2}" using y(1) by auto
  moreover have "{length h..<length h1} \<subseteq> {length h..<length h2}" "{length h1..<length h2} \<subseteq> {length h..<length h2}" using n by auto
  ultimately show "v1 x' h2 = v1 x h \<and> v2 y' h2 = v2 y h \<and> f1 x' h2 \<union> f2 y' h2 \<subseteq> {length h..<length h2}"
    using later x' by auto
qed

text \<open>Composition: a pair, a part of a structure, and a list.\<close>

definition pair_copy :: "('a, 'x) copier \<Rightarrow> ('b, 'x) copier \<Rightarrow> ('a \<times> 'b, 'x) copier" where
  "pair_copy c1 c2 xy h = (let (x', h1) = c1 (fst xy) h; (y', h2) = c2 (snd xy) h1 in ((x', y'), h2))"

lemma framed_pair:
  "framed v1 f1 \<Longrightarrow> framed v2 f2 \<Longrightarrow>
   framed (\<lambda>xy h. (v1 (fst xy) h, v2 (snd xy) h)) (\<lambda>xy h. f1 (fst xy) h \<union> f2 (snd xy) h)"
  unfolding framed_def unchanged_Un by (metis (no_types, lifting))

lemma deep_copier_pair:
  assumes "deep_copier c1 v1 f1" and "deep_copier c2 v2 f2"
  shows "deep_copier (pair_copy c1 c2) (\<lambda>xy h. (v1 (fst xy) h, v2 (snd xy) h)) (\<lambda>xy h. f1 (fst xy) h \<union> f2 (snd xy) h)"
  unfolding deep_copier_def
proof (intro conjI allI)
  show "framed (\<lambda>xy h. (v1 (fst xy) h, v2 (snd xy) h)) (\<lambda>xy h. f1 (fst xy) h \<union> f2 (snd xy) h)"
    using assms by (intro framed_pair) (auto simp: deep_copier_def)
  fix xy
  have "framed v1 f1" "framed v2 f2" "copies c1 v1 f1 (fst xy)" "copies c2 v2 f2 (snd xy)" using assms by (auto simp: deep_copier_def)
  note two = copies_two [OF this]
  show "copies (pair_copy c1 c2) (\<lambda>xy h. (v1 (fst xy) h, v2 (snd xy) h)) (\<lambda>xy h. f1 (fst xy) h \<union> f2 (snd xy) h) xy"
    unfolding copies_def
  proof (intro allI impI)
    fix h yz h' assume "pair_copy c1 c2 xy h = (yz, h')"
    then obtain x' h1 y' where r: "c1 (fst xy) h = (x', h1)" "c2 (snd xy) h1 = (y', h')" and yz: "yz = (x', y')"
      by (auto simp: pair_copy_def split: prod.splits)
    show "(\<exists>new. h' = h @ new) \<and> (f1 (fst xy) h \<union> f2 (snd xy) h \<subseteq> {..<length h} \<longrightarrow>
        (v1 (fst yz) h', v2 (snd yz) h') = (v1 (fst xy) h, v2 (snd xy) h) \<and> f1 (fst yz) h' \<union> f2 (snd yz) h' \<subseteq> {length h..<length h'})"
      using two [OF r] by (simp add: yz)
  qed
qed

lemma deep_copier_via:
  assumes "deep_copier c v f" and "\<And>x y. get (put y x) = y" and "\<And>x y. rest (put y x) = rest x"
    and "\<And>x h. c' x h = (let (y, h') = c (get x) h in (put y x, h'))"
  shows "deep_copier c' (\<lambda>x h. (rest x, v (get x) h)) (\<lambda>x. f (get x))"
proof -
  have fr: "framed v f" and c: "\<And>x. copies c v f x" using assms(1) by (auto simp: deep_copier_def)
  have "framed (\<lambda>x h. (rest x, v (get x) h)) (\<lambda>x. f (get x))" using fr unfolding framed_def by blast
  moreover have "copies c' (\<lambda>x h. (rest x, v (get x) h)) (\<lambda>x. f (get x)) x" for x
    unfolding copies_def
  proof (intro allI impI)
    fix h y h' assume "c' x h = (y, h')"
    then obtain z where z: "c (get x) h = (z, h')" and y: "y = put z x" unfolding assms(4) by (auto split: prod.splits)
    show "(\<exists>new. h' = h @ new) \<and> (f (get x) h \<subseteq> {..<length h} \<longrightarrow>
        (rest y, v (get y) h') = (rest x, v (get x) h) \<and> f (get y) h' \<subseteq> {length h..<length h'})"
      using copiesD [OF c z] by (simp add: y assms(2,3))
  qed
  ultimately show ?thesis by (simp add: deep_copier_def)
qed

lemma framed_items:
  assumes "framed v f"
  shows "framed (\<lambda>xs h. map (\<lambda>x. v x h) xs) (\<lambda>xs h. \<Union>x \<in> set xs. f x h)"
  unfolding framed_def
proof (intro allI impI)
  fix xs h h' assume "unchanged (\<Union>x \<in> set xs. f x h) h h'"
  then have "\<forall>x \<in> set xs. unchanged (f x h) h h'" by (auto simp: unchanged_def)
  then have "\<forall>x \<in> set xs. v x h' = v x h \<and> f x h' = f x h" using assms unfolding framed_def by blast
  then show "map (\<lambda>x. v x h') xs = map (\<lambda>x. v x h) xs \<and> (\<Union>x \<in> set xs. f x h') = (\<Union>x \<in> set xs. f x h)" by auto
qed

lemma deep_copier_items:
  assumes c: "deep_copier c v f"
  shows "deep_copier (copy_items c) (\<lambda>xs h. map (\<lambda>x. v x h) xs) (\<lambda>xs h. \<Union>x \<in> set xs. f x h)"
  unfolding deep_copier_def
proof (intro conjI allI)
  show fr: "framed (\<lambda>xs h. map (\<lambda>x. v x h) xs) (\<lambda>xs h. \<Union>x \<in> set xs. f x h)"
    using c by (intro framed_items) (simp add: deep_copier_def)
  fix xs
  show "copies (copy_items c) (\<lambda>xs h. map (\<lambda>x. v x h) xs) (\<lambda>xs h. \<Union>x \<in> set xs. f x h) xs"
  proof (induction xs)
    case Nil
    then show ?case by (simp add: copies_def)
  next
    case (Cons x xs)
    have "framed v f" "copies c v f x" using c by (auto simp: deep_copier_def)
    note two = copies_two [OF this(1) fr this(2) Cons.IH]
    show ?case unfolding copies_def
    proof (intro allI impI)
      fix h ys h' assume "copy_items c (x # xs) h = (ys, h')"
      then obtain y h1 zs where r: "c x h = (y, h1)" "copy_items c xs h1 = (zs, h')" and ys: "ys = y # zs"
        by (auto split: prod.splits)
      show "(\<exists>new. h' = h @ new) \<and> ((\<Union>x \<in> set (x # xs). f x h) \<subseteq> {..<length h} \<longrightarrow>
          map (\<lambda>x. v x h') ys = map (\<lambda>x. v x h) (x # xs) \<and> (\<Union>x \<in> set ys. f x h') \<subseteq> {length h..<length h'})"
        using two [OF r] by (simp add: ys)
    qed
  qed
qed

lemma deep_copier_view: "deep_copier c v f \<Longrightarrow> (\<And>x h. v' x h = g (v x h)) \<Longrightarrow> (\<And>x h. f' x h = f x h) \<Longrightarrow> deep_copier c v' f'"
  unfolding deep_copier_def framed_def copies_def by simp

section \<open>The copies of the API object\<close>

definition net_view ::
  "('m \<Rightarrow> 'x list \<Rightarrow> 'v1) \<Rightarrow> ('p \<Rightarrow> 'x list \<Rightarrow> 'v2) \<Rightarrow> ('s \<Rightarrow> 'x list \<Rightarrow> 'v3) \<Rightarrow> ('m, 'c, 'p, 's) Networking \<Rightarrow> 'x list \<Rightarrow>
   TypeMeta \<times> 'v1 \<times> 'c \<times> 'v2 \<times> 'v3" where
  "net_view vm vp vs o1 h = (net_TypeMeta o1, vm (net_ObjectMeta o1) h, CommonSpec o1, vp (PatchSpec o1) h, vs (GetCommonStatus o1) h)"

definition net_foot ::
  "('m \<Rightarrow> 'x list \<Rightarrow> nat set) \<Rightarrow> ('p \<Rightarrow> 'x list \<Rightarrow> nat set) \<Rightarrow> ('s \<Rightarrow> 'x list \<Rightarrow> nat set) \<Rightarrow> ('m, 'c, 'p, 's) Networking \<Rightarrow> 'x list \<Rightarrow>
   nat set" where
  "net_foot fm fp fs o1 h = fm (net_ObjectMeta o1) h \<union> (fp (PatchSpec o1) h \<union> fs (GetCommonStatus o1) h)"

lemma deep_copier_Spec:
  "deep_copier (dc_PatchSpec dc) vp fp \<Longrightarrow>
   deep_copier (NetworkingSpec_DeepCopyInto dc) (\<lambda>s h. (ns_CommonSpec s, vp (ns_PatchSpec s) h)) (\<lambda>s. fp (ns_PatchSpec s))"
  by (rule deep_copier_via [where put = "\<lambda>y. ns_PatchSpec_update (\<lambda>_. y)"]) (auto simp: NetworkingSpec_DeepCopyInto_def)

lemma deep_copier_Status:
  "deep_copier (dc_CommonStatus dc) vs fs \<Longrightarrow>
   deep_copier (NetworkingStatus_DeepCopyInto dc) (\<lambda>s h. ((), vs (nst_CommonStatus s) h)) (\<lambda>s. fs (nst_CommonStatus s))"
  by (rule deep_copier_via [where put = "\<lambda>y. nst_CommonStatus_update (\<lambda>_. y)"]) (auto simp: NetworkingStatus_DeepCopyInto_def)

lemma deep_copier_Networking:
  assumes "deep_copier (dc_ObjectMeta dc) vm fm" and "deep_copier (dc_PatchSpec dc) vp fp" and "deep_copier (dc_CommonStatus dc) vs fs"
  shows "deep_copier (Networking_DeepCopyInto dc) (net_view vm vp vs) (net_foot fm fp fs)"
proof -
  let ?c = "pair_copy (dc_ObjectMeta dc) (pair_copy (NetworkingSpec_DeepCopyInto dc) (NetworkingStatus_DeepCopyInto dc))"
  note parts = deep_copier_pair [OF assms(1) deep_copier_pair [OF deep_copier_Spec [OF assms(2)] deep_copier_Status [OF assms(3)]]]
  have "Networking_DeepCopyInto dc x h = (let (y, h') = ?c (net_ObjectMeta x, net_Spec x, net_Status x) h in
      (x\<lparr>net_ObjectMeta := fst y, net_Spec := fst (snd y), net_Status := snd (snd y)\<rparr>, h'))" for x h
    by (simp add: Networking_DeepCopyInto_def pair_copy_def Let_def split: prod.splits)
  note whole = deep_copier_via [OF parts, where c' = "Networking_DeepCopyInto dc" and rest = net_TypeMeta
      and get = "\<lambda>x. (net_ObjectMeta x, net_Spec x, net_Status x)", OF _ _ this]
  show ?thesis
    by (rule deep_copier_view [OF whole, where g = "\<lambda>(t, m, (c, p), (u, s)). (t, m, c, p, s)"])
      (auto simp: net_view_def net_foot_def CommonSpec_def PatchSpec_def GetCommonStatus_def)
qed

definition list_view where
  "list_view vm vp vs vl l st =
     (nl_TypeMeta l, vl (nl_ListMeta l) (as_cells st),
      map_option (\<lambda>a. map (\<lambda>o1. net_view vm vp vs o1 (as_cells st)) (as_arrays st ! a)) (nl_Items l))"

definition list_items where
  "list_items l st = (case nl_Items l of None \<Rightarrow> [] | Some a \<Rightarrow> as_arrays st ! a)"

definition list_foot where
  "list_foot fm fp fs fl l st =
     fl (nl_ListMeta l) (as_cells st) \<union> (\<Union>o1 \<in> set (list_items l st). net_foot fm fp fs o1 (as_cells st))"

text \<open>A list and what is read through it are in the store.\<close>

definition list_closed where
  "list_closed fm fp fs fl l st \<longleftrightarrow>
     list_foot fm fp fs fl l st \<subseteq> {..<length (as_cells st)} \<and> set_option (nl_Items l) \<subseteq> {..<length (as_arrays st)}"

text \<open>The store \<open>st''\<close> differs from \<open>st'\<close> in what is read through the list \<open>l'\<close> only, or is larger.\<close>

definition written_through where
  "written_through fm fp fs fl l' st' st'' \<longleftrightarrow>
     unchanged ({..<length (as_cells st')} - list_foot fm fp fs fl l' st') (as_cells st') (as_cells st'') \<and>
     unchanged ({..<length (as_arrays st')} - set_option (nl_Items l')) (as_arrays st') (as_arrays st'')"

lemma unchanged_sub: "unchanged A h h1 \<Longrightarrow> A \<subseteq> B \<Longrightarrow> unchanged B h1 h2 \<Longrightarrow> unchanged A h h2"
  unfolding unchanged_def by (metis subsetD)

lemma list_view_frame:
  fixes st st'' :: "('m, 'c, 'p, 's, 'x) api_store"
  assumes "framed vl fl" and "framed (net_view vm vp vs :: ('m, 'c, 'p, 's) Networking \<Rightarrow> _) (net_foot fm fp fs)"
    and cells: "unchanged (list_foot fm fp fs fl l st) (as_cells st) (as_cells st'')"
    and arrays: "unchanged (set_option (nl_Items l)) (as_arrays st) (as_arrays st'')"
  shows "list_view vm vp vs vl l st'' = list_view vm vp vs vl l st"
proof -
  have "unchanged (fl (nl_ListMeta l) (as_cells st)) (as_cells st) (as_cells st'')"
    and items: "unchanged (\<Union>o1 \<in> set (list_items l st). net_foot fm fp fs o1 (as_cells st)) (as_cells st) (as_cells st'')"
    using cells by (simp_all add: list_foot_def unchanged_Un)
  then have "vl (nl_ListMeta l) (as_cells st'') = vl (nl_ListMeta l) (as_cells st)" using assms(1) unfolding framed_def by blast
  moreover have "map (\<lambda>o1. net_view vm vp vs o1 (as_cells st'')) (list_items l st) = map (\<lambda>o1. net_view vm vp vs o1 (as_cells st)) (list_items l st)"
    by (rule framed_items [OF assms(2), unfolded framed_def, rule_format, OF items, THEN conjunct1])
  ultimately show ?thesis using arrays by (cases "nl_Items l") (auto simp: list_view_def list_items_def unchanged_def)
qed

lemma NetworkingList_DeepCopyInto_run:
  assumes "NetworkingList_DeepCopyInto dc l st = (l', st')"
  obtains meta h1 items h2 where "dc_ListMeta dc (nl_ListMeta l) (as_cells st) = (meta, h1)"
    and "copy_items (Networking_DeepCopyInto dc) (list_items l st) h1 = (items, h2)"
    and "nl_TypeMeta l' = nl_TypeMeta l" "nl_ListMeta l' = meta" "as_cells st' = h2" "list_items l' st' = items"
    and "nl_Items l' = map_option (\<lambda>a. length (as_arrays st)) (nl_Items l)"
    and "as_arrays st' = as_arrays st @ (if nl_Items l = None then [] else [items])"
  using assms
  by (cases "nl_Items l") (auto simp: NetworkingList_DeepCopyInto_def list_items_def Let_def split: prod.splits)

text \<open>
  The deep copy of a list reads as the original, and whatever is written through the copy afterwards, the original
  reads as before: they share nothing, given that the copies of the embedded structures are deep.
\<close>

lemma NetworkingList_DeepCopy_independent:
  fixes st st' :: "('m, 'c, 'p, 's, 'x) api_store"
  assumes "deep_copier (dc_ObjectMeta dc) vm fm" and "deep_copier (dc_PatchSpec dc) vp fp" and "deep_copier (dc_CommonStatus dc) vs fs"
    and meta: "deep_copier (dc_ListMeta dc) vl fl" and closed: "list_closed fm fp fs fl l st"
    and run: "NetworkingList_DeepCopyInto dc l st = (l', st')"
  shows "list_view vm vp vs vl l' st' = list_view vm vp vs vl l st \<and>
    (\<forall>st'' :: ('m, 'c, 'p, 's, 'x) api_store. written_through fm fp fs fl l' st' st'' \<longrightarrow> list_view vm vp vs vl l st'' = list_view vm vp vs vl l st)"
proof -
  have net: "deep_copier (Networking_DeepCopyInto dc) (net_view vm vp vs :: ('m, 'c, 'p, 's) Networking \<Rightarrow> _) (net_foot fm fp fs)"
    by (rule deep_copier_Networking [OF assms(1-3)])
  note items = deep_copier_items [OF net]
  obtain m h1 xs h2 where r: "dc_ListMeta dc (nl_ListMeta l) (as_cells st) = (m, h1)"
      "copy_items (Networking_DeepCopyInto dc) (list_items l st) h1 = (xs, h2)"
    and l': "nl_TypeMeta l' = nl_TypeMeta l" "nl_ListMeta l' = m" "list_items l' st' = xs"
      "nl_Items l' = map_option (\<lambda>a. length (as_arrays st)) (nl_Items l)"
    and st': "as_cells st' = h2" "as_arrays st' = as_arrays st @ (if nl_Items l = None then [] else [xs])"
    using NetworkingList_DeepCopyInto_run [OF run] by metis
  have fr: "framed vl fl" "framed (net_view vm vp vs :: ('m, 'c, 'p, 's) Networking \<Rightarrow> _) (net_foot fm fp fs)" using meta net by (auto simp: deep_copier_def)
  have c1: "copies (dc_ListMeta dc) vl fl (nl_ListMeta l)" using meta by (simp add: deep_copier_def)
  have c2: "copies (copy_items (Networking_DeepCopyInto dc)) (\<lambda>xs h. map (\<lambda>o1. net_view vm vp vs o1 h) xs)
      (\<lambda>xs h. \<Union>o1 \<in> set xs. net_foot fm fp fs o1 h) (list_items l st)" using items by (simp add: deep_copier_def)
  have two: "\<exists>new. h2 = as_cells st @ new"
    "vl m h2 = vl (nl_ListMeta l) (as_cells st)"
    "map (\<lambda>o1. net_view vm vp vs o1 h2) xs = map (\<lambda>o1. net_view vm vp vs o1 (as_cells st)) (list_items l st)"
    "list_foot fm fp fs fl l' st' \<subseteq> {length (as_cells st)..<length h2}"
    using copies_two [OF fr(1) framed_items [OF fr(2)] c1 c2 r] closed by (simp_all add: list_foot_def list_closed_def l' st'(1))
  have "list_view vm vp vs vl l' st' = list_view vm vp vs vl l st"
    using two(2,3) l' st' by (cases "nl_Items l") (simp_all add: list_view_def list_items_def)
  moreover have "list_view vm vp vs vl l st'' = list_view vm vp vs vl l st" if w: "written_through fm fp fs fl l' st' st''" for st'' :: "('m, 'c, 'p, 's, 'x) api_store"
  proof (rule list_view_frame [OF fr])
    show "unchanged (list_foot fm fp fs fl l st) (as_cells st) (as_cells st'')"
    proof -
      have in_st: "list_foot fm fp fs fl l st \<subseteq> {..<length (as_cells st)}" using closed by (simp add: list_closed_def)
      obtain new where h2: "h2 = as_cells st @ new" using two(1) by blast
      have "list_foot fm fp fs fl l st \<subseteq> {..<length h2} - list_foot fm fp fs fl l' st'" using in_st two(4) h2 by fastforce
      then show ?thesis
        using w unchanged_sub [OF unchanged_append [OF in_st, of new, folded h2]] by (auto simp: written_through_def st'(1))
    qed
    show "unchanged (set_option (nl_Items l)) (as_arrays st) (as_arrays st'')"
      using closed w l'(4) st'(2) by (cases "nl_Items l") (auto simp: list_closed_def written_through_def unchanged_def nth_append)
  qed
  ultimately show ?thesis by blast
qed

text \<open>Metadata behind one pointer, and structures without pointers, have deep copies.\<close>

lemma deep_copier_cell: "deep_copier (\<lambda>a h. (length h, h @ [h ! a])) (\<lambda>a h. h ! a) (\<lambda>a h. {a})"
  by (auto simp: deep_copier_def framed_def copies_def unchanged_def)

lemma deep_copier_plain: "deep_copier (\<lambda>x h. (x, h)) (\<lambda>x h. x) (\<lambda>x h. {})"
  by (auto simp: deep_copier_def framed_def copies_def)

definition dc_sample :: "(nat, string, string, string, string) deepcopies" where
  "dc_sample = \<lparr>dc_ObjectMeta = (\<lambda>a h. (length h, h @ [h ! a])), dc_PatchSpec = (\<lambda>x h. (x, h)), dc_CommonStatus = (\<lambda>x h. (x, h)),
     dc_ListMeta = (\<lambda>x h. (x, h))\<rparr>"

definition api_sample :: "nat \<Rightarrow> (nat, string, string, string) Networking" where
  "api_sample a = \<lparr>net_TypeMeta = \<lparr>tm_Kind = '''', tm_APIVersion = ''''\<rparr>, net_ObjectMeta = a,
     net_Spec = \<lparr>ns_CommonSpec = '''', ns_PatchSpec = ''''\<rparr>, net_Status = \<lparr>nst_CommonStatus = ''''\<rparr>\<rparr>"

definition api_list_sample :: "nat \<Rightarrow> string NetworkingList" where
  "api_list_sample a = \<lparr>nl_TypeMeta = \<lparr>tm_Kind = '''', tm_APIVersion = ''''\<rparr>, nl_ListMeta = '''', nl_Items = Some a\<rparr>"

lemma NetworkingList_DeepCopy_independent_example:
  "NetworkingList_DeepCopyInto dc_sample (api_list_sample 0) \<lparr>as_cells = [''labels''], as_arrays = [[api_sample 0]]\<rparr> =
     (api_list_sample 1, \<lparr>as_cells = [''labels'', ''labels''], as_arrays = [[api_sample 0], [api_sample 1]]\<rparr>) \<and>
   list_view (\<lambda>a h. h ! a) (\<lambda>x h. x) (\<lambda>x h. x) (\<lambda>x h. x) (api_list_sample 0)
     \<lparr>as_cells = [''labels'', ''changed''], as_arrays = [[api_sample 0], []]\<rparr> =
   list_view (\<lambda>a h. h ! a) (\<lambda>x h. x) (\<lambda>x h. x) (\<lambda>x h. x) (api_list_sample 0) \<lparr>as_cells = [''labels''], as_arrays = [[api_sample 0]]\<rparr>"
proof -
  let ?st = "\<lparr>as_cells = [''labels''], as_arrays = [[api_sample 0]]\<rparr>"
  let ?st' = "\<lparr>as_cells = [''labels'', ''labels''], as_arrays = [[api_sample 0], [api_sample 1]]\<rparr>"
  let ?fm = "\<lambda>a h. {a}" and ?f = "\<lambda>x h. {}"
  have run: "NetworkingList_DeepCopyInto dc_sample (api_list_sample 0) ?st = (api_list_sample 1, ?st')"
    by (simp add: NetworkingList_DeepCopyInto_def dc_sample_def api_sample_def api_list_sample_def Networking_DeepCopyInto_def
        NetworkingSpec_DeepCopyInto_def NetworkingStatus_DeepCopyInto_def)
  have dc: "deep_copier (dc_ObjectMeta dc_sample) (\<lambda>a h. h ! a) ?fm" "deep_copier (dc_PatchSpec dc_sample) (\<lambda>x h. x) ?f"
    "deep_copier (dc_CommonStatus dc_sample) (\<lambda>x h. x) ?f" "deep_copier (dc_ListMeta dc_sample) (\<lambda>x h. x) ?f"
    using deep_copier_cell deep_copier_plain by (simp_all add: dc_sample_def)
  have closed: "list_closed ?fm ?f ?f ?f (api_list_sample 0) ?st"
    by (simp add: list_closed_def list_foot_def list_items_def net_foot_def api_list_sample_def api_sample_def)
  have "written_through ?fm ?f ?f ?f (api_list_sample 1) ?st' \<lparr>as_cells = [''labels'', ''changed''], as_arrays = [[api_sample 0], []]\<rparr>"
    by (auto simp: written_through_def list_foot_def list_items_def net_foot_def unchanged_def api_list_sample_def api_sample_def less_Suc_eq)
  then show ?thesis using NetworkingList_DeepCopy_independent [OF dc closed run] run by blast
qed

end
