(* ===== verification/Operator.thy ===== *)
theory Operator
  imports Go_Flags Api_Types
begin

text \<open>
  The operator (\<^verbatim>\<open>src/operator\<close>): the transform that drops the
  RBAC objects from the manifest when the operator was started with the mode \<^verbatim>\<open>ignore\<close>, the registration of
  the controller (\<^verbatim>\<open>SetupWithManager\<close>) and \<^verbatim>\<open>main\<close>.

  Outside code is everything that these call: controller-runtime, the declarative pattern, klog and the
  API machinery.  They are the fields of \<open>operator_env\<close>.  Managers and controllers are handles; a manifest
  object is read through its group and kind only.  \<^verbatim>\<open>os.Exit\<close> after a log line is \<open>Fatal\<close> with that line.
\<close>

section \<open>The transform\<close>

record NetworkingReconciler =
  nr_RBACMode :: string

record GroupKind =
  gk_Group :: string
  gk_Kind :: string

text \<open>\<open>gk\<close> is \<^verbatim>\<open>GroupKind\<close> of an object.\<close>

fun rbac_keepItems :: "('o \<Rightarrow> GroupKind) \<Rightarrow> 'o list \<Rightarrow> 'o list \<Rightarrow> 'o list" where
  "rbac_keepItems gk [] keepItems = keepItems"
| "rbac_keepItems gk (obj # items) keepItems =
     (let keep =
        (if gk_Group (gk obj) = ''rbac.authorization.k8s.io''
         then (if gk_Kind (gk obj) \<in> {''ClusterRole'', ''ClusterRoleBinding'', ''Role'', ''RoleBinding''} then False else True)
         else True)
      in rbac_keepItems gk items (if keep then keepItems @ [obj] else keepItems))"

definition rbacModeTransform :: "NetworkingReconciler \<Rightarrow> ('o \<Rightarrow> GroupKind) \<Rightarrow> 'o list \<Rightarrow> gerr + 'o list" where
  "rbacModeTransform r gk items =
     (if nr_RBACMode r = ''reconcile'' \<or> nr_RBACMode r = '''' then Inr items
      else if nr_RBACMode r = ''ignore'' then Inr (rbac_keepItems gk items [])
      else Inl (Errorf ''unknown rbac mode %q'' None))"

section \<open>The outside code\<close>

type_synonym ('d, 'o) object_transform = "'d \<Rightarrow> 'o list \<Rightarrow> gerr + 'o list"

datatype ('d, 'o, 'l) reconcilerOption =
    WithObjectTransform "('d, 'o) object_transform"
  | WithOwner_SourceAsOwner
  | WithLabels 'l
  | WithStatus_NewBasic

record manager_Options =
  mo_MetricsBindAddress :: string
  mo_Port :: int
  mo_HealthProbeBindAddress :: string
  mo_LeaderElection :: bool
  mo_LeaderElectionID :: string
  mo_LeaderElectionResourceLock :: string

record ('d, 'o, 'l, 'w) operator_env =
  oe_GroupKind :: "'o \<Rightarrow> GroupKind"
  oe_AddLabels :: "(string \<times> string) list \<Rightarrow> ('d, 'o) object_transform"
  oe_ApplyPatches :: "('d, 'o) object_transform"
  oe_SourceLabel :: 'l
  oe_osArgs :: "string list"
  oe_libraryFlags :: "library_flag list"
  oe_clientgoAddToScheme :: "('w, unit) ext"
  oe_AddToScheme :: "scheme_Builder \<Rightarrow> ('w, unit) ext"
  oe_addon_Init :: "'w \<Rightarrow> 'w"
  oe_GetConfig :: "('w, unit) ext"
  oe_NewManager :: "manager_Options \<Rightarrow> ('w, nat) ext"
  oe_Reconciler_Init :: "nat \<Rightarrow> ('d, 'o, 'l) reconcilerOption list \<Rightarrow> ('w, unit) ext"
  oe_controller_New :: "string \<Rightarrow> nat \<Rightarrow> ('w, nat) ext"
  oe_Watch :: "nat \<Rightarrow> ('w, unit) ext"
  oe_WatchChildren :: "nat \<Rightarrow> nat \<Rightarrow> 'l \<Rightarrow> bool \<Rightarrow> ('w, unit) ext"
  oe_AddHealthzCheck :: "nat \<Rightarrow> string \<Rightarrow> ('w, unit) ext"
  oe_AddReadyzCheck :: "nat \<Rightarrow> string \<Rightarrow> ('w, unit) ext"
  oe_Start :: "nat \<Rightarrow> ('w, unit) ext"

section \<open>Registration\<close>

definition addon_InitM :: "('d, 'o, 'l, 'w) operator_env \<Rightarrow> ('w, unit) io" where
  "addon_InitM env w = (Ret (), oe_addon_Init env w)"

definition setup_options ::
  "('d, 'o, 'l, 'w) operator_env \<Rightarrow> NetworkingReconciler \<Rightarrow> ('d, 'o, 'l) reconcilerOption list" where
  "setup_options env r =
     (let labels = [(''k8s-app'', ''networking'')];
          watchLabels = oe_SourceLabel env in
      [WithObjectTransform (\<lambda>object. rbacModeTransform r (oe_GroupKind env)),
       WithObjectTransform (oe_AddLabels env labels),
       WithOwner_SourceAsOwner,
       WithLabels watchLabels,
       WithStatus_NewBasic,
       WithObjectTransform (oe_ApplyPatches env)])"

definition SetupWithManager ::
  "('d, 'o, 'l, 'w) operator_env \<Rightarrow> NetworkingReconciler \<Rightarrow> nat \<Rightarrow> ('w, unit) io" where
  "SetupWithManager env r mgr =
     bindM (addon_InitM env) (\<lambda>_.
       bindM (callM (oe_Reconciler_Init env mgr (setup_options env r))) (\<lambda>_.
         bindM (callM (oe_controller_New env ''networking-controller'' mgr)) (\<lambda>c.
           bindM (callM (oe_Watch env c)) (\<lambda>_.
             bindM (callM (oe_WatchChildren env mgr c (oe_SourceLabel env) True)) (\<lambda>_. retM ())))))"

section \<open>The process\<close>

record OperatorFlags =
  of_metricsAddr :: string
  of_probeAddr :: string
  of_enableLeaderElection :: bool
  of_rbacMode :: string

definition operator_defaults :: OperatorFlags where
  "operator_defaults =
     \<lparr>of_metricsAddr = '':8080'', of_probeAddr = '':8081'', of_enableLeaderElection = False, of_rbacMode = ''reconcile''\<rparr>"

definition operator_flags :: "(string \<times> OperatorFlags flag) list" where
  "operator_flags =
     [(''metrics-bind-address'', StringVar (\<lambda>v f. f\<lparr>of_metricsAddr := v\<rparr>)),
      (''health-probe-bind-address'', StringVar (\<lambda>v f. f\<lparr>of_probeAddr := v\<rparr>)),
      (''leader-elect'', BoolVar (\<lambda>v f. f\<lparr>of_enableLeaderElection := v\<rparr>)),
      (''rbac-mode'', StringVar (\<lambda>v f. f\<lparr>of_rbacMode := v\<rparr>))]"

text \<open>\<^verbatim>\<open>flag.Parse\<close>, which takes \<^verbatim>\<open>os.Args[1:]\<close>.\<close>

definition operator_parse :: "('d, 'o, 'l, 'w) operator_env \<Rightarrow> ('w, OperatorFlags) io" where
  "operator_parse env w =
     (Flags_Parse (operator_flags @ library_flags (oe_libraryFlags env)) (tl (oe_osArgs env)) operator_defaults, w)"

definition MustM :: "('w, unit) ext \<Rightarrow> ('w, unit) io" where
  "MustM m = tryM (callM m) (\<lambda>err. panicM ''Must'') retM"

definition operator_init :: "('d, 'o, 'l, 'w) operator_env \<Rightarrow> ('w, unit) io" where
  "operator_init env = bindM (MustM (oe_clientgoAddToScheme env)) (\<lambda>_. MustM (api_AddToScheme (oe_AddToScheme env)))"

definition operator_manager :: "OperatorFlags \<Rightarrow> manager_Options" where
  "operator_manager f =
     \<lparr>mo_MetricsBindAddress = of_metricsAddr f, mo_Port = 9443, mo_HealthProbeBindAddress = of_probeAddr f,
      mo_LeaderElection = of_enableLeaderElection f, mo_LeaderElectionID = ''networking.addons.kope.io'',
      mo_LeaderElectionResourceLock = ''leases''\<rparr>"

text \<open>\<^verbatim>\<open>if err := m; err != nil { setupLog.Error(err, msg); os.Exit(1) }\<close>\<close>

definition orExit :: "string \<Rightarrow> ('w, 'a) io \<Rightarrow> ('w, 'a) io" where
  "orExit msg m = tryM m (\<lambda>err. fatalM msg) retM"

definition operator_main :: "('d, 'o, 'l, 'w) operator_env \<Rightarrow> ('w, unit) io" where
  "operator_main env =
     bindM (operator_parse env) (\<lambda>f.
       bindM (addon_InitM env) (\<lambda>_.
         bindM (orExit ''unable to get kubeconfig'' (callM (oe_GetConfig env))) (\<lambda>_.
           bindM (orExit ''unable to start manager'' (callM (oe_NewManager env (operator_manager f)))) (\<lambda>mgr.
             bindM (orExit ''unable to create controller'' (SetupWithManager env \<lparr>nr_RBACMode = of_rbacMode f\<rparr> mgr)) (\<lambda>_.
               bindM (orExit ''unable to set up health check'' (callM (oe_AddHealthzCheck env mgr ''healthz''))) (\<lambda>_.
                 bindM (orExit ''unable to set up ready check'' (callM (oe_AddReadyzCheck env mgr ''readyz''))) (\<lambda>_.
                   orExit ''problem running manager'' (callM (oe_Start env mgr)))))))))"

text \<open>The process: the initialisers of the packages, then \<^verbatim>\<open>main\<close>.\<close>

definition operator_process :: "('d, 'o, 'l, 'w) operator_env \<Rightarrow> ('w, unit) io" where
  "operator_process env = bindM (operator_init env) (\<lambda>_. operator_main env)"

section \<open>The transforms of a registration\<close>

text \<open>
  The object transforms among the options, and what they make of a manifest one after the other:
  the documented use of \<^verbatim>\<open>WithObjectTransform\<close>.
\<close>

fun object_transforms :: "('d, 'o, 'l) reconcilerOption list \<Rightarrow> ('d, 'o) object_transform list" where
  "object_transforms [] = []"
| "object_transforms (WithObjectTransform t # opts) = t # object_transforms opts"
| "object_transforms (opt # opts) = object_transforms opts"

fun transform_all :: "('d, 'o) object_transform list \<Rightarrow> ('d, 'o) object_transform" where
  "transform_all [] object items = Inr items"
| "transform_all (t # ts) object items =
     (case t object items of Inl err \<Rightarrow> Inl err | Inr items' \<Rightarrow> transform_all ts object items')"

section \<open>Properties\<close>

definition is_rbac :: "GroupKind \<Rightarrow> bool" where
  "is_rbac k \<longleftrightarrow> gk_Group k = ''rbac.authorization.k8s.io'' \<and>
     gk_Kind k \<in> {''ClusterRole'', ''ClusterRoleBinding'', ''Role'', ''RoleBinding''}"

lemma rbac_keepItems_filter: "rbac_keepItems gk items acc = acc @ filter (\<lambda>obj. \<not> is_rbac (gk obj)) items"
  by (induction items arbitrary: acc) (auto simp: is_rbac_def Let_def)

text \<open>The loop of the transform is a filter: with the mode \<^verbatim>\<open>ignore\<close> exactly the roles and role
  bindings of the RBAC group are dropped and the order of the rest is kept; with \<^verbatim>\<open>reconcile\<close> or no mode the
  manifest is unchanged; any other mode is an error.\<close>

lemma rbacModeTransform_filter:
  "rbacModeTransform r gk items =
     (if nr_RBACMode r \<in> {''reconcile'', ''''} then Inr items
      else if nr_RBACMode r = ''ignore'' then Inr (filter (\<lambda>obj. \<not> is_rbac (gk obj)) items)
      else Inl (Errorf ''unknown rbac mode %q'' None))"
  by (simp add: rbacModeTransform_def rbac_keepItems_filter)

text \<open>A step that may end the process returns when the step did.\<close>

lemma orExit_eq_Ret: "orExit msg m w = (Ret x, w') \<longleftrightarrow> m w = (Ret x, w')"
  by (auto simp: orExit_def tryM_def split: prod.splits outcome.splits)

lemma MustM_eq_Ret: "MustM m w = (Ret (), w') \<longleftrightarrow> m w = (Inr (), w')"
  by (auto simp: MustM_def tryM_def callM_def split: prod.splits sum.splits)

text \<open>The string flags on a command line: the last assignment counts.\<close>

lemma operator_flags_set:
  assumes "\<forall>(name, value) \<in> set nvs. name \<in> {''metrics-bind-address'', ''health-probe-bind-address'', ''rbac-mode''}"
  shows "\<exists>f'. Flags_Set_all (operator_flags @ lib) nvs f = Inr f' \<and>
    of_rbacMode f' = (case map_of (rev nvs) ''rbac-mode'' of None \<Rightarrow> of_rbacMode f | Some mode \<Rightarrow> mode)"
  using assms
proof (induction nvs arbitrary: f)
  case (Cons nv nvs)
  obtain name v where nv: "nv = (name, v)" by fastforce
  then consider "name = ''metrics-bind-address''" | "name = ''health-probe-bind-address''" | "name = ''rbac-mode''"
    using Cons.prems by auto
  then obtain f1 where "Flags_Set (operator_flags @ lib) name v f = Inr f1"
    "of_rbacMode f1 = (if name = ''rbac-mode'' then v else of_rbacMode f)"
    by cases (simp_all add: Flags_Set_def operator_flags_def StringVar_def)
  moreover obtain f' where "Flags_Set_all (operator_flags @ lib) nvs f1 = Inr f'"
    "of_rbacMode f' = (case map_of (rev nvs) ''rbac-mode'' of None \<Rightarrow> of_rbacMode f1 | Some mode \<Rightarrow> mode)"
    using Cons.IH [of f1] Cons.prems by auto
  ultimately show ?case by (auto simp: nv map_add_def split: option.splits)
qed simp

lemma operator_parse_mode:
  assumes "oe_osArgs env = prog # map flag_arg nvs"
    and "\<forall>(name, value) \<in> set nvs. name \<in> {''metrics-bind-address'', ''health-probe-bind-address'', ''rbac-mode''}"
    and "operator_parse env w = (Ret f, w')"
  shows "of_rbacMode f = (case map_of (rev nvs) ''rbac-mode'' of None \<Rightarrow> ''reconcile'' | Some mode \<Rightarrow> mode)"
proof -
  have "\<forall>(name, value) \<in> set nvs. flag_name name" using assms(2) by (auto simp: flag_name_def)
  moreover obtain f' where set: "Flags_Set_all (operator_flags @ library_flags (oe_libraryFlags env)) nvs operator_defaults = Inr f'"
    and mode: "of_rbacMode f' = (case map_of (rev nvs) ''rbac-mode'' of None \<Rightarrow> of_rbacMode operator_defaults | Some mode \<Rightarrow> mode)"
    using operator_flags_set [OF assms(2)] by blast
  ultimately have "f = f'" using Flags_Parse_assigns [OF _ set] assms(1,3) by (simp add: operator_parse_def)
  moreover have "of_rbacMode operator_defaults = ''reconcile''" by (simp add: operator_defaults_def)
  ultimately show ?thesis using mode by (simp split: option.splits)
qed

lemma operator_main_inits:
  assumes "operator_main env w = (Ret (), w')"
  obtains f mgr w1 w2 where "operator_parse env w = (Ret f, w)"
    and "oe_Reconciler_Init env mgr (setup_options env \<lparr>nr_RBACMode = of_rbacMode f\<rparr>) w1 = (Inr (), w2)"
  using assms
  by (auto simp: operator_main_def SetupWithManager_def bindM_eq_Ret orExit_eq_Ret callM_eq_Ret operator_parse_def)

text \<open>The objects of the API are in the scheme, under their group and version, before \<^verbatim>\<open>main\<close> begins.\<close>

lemma operator_process_registers:
  assumes "operator_process env w = (Ret (), w')"
  obtains bld w1 w2 where "oe_AddToScheme env bld w1 = (Inr (), w2)" and "operator_main env w2 = (Ret (), w')"
    and "bld_GroupVersion bld = \<lparr>gv_Group = ''addons.kope.io'', gv_Version = ''v1alpha1''\<rparr>"
    and "set (concat (bld_Registered bld)) = UNIV"
proof -
  obtain w1 w2 where "oe_AddToScheme env (api_init SchemeBuilder) w1 = (Inr (), w2)" and "operator_main env w2 = (Ret (), w')"
    using assms by (auto simp: operator_process_def operator_init_def bindM_eq_Ret MustM_eq_Ret api_AddToScheme_def)
  moreover have "set (concat (bld_Registered (api_init SchemeBuilder))) = UNIV"
    by (auto simp: api_init_def scheme_Register_def SchemeBuilder_def intro: api_object.exhaust)
  ultimately show thesis using that by (simp add: api_init_def scheme_Register_def SchemeBuilder_def api_GroupVersion_def)
qed

lemma setup_options_transform:
  "transform_all (object_transforms (setup_options env r)) object items =
     (case rbacModeTransform r (oe_GroupKind env) items of
        Inl err \<Rightarrow> Inl err
      | Inr items' \<Rightarrow> transform_all [oe_AddLabels env [(''k8s-app'', ''networking'')], oe_ApplyPatches env] object items')"
  by (simp add: setup_options_def Let_def)

text \<open>A step that fails ends the process with its log line; \<^verbatim>\<open>main\<close> never returns an error and never panics.\<close>

lemma orExit_quiet: "fst (orExit msg m w) = (case fst (m w) of Err e \<Rightarrow> Fatal msg | r \<Rightarrow> r)"
  by (auto simp: orExit_def tryM_def split: prod.splits outcome.splits)


text \<open>A cluster on which every call of the operator succeeds, and which records the manifest it was given.\<close>

definition operator_sample :: "(unit, GroupKind, unit, nat) operator_env" where
  "operator_sample =
     \<lparr>oe_GroupKind = (\<lambda>obj. obj), oe_AddLabels = (\<lambda>labels object items. Inr items), oe_ApplyPatches = (\<lambda>object items. Inr items),
      oe_SourceLabel = (), oe_osArgs = [''/manager'', ''--rbac-mode=ignore''], oe_libraryFlags = [],
      oe_clientgoAddToScheme = (\<lambda>w. (Inr (), w)), oe_AddToScheme = (\<lambda>bld w. (Inr (), w)), oe_addon_Init = (\<lambda>w. w),
      oe_GetConfig = (\<lambda>w. (Inr (), w)), oe_NewManager = (\<lambda>opts w. (Inr 1, w)),
      oe_Reconciler_Init = (\<lambda>mgr opts w. case transform_all (object_transforms opts) ()
          [\<lparr>gk_Group = ''apps'', gk_Kind = ''DaemonSet''\<rparr>, \<lparr>gk_Group = ''rbac.authorization.k8s.io'', gk_Kind = ''Role''\<rparr>] of
            Inl err \<Rightarrow> (Inl err, w) | Inr items \<Rightarrow> (Inr (), length items)),
      oe_controller_New = (\<lambda>name mgr w. (Inr 2, w)), oe_Watch = (\<lambda>c w. (Inr (), w)),
      oe_WatchChildren = (\<lambda>mgr c l scope w. (Inr (), w)), oe_AddHealthzCheck = (\<lambda>mgr name w. (Inr (), w)),
      oe_AddReadyzCheck = (\<lambda>mgr name w. (Inr (), w)), oe_Start = (\<lambda>mgr w. (Inr (), w))\<rparr>"

lemma operator_sample_runs: "operator_main operator_sample 0 = (Ret (), 1)"
proof -
  have "''--rbac-mode=ignore'' = flag_arg (''rbac-mode'', ''ignore'')" by (simp add: flag_arg_def)
  then have "operator_parse operator_sample w = (Ret (operator_defaults\<lparr>of_rbacMode := ''ignore''\<rparr>), w)" for w
    by (simp add: operator_parse_def operator_sample_def Flags_Parse_assign flag_name_def Flags_Set_def operator_flags_def StringVar_def
        operator_defaults_def)
  then show ?thesis
    by (simp add: operator_main_def SetupWithManager_def addon_InitM_def bindM_def orExit_def tryM_def callM_def
        operator_sample_def setup_options_transform rbacModeTransform_filter is_rbac_def)
qed


end
