(* ===== verification/Spec2Isabelle.thy ===== *)
theory Spec2Isabelle
  imports Agent_Main Reads Overlay Operator
begin

text \<open>
  Verification of the kopeio networking agent (\<^verbatim>\<open>src/cmd/networking-agent\<close>, \<^verbatim>\<open>src/pkg\<close>) and of the
  operator (\<^verbatim>\<open>src/operator\<close>).

  \<^bold>\<open>The program.\<close>  The agent runs on every node of a Kubernetes cluster.  The node watcher lists and
  watches the nodes and keeps the node map; the routing controller hands the node map to a routing
  provider again and again, writes the CNI configuration of the local node and reports its network
  as available.  A provider turns the node map into links, addresses, routes, neighbour entries or
  IPsec state, through tables that bring the kernel from what it has to what is expected.

  \<^bold>\<open>The theories, from the bottom up.\<close>
  \<^item> \<open>Net_Prelude\<close>: outcomes (value, error, end of the process, panic), effectful computations, Go maps with
    a visiting order, and the lemma collections.  \<open>Go_Net\<close>: what is used of the Go packages \<^verbatim>\<open>net\<close> and
    \<^verbatim>\<open>net/netip\<close>, and the round trip of an IPv4 network through its text.
  \<^item> \<open>Nodes\<close> (\<^verbatim>\<open>routing/nodes.go\<close>): the node map with an explicit store for its pointers.  It refines a map
    from names to what the node objects say; every reachable map is well formed; the version
    changes exactly with the contents.
  \<^item> \<open>Netlink\<close>, \<open>Net_Helpers\<close> (\<^verbatim>\<open>netutil/helpers.go\<close>), \<open>Kernel_Tables\<close>, \<open>Ref_Kernel\<close>: the types of the netlink
    library, the comparisons, the contract of the kernel's tables as named hypotheses (which entries exclude
    each other, what a call that succeeds changes), and an executable kernel that satisfies it.
  \<^item> \<open>Route_Table\<close>, \<open>Neigh_Table\<close>, \<open>Link_Addresses\<close>, \<open>Links\<close>, \<open>Xfrm_State_Table\<close>, \<open>Xfrm_Policy_Table\<close> (\<^verbatim>\<open>netutil/*.go\<close>):
    each \<^verbatim>\<open>Ensure\<close> converges to the expected entries and is idempotent, and where it cannot, how it fails.
  \<^item> \<open>Provider\<close> (\<^verbatim>\<open>routing/provider.go\<close>): the contract \<open>routing_provider\<close> of \<^verbatim>\<open>EnsureCIDRs\<close> as a locale, and
    the code that the providers share.  \<open>Layer2\<close>, \<open>Gre\<close>, \<open>Vxlan\<close> (with the netlink monitor), \<open>Vxlan2\<close>,
    \<open>Esp_Listener\<close> and \<open>Ipsec\<close> (\<^verbatim>\<open>routing/*/\<close>) interpret it and show what each installs in the kernel.  \<open>Overlay\<close>: the
    first call of the default provider (\<open>Vxlan2\<close>) on a machine without a VXLAN link, which makes the link and fills
    its tables.
  \<^item> \<open>Watchers\<close> (\<^verbatim>\<open>watchers/nodecontroller.go\<close>): the node map follows the API server and recovers from every
    failed round.  The locale \<open>node_store\<close> is what it relies on of the node map.
  \<^item> \<open>Cni\<close> (\<^verbatim>\<open>cni/simpleconfigwriter.go\<close>), \<open>Routing_Controller\<close> (\<^verbatim>\<open>routing/providercontroller.go\<close>): what the
    configuration file holds; the node is reported available only after its routes are in place,
    and in the end it is.
  \<^item> \<open>Go_Flags\<close> (the Go package \<^verbatim>\<open>flag\<close>), \<open>Agent_Options\<close>, \<open>Agent\<close> (\<^verbatim>\<open>cmd/networking-agent\<close>): options, flags, the
    local node, the links, the choice of the provider; the provider chosen, whichever it is, keeps the contract.
  \<^item> \<open>System\<close>: watcher, routing controller, API server and kernel as a step relation, in any order and with
    any failures.  An agent at rest has applied what the server has, and it can always come to rest.  A round of
    the watcher is a run of these steps.  \<open>Reads\<close>: \<^verbatim>\<open>EnsureCIDRs\<close> reads the node map twice (\<^verbatim>\<open>IsVersion\<close>, \<^verbatim>\<open>Snapshot\<close>);
    with the two reads as steps of their own, and those of the others between them, the system refines the one in
    which a call reads once (locale \<open>reading_provider\<close>).  \<open>Agent_Main\<close> (\<^verbatim>\<open>cmd/networking-agent/main.go\<close>): the process and its end.
  \<^item> \<open>Api_Types\<close> (\<^verbatim>\<open>operator/api/v1alpha1\<close>): the API object, its registration with the scheme, and its deep copies over a
    store, which share nothing with the original.  \<open>Operator\<close> (\<^verbatim>\<open>operator\<close>): \<^verbatim>\<open>main\<close>, the registration of the controller and the RBAC transform; from
    the command line to what happens to a manifest.
  \<^item> This theory: from the API server to the kernel, with the layer 2 provider and with the default one.

  \<^bold>\<open>Correspondence.\<close>  Definitions keep the names of the functions; a method \<^verbatim>\<open>T.M\<close> is \<open>T_M\<close> where \<open>M\<close> alone
  is not unique.  The fields of a struct are those of a record, with a prefix.  The receiver of
  a provider's method is the first half of the state, the world the second; outside code (kernel,
  API server, files, sockets, clock, YAML and JSON) is a parameter.  An error carries its format
  string and the error it wraps, not the formatted arguments.  A \<^verbatim>\<open>range\<close> over a map takes the order as a
  parameter; theorems hold for every order.  Loops over slices and maps are structural
  recursions; the endless loops (watcher, controller, monitor, signals) are recursions over what the
  environment delivers, and stay in a state that says that they are still running, so no fuel is
  needed.  Each exported method of the node map holds the mutex and is one step.

  \<^bold>\<open>Not modelled.\<close>  Log output; sleeping; \<^verbatim>\<open>util/format.go\<close>, a formatter for log lines and for the arguments of an
  error.  The neighbour table of the VXLAN providers is a structure without fields, and left out with its constructor.
  A provider's \<^verbatim>\<open>EnsureCIDRs\<close> gives its two reads of the node map the same map, which \<open>Reads\<close> justifies.
  The controller reads \<^verbatim>\<open>me\<close> without the
  mutex; the model gives each such read a map of its own.
\<close>

section \<open>From the API server to the kernel\<close>

lemma server_keeps_node:
  assumes "\<forall>event \<in> set events. keeps_node self event" and "S self \<noteq> None"
  shows "fold server_event events S self \<noteq> None"
  using assms
proof (induction events arbitrary: S)
  case (Cons event events)
  have "server_event event S self \<noteq> None"
    using Cons.prems by (cases "ev_Type event"; cases "ev_Object event") (auto simp: keeps_node_def)
  then show ?case using Cons by simp
qed simp

lemma distinct_on_map:
  "distinct xs \<Longrightarrow> (\<And>x y. x \<in> set xs \<Longrightarrow> y \<in> set xs \<Longrightarrow> x \<noteq> y \<Longrightarrow> key (f x) \<noteq> key (f y)) \<Longrightarrow> distinct_on key (map f xs)"
  by (induction xs) (auto simp: distinct_on_Cons)

text \<open>The snapshot of a node map that mirrors the server: the local node and every node of the server.\<close>

lemma snapshot_mirrors:
  assumes "nodes.mirrors m S" and "me_named self m" and "IsReady m" and "S self \<noteq> None" and "range_order ord"
  obtains me nodes where "Snapshot ord m = (Some me, nodes, nm_version m)" and "map_option nodeView (S self) = Some me" and "ni_Name me = self"
    and "distinct (map ni_Name nodes)"
    and "\<forall>n. n \<in> set nodes \<longleftrightarrow> (\<exists>node. S (ni_Name n) = Some node \<and> n = nodeView node)"
proof -
  have wf: "wf_NodeMap m" and look: "lookupNode m = (\<lambda>name. map_option nodeView (S name))"
    using assms(1) by (simp_all add: nodes.mirrors_def)
  obtain me where me: "me_of m = Some me" "lookupNode m self = Some me"
    using me_named_me_of [OF assms(2)] assms(4) look by auto
  let ?nodes = "map (\<lambda>(name, l). nm_heap m ! l) (ord (nm_nodes m))"
  have "Snapshot ord m = (Some me, ?nodes, nm_version m)"
    using assms(3) me by (simp add: Snapshot_def IsReady_def)
  then show ?thesis
    using that [of me ?nodes] snapshot_nodes [OF wf assms(5)] lookupNode_name [OF wf me(2)] me(2) by (auto simp: look)
qed

text \<open>
  From the start of an agent to the snapshot its provider takes: the nodes are listed and sent, and the provider gets what
  the server has.
\<close>

lemma agent_snapshot:
  assumes "range_order ord" and "range_order ordS"
    and "kn_List kc w = (Inr (items, rv), w1)" and "kn_Watch kc rv w1 = (Inr watcher, w2)"
    and "self \<in> node_Name ` set items" and "\<forall>event \<in> set events. ordinary event \<and> keeps_node self event"
    and "runOnce kc ord (map ChanEvent events) (NewNodeMap (\<lambda>node. node_Name node = self), w) = (r, (m', w'))"
    and "S = fold server_event events (listed items)"
  obtains me nodes where "nodes.mirrors m' S" and "Snapshot ordS m' = (Some me, nodes, nm_version m')"
    and "map_option nodeView (S self) = Some me" and "ni_Name me = self" and "distinct (map ni_Name nodes)"
    and "\<forall>n. n \<in> set nodes \<longleftrightarrow> (\<exists>node. S (ni_Name n) = Some node \<and> n = nodeView node)"
proof -
  let ?m = "NewNodeMap (\<lambda>node. node_Name node = self)"
  have ev: "\<forall>event \<in> set events. ordinary event" "\<forall>event \<in> set events. keeps_node self event" using assms(6) by auto
  have mir: "nodes.mirrors m' S" and ready: "IsReady m'"
    using runOnce_mirrors [OF wf_NodeMap_NewNodeMap [of "\<lambda>node. node_Name node = self"] assms(1,3,4) ev(1)] assms(7,8) by auto
  have named: "me_named self m'"
    by (rule runOnce_me_named [OF wf_NodeMap_NewNodeMap me_named_NewNodeMap assms(3-7)])
  have "listed items self \<noteq> None" using assms(5) by (auto simp: listed_def lastNamed_None_iff)
  then have "S self \<noteq> None" using server_keeps_node [OF ev(2)] assms(8) by simp
  from snapshot_mirrors [OF mir named ready this assms(2)] that [OF mir] show thesis by metis
qed

lemma mirrors_name: "nodes.mirrors m S \<Longrightarrow> S name = Some node \<Longrightarrow> node_Name node = name"
  using lookupNode_name [of m name "nodeView node"] by (simp add: nodes.mirrors_def)

text \<open>The routes of the layer 2 provider over such a snapshot have different keys.\<close>

lemma layer2_routes_distinct:
  assumes names: "distinct (map ni_Name nodes)"
    and nodes: "\<And>n. n \<in> set nodes \<Longrightarrow> \<exists>node. S (ni_Name n) = Some node \<and> n = nodeView node"
    and pods: "\<forall>n1 n2 a b. S n1 = Some a \<and> S n2 = Some b \<and> n1 \<noteq> n2 \<and> viewPodCIDR a \<noteq> None \<and> viewPodCIDR b \<noteq> None \<longrightarrow>
      IPNet_String (viewPodCIDR a) \<noteq> IPNet_String (viewPodCIDR b)"
  shows "distinct_on route_key (layer2_routes p me nodes)"
  unfolding layer2_routes_def
proof (rule distinct_on_map)
  show "distinct (remotes me nodes)" using names by (simp add: remotes_def distinct_map)
  fix x y assume xy: "x \<in> set (remotes me nodes)" "y \<in> set (remotes me nodes)" "x \<noteq> y"
  then have "x \<in> set nodes" "y \<in> set nodes" and cidr: "ni_PodCIDR x \<noteq> None" "ni_PodCIDR y \<noteq> None"
    by (simp_all add: in_remotes)
  moreover from this have "ni_Name x \<noteq> ni_Name y" using names xy(3) by (auto simp: distinct_map dest: inj_onD)
  moreover obtain a b where "S (ni_Name x) = Some a" "x = nodeView a" "S (ni_Name y) = Some b" "y = nodeView b"
    using nodes calculation(1,2) by blast
  ultimately have "IPNet_String (ni_PodCIDR x) \<noteq> IPNet_String (ni_PodCIDR y)"
    using pods by (auto simp: nodeView_def)
  then show "route_key (layer2_route (lk_Index (l2_underlyingLink p)) x) \<noteq> route_key (layer2_route (lk_Index (l2_underlyingLink p)) y)"
    using cidr by (auto simp: route_key_def layer2_route_def)
qed

text \<open>
  The addresses of a cluster for the overlay: the pod networks of the nodes that can be reached are IPv4, and their names, their first
  addresses and the addresses of the nodes differ.
\<close>

definition overlay_cluster :: "(string \<Rightarrow> k8s_node option) \<Rightarrow> bool" where
  "overlay_cluster S \<longleftrightarrow>
     (\<forall>n1 n2 a b. S n1 = Some a \<and> S n2 = Some b \<and> viewPodCIDR a \<noteq> None \<and> viewPodCIDR b \<noteq> None \<and>
        viewAddress a \<noteq> None \<and> viewAddress b \<noteq> None \<longrightarrow>
        To4 (pod_ip (nodeView a)) \<noteq> None \<and> IP_String (pod_ip (nodeView a)) \<noteq> IP_String (viewAddress b) \<and>
        (n1 \<noteq> n2 \<longrightarrow> IP_String (pod_ip (nodeView a)) \<noteq> IP_String (pod_ip (nodeView b)) \<and>
           IP_String (viewAddress a) \<noteq> IP_String (viewAddress b) \<and> IPNet_String (viewPodCIDR a) \<noteq> IPNet_String (viewPodCIDR b)))"

lemma mac_of_String: "To4 a \<noteq> None \<Longrightarrow> To4 b \<noteq> None \<Longrightarrow> mac_of a = mac_of b \<Longrightarrow> IP_String a = IP_String b"
  using mac_of_eq IP_String_cong by blast

lemma distinct_two:
  assumes "distinct xs" and "\<And>x. x \<in> set xs \<Longrightarrow> f x \<noteq> g x"
    and "\<And>x y. x \<in> set xs \<Longrightarrow> y \<in> set xs \<Longrightarrow> x \<noteq> y \<Longrightarrow> f x \<noteq> f y \<and> g x \<noteq> g y \<and> f x \<noteq> g y"
  shows "distinct (concat (map (\<lambda>x. [f x, g x]) xs))"
  using assms by (induction xs) (auto, metis+)

lemma overlay_addresses_remotes:
  assumes cl: "overlay_cluster S" and names: "distinct (map ni_Name nodes)"
    and nodes: "\<And>n. n \<in> set nodes \<Longrightarrow> \<exists>node. S (ni_Name n) = Some node \<and> n = nodeView node"
  shows "overlay_addresses (remotes me nodes)"
proof -
  let ?rs = "remotes me nodes"
  have rs: "distinct ?rs" using names by (simp add: remotes_def distinct_map)
  have two: "To4 (pod_ip x) \<noteq> None \<and> IP_String (pod_ip x) \<noteq> IP_String (ni_Address y) \<and>
      (x \<noteq> y \<longrightarrow> IP_String (pod_ip x) \<noteq> IP_String (pod_ip y) \<and> IP_String (ni_Address x) \<noteq> IP_String (ni_Address y) \<and>
         ipnet_key (ni_PodCIDR x) \<noteq> ipnet_key (ni_PodCIDR y))" if "x \<in> set ?rs" "y \<in> set ?rs" for x y
  proof -
    have xy: "x \<in> set nodes" "y \<in> set nodes" "ni_PodCIDR x \<noteq> None" "ni_PodCIDR y \<noteq> None" "ni_Address x \<noteq> None" "ni_Address y \<noteq> None"
      using that by (simp_all add: in_remotes)
    obtain a b where ab: "S (ni_Name x) = Some a" "x = nodeView a" "S (ni_Name y) = Some b" "y = nodeView b" using nodes xy(1,2) by blast
    have "x \<noteq> y \<Longrightarrow> ni_Name x \<noteq> ni_Name y" using names xy(1,2) by (auto simp: distinct_map dest: inj_onD)
    then show ?thesis
      using cl [unfolded overlay_cluster_def, rule_format, of "ni_Name x" a "ni_Name y" b] xy(3-) ab by (auto simp: nodeView_def ipnet_key_def)
  qed
  have "distinct (map (\<lambda>r. mac_of (pod_ip r)) ?rs)"
    using rs two mac_of_String unfolding distinct_map by (auto simp: inj_on_def) metis
  moreover have "distinct_on (\<lambda>r. ipnet_key (ni_PodCIDR r)) ?rs" using distinct_on_map [OF rs, of "\<lambda>r. ipnet_key (ni_PodCIDR r)" "\<lambda>r. r"] two by simp
  moreover have "distinct (concat (map (\<lambda>r. [IP_String (pod_ip r), IP_String (ni_Address r)]) ?rs))"
    by (rule distinct_two [OF rs]) (simp_all add: two)
  ultimately show ?thesis unfolding overlay_addresses_def using two by blast
qed

text \<open>The two sample nodes are such a cluster.\<close>

definition cidr_sample :: "byte \<Rightarrow> ipnet" where
  "cidr_sample n = \<lparr>ipn_IP = Some [100, 96, n, 0], ipn_Mask = [255, 255, 255, 0]\<rparr>"

lemma node_views:
  "viewPodCIDR node_a = Some (cidr_sample 1)" "viewPodCIDR node_b = Some (cidr_sample 2)"
  "viewAddress node_a = IPv4 172 20 0 10" "viewAddress node_b = IPv4 172 20 0 11"
  using arg_cong [OF nodeView_node_a, of ni_PodCIDR] arg_cong [OF nodeView_node_b, of ni_PodCIDR]
    arg_cong [OF nodeView_node_a, of ni_Address] arg_cong [OF nodeView_node_b, of ni_Address]
  by (simp_all add: nodeView_def cidr_sample_def)

lemma overlay_cluster_sample: "overlay_cluster [''a'' \<mapsto> node_a, ''b'' \<mapsto> node_b]"
proof -
  have ip: "pod_ip (nodeView node_a) = Some [100, 96, 1, 0]" "pod_ip (nodeView node_b) = Some [100, 96, 2, 0]"
    by (simp_all add: pod_ip_def nodeView_def node_views cidr_sample_def)
  have addrs: "IP_String (viewAddress node_a) = ''172.20.0.10''" "IP_String (viewAddress node_b) = ''172.20.0.11''"
    "IP_String (Some [100, 96, 1, 0]) = ''100.96.1.0''" "IP_String (Some [100, 96, 2, 0]) = ''100.96.2.0''"
    by (simp_all add: node_views net_eval)
  have cidrs: "IPNet_String (viewPodCIDR node_a) = ''100.96.1.0/24''" "IPNet_String (viewPodCIDR node_b) = ''100.96.2.0/24''"
    by (simp_all add: node_views cidr_sample_def net_eval)
  have "To4 (Some [100, 96, 1, 0]) \<noteq> None" "To4 (Some [100, 96, 2, 0]) \<noteq> None" by (simp_all add: To4_def)
  then show ?thesis unfolding overlay_cluster_def by (auto simp: ip addrs cidrs split: if_splits)
qed

section \<open>Properties of the whole\<close>





end
